theory Spec2Isabelle
  imports Complex_Main
begin

section \<open>Numbers\<close>

text \<open>
  The program is JavaScript: every number is an IEEE double. The embedding computes with
  exact reals; rounding and overflow are not modelled. On finite inputs the source can leave
  the finite numbers at its two divisions, the quotient of the scroll progress and the
  quotient of the radius. A \<open>jsnum\<close> is a finite real, one of the two infinities, or NaN;
  the scroll progress and every value of the camera that a frame computes from it are
  of that type. The two zeros are not told apart: a zero is \<open>+0\<close>.
\<close>

datatype jsnum = Finite real | PosInfinity | NegInfinity | NaN

text \<open>\<open>x / y\<close> for finite \<open>x\<close> and \<open>y\<close>. A zero divisor is \<open>+0\<close> here: it is the difference of
  two heights, and \<open>h - h\<close> is \<open>+0\<close>.\<close>

definition js_div :: "real \<Rightarrow> real \<Rightarrow> jsnum" where
  "js_div x y =
     (if y \<noteq> 0 then Finite (x / y)
      else if 0 < x then PosInfinity
      else if x < 0 then NegInfinity
      else NaN)"

fun js_max :: "jsnum \<Rightarrow> jsnum \<Rightarrow> jsnum" where
  "js_max NaN _ = NaN"
| "js_max _ NaN = NaN"
| "js_max PosInfinity _ = PosInfinity"
| "js_max _ PosInfinity = PosInfinity"
| "js_max NegInfinity y = y"
| "js_max x NegInfinity = x"
| "js_max (Finite a) (Finite b) = Finite (max a b)"

fun js_min :: "jsnum \<Rightarrow> jsnum \<Rightarrow> jsnum" where
  "js_min NaN _ = NaN"
| "js_min _ NaN = NaN"
| "js_min NegInfinity _ = NegInfinity"
| "js_min _ NegInfinity = NegInfinity"
| "js_min PosInfinity y = y"
| "js_min x PosInfinity = x"
| "js_min (Finite a) (Finite b) = Finite (min a b)"

text \<open>\<open>const lerp = (a, b, t) => a + (b - a) * t\<close>\<close>

definition lerp :: "real \<Rightarrow> real \<Rightarrow> real \<Rightarrow> real" where
  "lerp a b t = a + (b - a) * t"

text \<open>\<open>const clamp = (v, min, max) => Math.min(Math.max(v, min), max)\<close>, on finite numbers
  and on a quotient.\<close>

definition clamp :: "real \<Rightarrow> real \<Rightarrow> real \<Rightarrow> real" where
  "clamp v lo hi = min (max v lo) hi"

definition clamp_js :: "jsnum \<Rightarrow> real \<Rightarrow> real \<Rightarrow> jsnum" where
  "clamp_js v lo hi = js_min (js_max v (Finite lo)) (Finite hi)"

text \<open>The operators \<open>-x\<close>, \<open>x + y\<close>, \<open>x - y\<close>, \<open>x * y\<close>, \<open>x / y\<close> and \<open>x < y\<close> on such
  numbers. NaN is contagious and compares false; opposite infinities do not add, and an
  infinity times zero or over an infinity is NaN.\<close>

fun js_neg :: "jsnum \<Rightarrow> jsnum" where
  "js_neg (Finite a) = Finite (- a)"
| "js_neg PosInfinity = NegInfinity"
| "js_neg NegInfinity = PosInfinity"
| "js_neg NaN = NaN"

fun js_add :: "jsnum \<Rightarrow> jsnum \<Rightarrow> jsnum" where
  "js_add NaN _ = NaN"
| "js_add _ NaN = NaN"
| "js_add (Finite a) (Finite b) = Finite (a + b)"
| "js_add PosInfinity NegInfinity = NaN"
| "js_add NegInfinity PosInfinity = NaN"
| "js_add PosInfinity _ = PosInfinity"
| "js_add _ PosInfinity = PosInfinity"
| "js_add NegInfinity _ = NegInfinity"
| "js_add _ NegInfinity = NegInfinity"

definition js_sub :: "jsnum \<Rightarrow> jsnum \<Rightarrow> jsnum" where
  "js_sub x y = js_add x (js_neg y)"

text \<open>The infinity that has the sign of a finite factor; there is none for zero.\<close>

definition infinityOfSign :: "real \<Rightarrow> jsnum" where
  "infinityOfSign a = (if 0 < a then PosInfinity else if a < 0 then NegInfinity else NaN)"

fun js_mul :: "jsnum \<Rightarrow> jsnum \<Rightarrow> jsnum" where
  "js_mul NaN _ = NaN"
| "js_mul _ NaN = NaN"
| "js_mul (Finite a) (Finite b) = Finite (a * b)"
| "js_mul PosInfinity (Finite b) = infinityOfSign b"
| "js_mul NegInfinity (Finite b) = infinityOfSign (- b)"
| "js_mul (Finite a) PosInfinity = infinityOfSign a"
| "js_mul (Finite a) NegInfinity = infinityOfSign (- a)"
| "js_mul PosInfinity PosInfinity = PosInfinity"
| "js_mul NegInfinity NegInfinity = PosInfinity"
| "js_mul PosInfinity NegInfinity = NegInfinity"
| "js_mul NegInfinity PosInfinity = NegInfinity"

fun js_quot :: "jsnum \<Rightarrow> jsnum \<Rightarrow> jsnum" where
  "js_quot NaN _ = NaN"
| "js_quot _ NaN = NaN"
| "js_quot (Finite a) (Finite b) = js_div a b"
| "js_quot (Finite a) _ = Finite 0"
| "js_quot PosInfinity (Finite b) = (if b < 0 then NegInfinity else PosInfinity)"
| "js_quot NegInfinity (Finite b) = (if b < 0 then PosInfinity else NegInfinity)"
| "js_quot _ _ = NaN"

fun js_lt :: "jsnum \<Rightarrow> jsnum \<Rightarrow> bool" where
  "js_lt NaN _ = False"
| "js_lt _ NaN = False"
| "js_lt (Finite a) (Finite b) = (a < b)"
| "js_lt PosInfinity _ = False"
| "js_lt _ NegInfinity = False"
| "js_lt NegInfinity _ = True"
| "js_lt _ PosInfinity = True"

text \<open>\<open>Math.tan\<close>. No double is a pole of the tangent, so the value there is never asked
  for; it is NaN here.\<close>

definition js_tan :: "jsnum \<Rightarrow> jsnum" where
  "js_tan x = (case x of Finite a \<Rightarrow> (if cos a = 0 then NaN else Finite (tan a)) | _ \<Rightarrow> NaN)"

text \<open>\<open>lerp\<close> on such numbers.\<close>

definition js_lerp :: "jsnum \<Rightarrow> jsnum \<Rightarrow> jsnum \<Rightarrow> jsnum" where
  "js_lerp a b t = js_add a (js_mul (js_sub b a) t)"

text \<open>The remainder operator \<open>%\<close>: the quotient is truncated toward zero, so the result has
  the sign of the dividend.\<close>

definition js_trunc :: "real \<Rightarrow> int" where
  "js_trunc z = (if 0 \<le> z then \<lfloor>z\<rfloor> else \<lceil>z\<rceil>)"

definition js_rem :: "real \<Rightarrow> real \<Rightarrow> real" where
  "js_rem x y = x - y * of_int (js_trunc (x / y))"

text \<open>\<open>Math.round\<close>: to the nearest integer, a half goes up.\<close>

definition js_round :: "real \<Rightarrow> int" where
  "js_round x = \<lfloor>x + 1 / 2\<rfloor>"

section \<open>Constants\<close>

definition IDLE_TIMEOUT :: int where
  "IDLE_TIMEOUT = 10000"

definition IDLE_ROTATION_SPEED :: real where
  "IDLE_ROTATION_SPEED = 0.0005"

definition BETA_TOP_DOWN :: real where
  "BETA_TOP_DOWN = 0.000015"

definition BETA_ANGLED :: real where
  "BETA_ANGLED = pi / 4"

definition FOV_ORTHO :: real where
  "FOV_ORTHO = 0.05"

definition FOV_PERSPECTIVE :: real where
  "FOV_PERSPECTIVE = 0.34"

definition RADIUS_PERSPECTIVE :: real where
  "RADIUS_PERSPECTIVE = 30"

definition APPARENT_SIZE_CONSTANT :: real where
  "APPARENT_SIZE_CONSTANT = RADIUS_PERSPECTIVE * tan (FOV_PERSPECTIVE / 2)"

definition STRAIGHT_ANGLES :: "real list" where
  "STRAIGHT_ANGLES = [0, pi / 2, pi, 3 * pi / 2]"

definition QUADRANT_CENTERS :: "real list" where
  "QUADRANT_CENTERS = [pi / 4, 3 * pi / 4, 5 * pi / 4, 7 * pi / 4]"

text \<open>The two thresholds local to \<open>updateCameraFromScroll\<close>.\<close>

definition ORTHO_THRESHOLD :: real where
  "ORTHO_THRESHOLD = 0.1"

definition TRANSITION_THRESHOLD :: real where
  "TRANSITION_THRESHOLD = 1.0"

type_synonym color3 = "real \<times> real \<times> real"

type_synonym vector3 = "real \<times> real \<times> real"

definition ACCENT_EMISSION_COLOR :: color3 where
  "ACCENT_EMISSION_COLOR = (0.608, 0.733, 0.675)"

definition ACCENT_2_EMISSION_COLOR :: color3 where
  "ACCENT_2_EMISSION_COLOR = (0.851, 0.902, 0.871)"

section \<open>Angle utilities\<close>

definition normalizeAlpha :: "real \<Rightarrow> real" where
  "normalizeAlpha alpha =
     (let a = js_rem alpha (2 * pi) in if a < 0 then a + 2 * pi else a)"

text \<open>The body of the loop of \<open>snapToNearest\<close>: the angular difference with wrap-around.\<close>

definition angularDiff :: "real \<Rightarrow> real \<Rightarrow> real" where
  "angularDiff normalized angle =
     (let d = \<bar>normalized - angle\<bar> in if d > pi then 2 * pi - d else d)"

text \<open>\<open>minDiff\<close> starts as \<open>Infinity\<close>, which is \<open>None\<close> here; \<open>diff < minDiff\<close>:\<close>

definition lt_minDiff :: "real \<Rightarrow> real option \<Rightarrow> bool" where
  "lt_minDiff d minDiff = (case minDiff of None \<Rightarrow> True | Some m \<Rightarrow> d < m)"

fun snapLoop :: "real \<Rightarrow> real list \<Rightarrow> real option \<Rightarrow> real option \<Rightarrow> real option" where
  "snapLoop normalized [] minDiff nearestAngle = nearestAngle"
| "snapLoop normalized (angle # rest) minDiff nearestAngle =
     (let d = angularDiff normalized angle
      in if lt_minDiff d minDiff then snapLoop normalized rest (Some d) (Some angle)
         else snapLoop normalized rest minDiff nearestAngle)"

text \<open>\<open>nearestAngle\<close> starts as \<open>angles[0]\<close>, which is \<open>undefined\<close> (\<open>None\<close>) for an empty array.\<close>

definition snapToNearest :: "real \<Rightarrow> real list \<Rightarrow> real option" where
  "snapToNearest alpha angles =
     snapLoop (normalizeAlpha alpha) angles None
       (case angles of [] \<Rightarrow> None | a # _ \<Rightarrow> Some a)"

definition getQuadrant :: "real \<Rightarrow> nat" where
  "getQuadrant alpha =
     (let a0 = js_rem alpha (2 * pi);
          a = (if a0 < 0 then a0 + 2 * pi else a0)
      in if a < pi / 2 then 1
         else if a < pi then 2
         else if a < 3 * pi / 2 then 3
         else 4)"

section \<open>State\<close>

text \<open>
  The module's variables, as one record. The GUI entrance marker
  (\<open>updateEntranceParent\<close> and its four variables) and the choice of the sun texture
  (\<open>updateSunTexture\<close>) are left out: they write only variables of their own, which nothing
  modelled here reads.
\<close>

datatype error = TypeError | NonFinite

text \<open>\<open>TypeError\<close>: a property of \<open>null\<close> is read. \<open>NonFinite\<close>: the azimuth would get
  \<open>undefined\<close> (the answer of \<open>snapToNearest\<close> for an empty array), or the clamped
  progress would be infinite; neither happens, as is proved below.\<close>

datatype direction = North | South | East | West

datatype furniture_key = Furniture1 | Furniture2 | Furniture3

datatype texture_ref = TextureWhite | TextureAccent | TextureAccent2

record mesh =
  enabled :: bool
  visibility :: real
  scaling :: vector3
  originalScaling :: "vector3 option"

record material =
  emissiveColor :: color3
  emissiveTexture :: "texture_ref option"
  emissiveIntensity :: "real option"

record procedural_texture =
  blendFactor :: real
  coordinatesIndex :: nat

text \<open>The camera. The azimuth \<open>alpha\<close> is only ever written from finite numbers (an easing
  toward a finite target, the idle increment, the user's input), so it is a real. The other
  values are written by the frame from the scroll progress, which can be NaN.\<close>

record arc_camera =
  alpha :: real
  beta :: jsnum
  radius :: jsnum
  fov :: jsnum
  minZ :: jsnum
  lowerBetaLimit :: jsnum
  upperBetaLimit :: jsnum
  lowerRadiusLimit :: jsnum
  upperRadiusLimit :: jsnum

record state =
  camera :: "arc_camera option"
  wallMeshes :: "direction \<Rightarrow> mesh list"
  lastInteractionTime :: int
  isIdleRotating :: bool
  isToggleMode :: bool
  accentMaterial :: "material option"
  accent2Material :: "material option"
  originalAccentEmissive :: "color3 option"
  originalAccent2Emissive :: "color3 option"
  whiteMaterial :: "material option"
  blendedTextureWhite :: "procedural_texture option"
  blendedTextureAccent :: "procedural_texture option"
  blendedTextureAccent2 :: "procedural_texture option"
  furnitureSets :: "furniture_key \<Rightarrow> mesh list"
  currentFurnitureIndex :: nat
  transitionTargetAlpha :: "real option"
  lastTransitionProgress :: jsnum
  isOrthoView :: bool
  lastQuadrant :: "nat option"

text \<open>The variables as the module's top level initialises them, before \<open>createScene\<close> runs.
  \<open>lastInteractionTime\<close> is the clock reading at load.\<close>

definition initialState :: "int \<Rightarrow> state" where
  "initialState loadTime =
     \<lparr> camera = None,
       wallMeshes = (\<lambda>_. []),
       lastInteractionTime = loadTime,
       isIdleRotating = False,
       isToggleMode = False,
       accentMaterial = None,
       accent2Material = None,
       originalAccentEmissive = None,
       originalAccent2Emissive = None,
       whiteMaterial = None,
       blendedTextureWhite = None,
       blendedTextureAccent = None,
       blendedTextureAccent2 = None,
       furnitureSets = (\<lambda>_. []),
       currentFurnitureIndex = 0,
       transitionTargetAlpha = None,
       lastTransitionProgress = Finite 0,
       isOrthoView = True,
       lastQuadrant = None \<rparr>"

definition wall_directions :: "direction list" where
  "wall_directions = [North, South, East, West]"

definition furniture_keys :: "furniture_key list" where
  "furniture_keys = [Furniture1, Furniture2, Furniture3]"

definition FURNITURE_OPTIONS :: "furniture_key option list" where
  "FURNITURE_OPTIONS = [Some Furniture1, Some Furniture2, Some Furniture3, None]"

text \<open>\<open>FURNITURE_OPTIONS[currentFurnitureIndex]\<close>; a read past the end is \<open>undefined\<close>, which
  names no set either.\<close>

definition currentOption :: "state \<Rightarrow> furniture_key option" where
  "currentOption s =
     (if currentFurnitureIndex s < length FURNITURE_OPTIONS
      then FURNITURE_OPTIONS ! currentFurnitureIndex s else None)"

section \<open>Walls, accents, furniture\<close>

definition setWallsEnabled :: "direction \<Rightarrow> bool \<Rightarrow> state \<Rightarrow> state" where
  "setWallsEnabled dir b s =
     s\<lparr>wallMeshes := (wallMeshes s)(dir := map (\<lambda>m. m\<lparr>enabled := b\<rparr>) (wallMeshes s dir))\<rparr>"

definition hideAllWalls :: "state \<Rightarrow> state" where
  "hideAllWalls s = fold (\<lambda>dir. setWallsEnabled dir False) wall_directions s"

definition showAllWalls :: "state \<Rightarrow> state" where
  "showAllWalls s = fold (\<lambda>dir. setWallsEnabled dir True) wall_directions s"

definition updateAccentEmission :: "bool \<Rightarrow> state \<Rightarrow> state" where
  "updateAccentEmission en s =
     (let s1 = (case accentMaterial s of
                  None \<Rightarrow> s
                | Some m \<Rightarrow>
                    if en then s\<lparr>accentMaterial := Some (m\<lparr>emissiveColor := ACCENT_EMISSION_COLOR\<rparr>)\<rparr>
                    else (case originalAccentEmissive s of
                            Some c \<Rightarrow> s\<lparr>accentMaterial := Some (m\<lparr>emissiveColor := c\<rparr>)\<rparr>
                          | None \<Rightarrow> s))
      in (case accent2Material s1 of
            None \<Rightarrow> s1
          | Some m \<Rightarrow>
              if en then s1\<lparr>accent2Material := Some (m\<lparr>emissiveColor := ACCENT_2_EMISSION_COLOR\<rparr>)\<rparr>
              else (case originalAccent2Emissive s1 of
                      Some c \<Rightarrow> s1\<lparr>accent2Material := Some (m\<lparr>emissiveColor := c\<rparr>)\<rparr>
                    | None \<Rightarrow> s1)))"

definition hideAllFurniture :: "state \<Rightarrow> state" where
  "hideAllFurniture s =
     fold (\<lambda>key s'. s'\<lparr>furnitureSets := (furnitureSets s')
              (key := map (\<lambda>m. m\<lparr>enabled := False, visibility := 0\<rparr>) (furnitureSets s' key))\<rparr>)
       furniture_keys s"

definition showFurnitureMesh :: "bool \<Rightarrow> mesh \<Rightarrow> mesh" where
  "showFurnitureMesh shouldShow m =
     (let m1 = m\<lparr>enabled := shouldShow, visibility := (if shouldShow then 1 else 0)\<rparr>
      in case originalScaling m1 of
           Some v \<Rightarrow> if shouldShow then m1\<lparr>scaling := v\<rparr> else m1
         | None \<Rightarrow> m1)"

definition updateFurnitureVisibility :: "state \<Rightarrow> state" where
  "updateFurnitureVisibility s =
     (if \<not> isToggleMode s then hideAllFurniture s
      else
        (let cur = currentOption s
         in fold (\<lambda>key s'. s'\<lparr>furnitureSets := (furnitureSets s')
                    (key := map (showFurnitureMesh (Some key = cur)) (furnitureSets s' key))\<rparr>)
              furniture_keys s))"

definition cycleFurniture :: "state \<Rightarrow> state" where
  "cycleFurniture s =
     updateFurnitureVisibility
       (s\<lparr>currentFurnitureIndex := (currentFurnitureIndex s + 1) mod length FURNITURE_OPTIONS\<rparr>)"

text \<open>\<open>hideMap[quadrant] || []\<close>\<close>

definition hideMap :: "nat \<Rightarrow> direction list" where
  "hideMap quadrant =
     (if quadrant = 1 then [West, South]
      else if quadrant = 2 then [South, East]
      else if quadrant = 3 then [East, North]
      else if quadrant = 4 then [North, West]
      else [])"

definition updateMeshVisibility :: "nat \<Rightarrow> state \<Rightarrow> state" where
  "updateMeshVisibility quadrant s =
     (let toHide = hideMap quadrant
      in fold (\<lambda>dir. setWallsEnabled dir (\<not> List.member toHide dir)) wall_directions s)"

text \<open>\<open>camera.alpha\<close> is read in one branch only; with \<open>camera\<close> still \<open>null\<close> that read throws.\<close>

definition updateWallVisibilityForMode :: "state \<Rightarrow> error + state" where
  "updateWallVisibilityForMode s =
     (if isOrthoView s then Inr (hideAllWalls s)
      else if isToggleMode s then
        (case camera s of
           None \<Rightarrow> Inl TypeError
         | Some c \<Rightarrow> Inr (updateMeshVisibility (getQuadrant (alpha c)) s))
      else Inr (showAllWalls s))"

definition toggleMode :: "state \<Rightarrow> error + state" where
  "toggleMode s =
     (let s1 = s\<lparr>isToggleMode := \<not> isToggleMode s\<rparr>;
          s2 = updateAccentEmission (isToggleMode s1) s1
      in case updateWallVisibilityForMode s2 of
           Inl e \<Rightarrow> Inl e
         | Inr s3 \<Rightarrow> Inr (updateFurnitureVisibility s3))"

section \<open>Section 4: sun path and furniture fade\<close>

text \<open>The local \<open>t\<close> of \<open>updateSunPathTransition\<close>.\<close>

definition sunPathBlend :: "real \<Rightarrow> real" where
  "sunPathBlend progress =
     (let section4Start = 0.66;
          fadeSpeed = 0.1
      in if progress \<ge> section4Start
         then clamp ((progress - section4Start) / fadeSpeed) 0 1
         else 0)"

text \<open>A material's \<open>emissiveTexture\<close> points to one of the three procedural textures, or is
  \<open>null\<close> when that texture variable is.\<close>

definition textureRef :: "procedural_texture option \<Rightarrow> texture_ref \<Rightarrow> texture_ref option" where
  "textureRef tex r = (case tex of None \<Rightarrow> None | Some _ \<Rightarrow> Some r)"

definition setEmission :: "texture_ref option \<Rightarrow> color3 \<Rightarrow> material \<Rightarrow> material" where
  "setEmission tex col m =
     m\<lparr>emissiveTexture := tex, emissiveColor := col,
        emissiveIntensity := (case emissiveIntensity m of None \<Rightarrow> None | Some _ \<Rightarrow> Some 1)\<rparr>"

definition updateSunPathTransition :: "real \<Rightarrow> state \<Rightarrow> state" where
  "updateSunPathTransition progress s =
     (let t = sunPathBlend progress;
          s1 = s\<lparr>blendedTextureWhite := map_option (\<lambda>x. x\<lparr>blendFactor := t\<rparr>) (blendedTextureWhite s),
                 blendedTextureAccent := map_option (\<lambda>x. x\<lparr>blendFactor := t\<rparr>) (blendedTextureAccent s),
                 blendedTextureAccent2 := map_option (\<lambda>x. x\<lparr>blendFactor := t\<rparr>) (blendedTextureAccent2 s)\<rparr>
      in if t = 0 then
           s1\<lparr>accentMaterial := map_option
                  (setEmission None (if isToggleMode s1 then ACCENT_EMISSION_COLOR else (1, 1, 1)))
                  (accentMaterial s1),
              whiteMaterial := map_option (setEmission None (1, 1, 1)) (whiteMaterial s1),
              accent2Material := map_option
                  (setEmission None (if isToggleMode s1 then ACCENT_2_EMISSION_COLOR else (1, 1, 1)))
                  (accent2Material s1)\<rparr>
         else
           (let s2 = s1\<lparr>blendedTextureWhite :=
                          map_option (\<lambda>x. x\<lparr>coordinatesIndex := 0\<rparr>) (blendedTextureWhite s1),
                        blendedTextureAccent :=
                          map_option (\<lambda>x. x\<lparr>coordinatesIndex := 0\<rparr>) (blendedTextureAccent s1),
                        blendedTextureAccent2 :=
                          map_option (\<lambda>x. x\<lparr>coordinatesIndex := 0\<rparr>) (blendedTextureAccent2 s1)\<rparr>;
                white = textureRef (blendedTextureWhite s2) TextureWhite
            in s2\<lparr>accentMaterial := map_option
                     (setEmission
                        (if isToggleMode s2 then textureRef (blendedTextureAccent s2) TextureAccent
                         else white) (1, 1, 1))
                     (accentMaterial s2),
                  whiteMaterial := map_option (setEmission white (1, 1, 1)) (whiteMaterial s2),
                  accent2Material := map_option
                     (setEmission
                        (if isToggleMode s2 then textureRef (blendedTextureAccent2 s2) TextureAccent2
                         else white) (1, 1, 1))
                     (accent2Material s2)\<rparr>))"

definition scaleVector :: "vector3 \<Rightarrow> real \<Rightarrow> vector3" where
  "scaleVector v k = (case v of (x, y, z) \<Rightarrow> (x * k, y * k, z * k))"

text \<open>\<open>mesh.isEnabled()\<close> is read as the mesh's own flag.\<close>

definition updateFurnitureFade :: "real \<Rightarrow> state \<Rightarrow> state" where
  "updateFurnitureFade progress s =
     (if \<not> isToggleMode s then s
      else
        (let section4Start = 0.66;
             shrinkSpeed = 0.05;
             shrinkProgress = (if progress \<ge> section4Start
                               then clamp ((progress - section4Start) / shrinkSpeed) 0 1 else 0);
             minScale = 0.9;
             scale = lerp 1 minScale shrinkProgress;
             shouldShow = (shrinkProgress < 1)
         in case currentOption s of
              None \<Rightarrow> s
            | Some key \<Rightarrow>
                s\<lparr>furnitureSets := (furnitureSets s)
                    (key := map
                       (\<lambda>m. if enabled m \<or> shrinkProgress < 1
                            then m\<lparr>scaling := (case originalScaling m of
                                                  Some v \<Rightarrow> scaleVector v scale
                                                | None \<Rightarrow> (scale, scale, scale)),
                                   visibility := (if shouldShow then 1 else 0)\<rparr>
                            else m)
                       (furnitureSets s key))\<rparr>))"

section \<open>The per-frame camera update\<close>

record wrapper_geometry =
  rect_top :: real
  offsetHeight :: real

text \<open>What a frame reads from the page: the wrapper element, if there is one, and
  \<open>window.innerHeight\<close>.\<close>

record page =
  wrapper :: "wrapper_geometry option"
  innerHeight :: real

text \<open>Lines 418 to 420: the scroll progress through the wrapper.\<close>

definition scrollProgress :: "real \<Rightarrow> real \<Rightarrow> real \<Rightarrow> jsnum" where
  "scrollProgress rectTop wrapperHeight viewportHeight =
     (let scrollableDistance = wrapperHeight - viewportHeight;
          scrolledAmount = - rectTop
      in clamp_js (js_div scrolledAmount scrollableDistance) 0 1)"

text \<open>Line 424: the transition progress of a frame with a finite progress.\<close>

definition transitionProgressOf :: "real \<Rightarrow> real" where
  "transitionProgressOf progress =
     (let transitionEnd = 0.33 in clamp (progress / transitionEnd) 0 1)"

text \<open>Lines 427 to 432: the smoothed elevation and field of view, from the transition
  progress, which is NaN when the progress is.\<close>

definition smoothedBeta :: "jsnum \<Rightarrow> arc_camera \<Rightarrow> jsnum" where
  "smoothedBeta transitionProgress c =
     (let targetBeta = js_lerp (Finite BETA_TOP_DOWN) (Finite BETA_ANGLED) transitionProgress
      in js_lerp (beta c) targetBeta (Finite 0.08))"

definition smoothedFov :: "jsnum \<Rightarrow> arc_camera \<Rightarrow> jsnum" where
  "smoothedFov transitionProgress c =
     (let targetFov = js_lerp (Finite FOV_ORTHO) (Finite FOV_PERSPECTIVE) transitionProgress
      in js_lerp (fov c) targetFov (Finite 0.08))"

text \<open>The assignments to the camera of lines 434 to 488, with the azimuth \<open>newAlpha\<close> that
  lines 445 to 474 give.\<close>

definition framePose :: "jsnum \<Rightarrow> real \<Rightarrow> arc_camera \<Rightarrow> arc_camera" where
  "framePose transitionProgress newAlpha c =
     (let newBeta = smoothedBeta transitionProgress c;
          newFov = smoothedFov transitionProgress c;
          newRadius = js_quot (Finite APPARENT_SIZE_CONSTANT) (js_tan (js_quot newFov (Finite 2)))
      in c\<lparr>lowerBetaLimit := newBeta, upperBetaLimit := newBeta, beta := newBeta,
            alpha := newAlpha, fov := newFov,
            lowerRadiusLimit := newRadius, upperRadiusLimit := newRadius, radius := newRadius,
            minZ := js_max (Finite 0.1) (js_mul newRadius (Finite 0.01))\<rparr>)"

text \<open>Lines 445 to 474 for a finite transition progress: the azimuth and the transition
  target, from the transition progress, the transition progress of the frame before (which
  may be NaN), the target and the azimuth. The result is the new azimuth and the new
  target.\<close>

definition alphaStep :: "real \<Rightarrow> jsnum \<Rightarrow> real option \<Rightarrow> real \<Rightarrow> error + (real \<times> real option)" where
  "alphaStep transitionProgress lastProgress target a =
     (if transitionProgress < ORTHO_THRESHOLD then
        (case snapToNearest a STRAIGHT_ANGLES of
           None \<Rightarrow> Inl NonFinite
         | Some targetStraightAngle \<Rightarrow> Inr (lerp a targetStraightAngle 0.08, None))
      else if transitionProgress < TRANSITION_THRESHOLD then
        (let captured =
               (if js_lt lastProgress (Finite ORTHO_THRESHOLD) \<and> target = None then
                  (case snapToNearest a STRAIGHT_ANGLES of
                     None \<Rightarrow> Inl NonFinite
                   | Some currentStraight \<Rightarrow>
                       (case snapToNearest currentStraight QUADRANT_CENTERS of
                          None \<Rightarrow> Inl NonFinite
                        | Some center \<Rightarrow> Inr (Some center)))
                else Inr target)
         in case captured of
              Inl e \<Rightarrow> Inl e
            | Inr None \<Rightarrow> Inr (a, None)
            | Inr (Some t) \<Rightarrow> Inr (lerp a t 0.08, Some t))
      else Inr (a, None))"

text \<open>Lines 506 to 522: idle rotation, with the clock reading \<open>now\<close> of \<open>Date.now()\<close>.\<close>

definition idleRotation :: "real \<Rightarrow> int \<Rightarrow> state \<Rightarrow> error + state" where
  "idleRotation progress now s =
     (if progress \<ge> 0.33 then
        (let timeSinceInteraction = now - lastInteractionTime s
         in if timeSinceInteraction > IDLE_TIMEOUT then
              (case camera s of
                 None \<Rightarrow> Inl TypeError
               | Some c \<Rightarrow>
                   Inr (s\<lparr>isIdleRotating := True,
                          camera := Some (c\<lparr>alpha := alpha c + IDLE_ROTATION_SPEED\<rparr>)\<rparr>))
            else Inr (s\<lparr>isIdleRotating := False\<rparr>))
      else Inr (s\<lparr>isIdleRotating := False\<rparr>))"

text \<open>Lines 434 to 497, after the azimuth step: the camera is written, the transition
  progress is kept for the next frame, and the walls are updated when the view mode
  changes.\<close>

definition frameState :: "jsnum \<Rightarrow> real \<Rightarrow> real option \<Rightarrow> arc_camera \<Rightarrow> state \<Rightarrow> error + state" where
  "frameState transitionProgress newAlpha target c s =
     (let wasOrthoView = isOrthoView s;
          s1 = s\<lparr>camera := Some (framePose transitionProgress newAlpha c),
                 transitionTargetAlpha := target,
                 lastTransitionProgress := transitionProgress,
                 isOrthoView := js_lt transitionProgress (Finite 0.1)\<rparr>
      in if isOrthoView s1 \<noteq> wasOrthoView then updateWallVisibilityForMode s1 else Inr s1)"

text \<open>Lines 422 to 522: the frame for the camera \<open>c\<close> of the state and a finite progress.\<close>

definition cameraFrame :: "real \<Rightarrow> int \<Rightarrow> arc_camera \<Rightarrow> state \<Rightarrow> error + state" where
  "cameraFrame progress now c s =
     (let transitionProgress = transitionProgressOf progress
      in case alphaStep transitionProgress (lastTransitionProgress s)
                (transitionTargetAlpha s) (alpha c) of
           Inl e \<Rightarrow> Inl e
         | Inr (newAlpha, target) \<Rightarrow>
             (case frameState (Finite transitionProgress) newAlpha target c s of
                Inl e \<Rightarrow> Inl e
              | Inr s2 \<Rightarrow>
                  idleRotation progress now
                    (updateFurnitureFade progress (updateSunPathTransition progress s2))))"

text \<open>Lines 422 to 522 for the progress NaN. The transition progress is NaN, and so are
  the smoothed values and the radius. Both tests of lines 445 and 454 fail, so the azimuth
  stays and the target is cleared. The section-4 steps and the idle test read the progress
  in \<open>progress >= 0.66\<close> and \<open>progress >= 0.33\<close> only, which fail for NaN as they do for
  the progress 0: they do here what they do for 0.\<close>

definition cameraFrameNaN :: "int \<Rightarrow> arc_camera \<Rightarrow> state \<Rightarrow> error + state" where
  "cameraFrameNaN now c s =
     (case frameState NaN (alpha c) None c s of
        Inl e \<Rightarrow> Inl e
      | Inr s2 \<Rightarrow> idleRotation 0 now (updateFurnitureFade 0 (updateSunPathTransition 0 s2)))"

text \<open>\<open>updateCameraFromScroll\<close>: the two early returns, the progress, the frame. The
  clamped progress is a number from 0 to 1 or NaN.\<close>

definition updateCameraFromScroll :: "page \<Rightarrow> int \<Rightarrow> state \<Rightarrow> error + state" where
  "updateCameraFromScroll pg now s =
     (case camera s of
        None \<Rightarrow> Inr s
      | Some c \<Rightarrow>
          (case wrapper pg of
             None \<Rightarrow> Inr s
           | Some w \<Rightarrow>
               (case scrollProgress (rect_top w) (offsetHeight w) (innerHeight pg) of
                  Finite progress \<Rightarrow> cameraFrame progress now c s
                | NaN \<Rightarrow> cameraFrameNaN now c s
                | _ \<Rightarrow> Inl NonFinite)))"

section \<open>Scene creation, loading and events\<close>

definition initialRadius :: real where
  "initialRadius = APPARENT_SIZE_CONSTANT / tan (FOV_ORTHO / 2)"

text \<open>The camera as \<open>createScene\<close> makes it: at 90 degrees, top-down, with the field of
  view of the orthographic look and the radius of that field of view, both locked.\<close>

definition initialCamera :: arc_camera where
  "initialCamera =
     \<lparr>alpha = pi / 2, beta = Finite BETA_TOP_DOWN, radius = Finite initialRadius,
      fov = Finite FOV_ORTHO, minZ = Finite 0.1,
      lowerBetaLimit = Finite BETA_TOP_DOWN, upperBetaLimit = Finite BETA_TOP_DOWN,
      lowerRadiusLimit = Finite initialRadius, upperRadiusLimit = Finite initialRadius\<rparr>"

text \<open>\<open>createScene\<close> up to its first \<open>await\<close>: the three procedural textures, the camera, and
  the quadrant the input observer starts from.\<close>

definition createScene :: "state \<Rightarrow> state" where
  "createScene s =
     s\<lparr>blendedTextureWhite := Some \<lparr>blendFactor = 0, coordinatesIndex = 0\<rparr>,
       blendedTextureAccent := Some \<lparr>blendFactor = 0, coordinatesIndex = 0\<rparr>,
       blendedTextureAccent2 := Some \<lparr>blendFactor = 0, coordinatesIndex = 0\<rparr>,
       camera := Some initialCamera,
       lastQuadrant := Some (getQuadrant (alpha initialCamera))\<rparr>"

text \<open>The model has loaded: its wall meshes, already sorted by direction, and the first
  material found under each of the three names; then all walls are hidden.\<close>

definition modelLoaded ::
  "(direction \<Rightarrow> mesh list) \<Rightarrow> material option \<Rightarrow> material option \<Rightarrow> material option
     \<Rightarrow> state \<Rightarrow> state" where
  "modelLoaded walls accent accent2 white s =
     hideAllWalls
       (s\<lparr>wallMeshes := (\<lambda>d. wallMeshes s d @ walls d),
          accentMaterial := (case accentMaterial s of None \<Rightarrow> accent | Some m \<Rightarrow> Some m),
          originalAccentEmissive :=
            (case accentMaterial s of
               None \<Rightarrow> map_option emissiveColor accent
             | Some _ \<Rightarrow> originalAccentEmissive s),
          accent2Material := (case accent2Material s of None \<Rightarrow> accent2 | Some m \<Rightarrow> Some m),
          originalAccent2Emissive :=
            (case accent2Material s of
               None \<Rightarrow> map_option emissiveColor accent2
             | Some _ \<Rightarrow> originalAccent2Emissive s),
          whiteMaterial := (case whiteMaterial s of None \<Rightarrow> white | Some m \<Rightarrow> Some m)\<rparr>)"

text \<open>One furniture file has loaded: its meshes are stored hidden, with their scaling kept.\<close>

definition furnitureLoaded :: "furniture_key \<Rightarrow> mesh list \<Rightarrow> state \<Rightarrow> state" where
  "furnitureLoaded key meshes s =
     s\<lparr>furnitureSets := (furnitureSets s)
         (key := furnitureSets s key @
            map (\<lambda>m. m\<lparr>originalScaling := (case originalScaling m of
                                              None \<Rightarrow> Some (scaling m)
                                            | Some v \<Rightarrow> Some v),
                        enabled := False, visibility := 0\<rparr>) meshes)\<rparr>"

definition resetIdleTimer :: "int \<Rightarrow> state \<Rightarrow> state" where
  "resetIdleTimer now s = s\<lparr>lastInteractionTime := now\<rparr>"

text \<open>The camera's controls turn the camera.\<close>

definition userRotate :: "real \<Rightarrow> state \<Rightarrow> state" where
  "userRotate a s = s\<lparr>camera := map_option (\<lambda>c. c\<lparr>alpha := a\<rparr>) (camera s)\<rparr>"

text \<open>The observer added to \<open>camera.onAfterCheckInputsObservable\<close>.\<close>

definition onAfterCheckInputs :: "state \<Rightarrow> state" where
  "onAfterCheckInputs s =
     (case camera s of
        None \<Rightarrow> s
      | Some c \<Rightarrow>
          (let q = getQuadrant (alpha c)
           in if Some q \<noteq> lastQuadrant s then
                (let s1 = s\<lparr>lastQuadrant := Some q\<rparr>
                 in if isToggleMode s1 \<and> \<not> isOrthoView s1 then updateMeshVisibility q s1 else s1)
              else s))"

text \<open>
  The states the program reaches: from the initial variables, by scene creation, the loads,
  frames, picks, the furniture button, interaction events, and camera input. A frame always
  ends in a state (\<open>updateCameraFromScroll_total\<close> below), a frame with the progress NaN
  included; a pick that ends in an error is not a step.
\<close>

inductive reachable :: "state \<Rightarrow> bool" where
  start: "reachable (initialState loadTime)"
| scene: "reachable s \<Longrightarrow> camera s = None \<Longrightarrow> reachable (createScene s)"
| model: "reachable s \<Longrightarrow> camera s \<noteq> None \<Longrightarrow> reachable (modelLoaded walls accent accent2 white s)"
| furniture: "reachable s \<Longrightarrow> camera s \<noteq> None \<Longrightarrow> reachable (furnitureLoaded key meshes s)"
| frame: "reachable s \<Longrightarrow> updateCameraFromScroll pg now s = Inr s' \<Longrightarrow> reachable s'"
| pick: "reachable s \<Longrightarrow> toggleMode s = Inr s' \<Longrightarrow> reachable s'"
| cycle: "reachable s \<Longrightarrow> reachable (cycleFurniture s)"
| interaction: "reachable s \<Longrightarrow> reachable (resetIdleTimer now s)"
| rotate: "reachable s \<Longrightarrow> reachable (userRotate a s)"
| inputs: "reachable s \<Longrightarrow> reachable (onAfterCheckInputs s)"

text \<open>Sequences of the two furniture-related user actions.\<close>

datatype user_action = CycleFurniture | ToggleMode

fun runActions :: "user_action list \<Rightarrow> state \<Rightarrow> error + state" where
  "runActions [] s = Inr s"
| "runActions (CycleFurniture # rest) s = runActions rest (cycleFurniture s)"
| "runActions (ToggleMode # rest) s =
     (case toggleMode s of Inl e \<Rightarrow> Inl e | Inr s' \<Rightarrow> runActions rest s')"

text \<open>A furniture set counts as enabled when one of its meshes is.\<close>

definition furnitureSetEnabled :: "state \<Rightarrow> furniture_key \<Rightarrow> bool" where
  "furnitureSetEnabled s key = (\<exists>m \<in> set (furnitureSets s key). enabled m)"

text \<open>The number of furniture-button presses in a sequence of actions.\<close>

fun cycles :: "user_action list \<Rightarrow> nat" where
  "cycles [] = 0"
| "cycles (CycleFurniture # rest) = Suc (cycles rest)"
| "cycles (ToggleMode # rest) = cycles rest"

text \<open>The condition of lines 507 to 510 under which a frame turns the camera.\<close>

definition idleNow :: "real \<Rightarrow> int \<Rightarrow> state \<Rightarrow> bool" where
  "idleNow progress now s = (progress \<ge> 0.33 \<and> now - lastInteractionTime s > IDLE_TIMEOUT)"

text \<open>A scene for examples: the model and the three furniture files have loaded, each
  wall direction and each furniture set with one mesh.\<close>

definition sampleMesh :: mesh where
  "sampleMesh = \<lparr>enabled = True, visibility = 1, scaling = (1, 1, 1), originalScaling = None\<rparr>"

definition loadedScene :: state where
  "loadedScene =
     furnitureLoaded Furniture3 [sampleMesh]
       (furnitureLoaded Furniture2 [sampleMesh]
          (furnitureLoaded Furniture1 [sampleMesh]
             (modelLoaded (\<lambda>_. [sampleMesh]) None None None (createScene (initialState 0)))))"

text \<open>A page for examples: a wrapper twice as high as the viewport, scrolled by the
  fraction \<open>p\<close> of the scrollable distance.\<close>

definition pageAt :: "real \<Rightarrow> page" where
  "pageAt p = \<lparr>wrapper = Some \<lparr>rect_top = - (1000 * p), offsetHeight = 2000\<rparr>, innerHeight = 1000\<rparr>"

text \<open>The furniture invariant: a furniture mesh is enabled exactly when toggle mode is on
  and its set is the selected one.\<close>

definition furnitureInv :: "state \<Rightarrow> bool" where
  "furnitureInv s =
     (\<forall>k. \<forall>m\<in>set (furnitureSets s k). enabled m = (isToggleMode s \<and> currentOption s = Some k))"

text \<open>A page whose wrapper is exactly as high as the viewport, not scrolled: the scrolled
  amount and the scrollable distance are both 0.\<close>

definition flatPage :: page where
  "flatPage = \<lparr>wrapper = Some \<lparr>rect_top = 0, offsetHeight = 600\<rparr>, innerHeight = 600\<rparr>"

text \<open>The product \<open>radius * tan (fov / 2)\<close> of a camera, as the program's numbers give it.\<close>

definition apparentSize :: "arc_camera \<Rightarrow> jsnum" where
  "apparentSize c = js_mul (radius c) (js_tan (js_quot (fov c) (Finite 2)))"

text \<open>The azimuth after a step: none when the step failed or there is no camera.\<close>

definition azimuthOf :: "error + state \<Rightarrow> real option" where
  "azimuthOf r = (case r of Inl _ \<Rightarrow> None | Inr s \<Rightarrow> map_option alpha (camera s))"

section \<open>The sun path title\<close>

definition digitChar :: "nat \<Rightarrow> char" where
  "digitChar d = ''0123456789'' ! d"

text \<open>A number in a template literal: the decimal digits of an integer, with a sign.\<close>

fun decimalDigits :: "nat \<Rightarrow> string" where
  "decimalDigits n =
     (if 10 \<le> n then decimalDigits (n div 10) @ [digitChar (n mod 10)] else [digitChar n])"

declare decimalDigits.simps [simp del]

definition numberToString :: "int \<Rightarrow> string" where
  "numberToString i =
     (if 0 \<le> i then decimalDigits (nat i) else CHR ''-'' # decimalDigits (nat (- i)))"

text \<open>\<open>updateSunPathTitle\<close>: the argument \<open>title\<close> is the text of the element
  \<open>sunPathTitle\<close>, \<open>None\<close> when the page has no such element; the result is its text after the
  call.\<close>

definition updateSunPathTitle :: "string option \<Rightarrow> int \<Rightarrow> string option" where
  "updateSunPathTitle title sliderValue =
     (case title of
        None \<Rightarrow> None
      | Some _ \<Rightarrow>
          (let startHour = 6;
               totalHours = 15;
               hourIncrement = totalHours / 39;
               hour = startHour + (of_int sliderValue - 1) * hourIncrement;
               h = js_round hour;
               ampm = (if h \<ge> 12 then ''PM'' else ''AM'');
               h12 = (if h > 12 then h - 12 else if h = 0 then 12 else h)
           in Some (''Sun path - '' @ numberToString h12 @ ampm)))"

section \<open>The specification's formulas\<close>

text \<open>The circular distance of the specification, \<open>min(|d|, 2\<pi> - |d|)\<close>.\<close>

definition circularDistance :: "real \<Rightarrow> real \<Rightarrow> real" where
  "circularDistance x c = min \<bar>x - c\<bar> (2 * pi - \<bar>x - c\<bar>)"

text \<open>The sun-blend factor as the specification describes it: 0 below 0.66, then a linear
  ramp to 1 over a span of 0.05.\<close>

definition spec_sunBlend :: "real \<Rightarrow> real" where
  "spec_sunBlend p = (if p < 0.66 then 0 else min 1 ((p - 0.66) / 0.05))"

text \<open>The wall table of the specification.\<close>

fun spec_hidden :: "nat \<Rightarrow> direction set" where
  "spec_hidden q =
     (if q = 1 then {West, South} else if q = 2 then {South, East}
      else if q = 3 then {East, North} else if q = 4 then {North, West} else {})"

definition spec_wallVisible :: "bool \<Rightarrow> bool \<Rightarrow> nat \<Rightarrow> direction \<Rightarrow> bool" where
  "spec_wallVisible ortho toggle q d =
     (if ortho then False else if toggle then d \<notin> spec_hidden q else True)"

text \<open>The label of the specification for an hour count \<open>index\<close>: the hour
  \<open>6 + index * (15 / 39)\<close>, rounded to the nearest whole hour, on a 12-hour clock.\<close>

definition spec_hour :: "int \<Rightarrow> real" where
  "spec_hour index = 6 + of_int index * (15 / 39)"

definition twelveHour :: "int \<Rightarrow> string" where
  "twelveHour h =
     numberToString (if h mod 12 = 0 then 12 else h mod 12) @ (if h mod 24 < 12 then ''AM'' else ''PM'')"

definition spec_label :: "int \<Rightarrow> string" where
  "spec_label index = ''Sun path - '' @ twelveHour (js_round (spec_hour index))"

section \<open>Snapping to the nearest angle\<close>

lemma angularDiff_circular: "angularDiff n c = circularDistance n c"
  by (simp add: angularDiff_def circularDistance_def Let_def min_def)

lemma js_rem_small: "0 \<le> x \<Longrightarrow> x < y \<Longrightarrow> js_rem x y = x"
proof -
  assume a: "0 \<le> x" "x < y"
  then have q: "0 \<le> x / y" "x / y < 1" by simp_all
  then have "\<lfloor>x / y\<rfloor> = 0" by (simp add: floor_eq_iff)
  with q(1) show ?thesis by (simp add: js_rem_def js_trunc_def)
qed

lemma normalizeAlpha_id: "0 \<le> x \<Longrightarrow> x < 2 * pi \<Longrightarrow> normalizeAlpha x = x"
  by (simp add: normalizeAlpha_def js_rem_small)

text \<open>The loop, started with a finite \<open>minDiff\<close>: either no candidate beats \<open>m\<close> and the
  start value \<open>b\<close> stays, or the result is the first candidate of least difference.\<close>

lemma snapLoop_acc:
  "(snapLoop n xs (Some m) (Some b) = Some b \<and> (\<forall>j<length xs. m \<le> angularDiff n (xs ! j)))
   \<or> (\<exists>i<length xs. snapLoop n xs (Some m) (Some b) = Some (xs ! i)
          \<and> angularDiff n (xs ! i) < m
          \<and> (\<forall>j<length xs. angularDiff n (xs ! i) \<le> angularDiff n (xs ! j))
          \<and> (\<forall>j<i. angularDiff n (xs ! i) < angularDiff n (xs ! j)))"
proof (induction xs arbitrary: m b)
  case Nil
  show ?case by simp
next
  case (Cons x xs)
  let ?d = "angularDiff n x"
  show ?case
  proof (cases "?d < m")
    case True
    have step: "snapLoop n (x # xs) (Some m) (Some b) = snapLoop n xs (Some ?d) (Some x)"
      using True by (simp add: lt_minDiff_def)
    from Cons.IH [of ?d x] show ?thesis
    proof
      assume h: "snapLoop n xs (Some ?d) (Some x) = Some x
                   \<and> (\<forall>j<length xs. ?d \<le> angularDiff n (xs ! j))"
      have "\<forall>j<length (x # xs). ?d \<le> angularDiff n ((x # xs) ! j)"
        using h by (auto simp: nth_Cons split: nat.splits)
      then have "snapLoop n (x # xs) (Some m) (Some b) = Some ((x # xs) ! 0)
          \<and> angularDiff n ((x # xs) ! 0) < m
          \<and> (\<forall>j<length (x # xs). angularDiff n ((x # xs) ! 0) \<le> angularDiff n ((x # xs) ! j))
          \<and> (\<forall>j<0. angularDiff n ((x # xs) ! 0) < angularDiff n ((x # xs) ! j))"
        using h step True by simp
      then show ?thesis by blast
    next
      assume "\<exists>i<length xs. snapLoop n xs (Some ?d) (Some x) = Some (xs ! i)
          \<and> angularDiff n (xs ! i) < ?d
          \<and> (\<forall>j<length xs. angularDiff n (xs ! i) \<le> angularDiff n (xs ! j))
          \<and> (\<forall>j<i. angularDiff n (xs ! i) < angularDiff n (xs ! j))"
      then obtain i where i: "i < length xs"
          "snapLoop n xs (Some ?d) (Some x) = Some (xs ! i)"
          "angularDiff n (xs ! i) < ?d"
          "\<forall>j<length xs. angularDiff n (xs ! i) \<le> angularDiff n (xs ! j)"
          "\<forall>j<i. angularDiff n (xs ! i) < angularDiff n (xs ! j)" by blast
      have "Suc i < length (x # xs)" using i(1) by simp
      moreover have "snapLoop n (x # xs) (Some m) (Some b) = Some ((x # xs) ! Suc i)"
        using step i(2) by simp
      moreover have "angularDiff n ((x # xs) ! Suc i) < m" using i(3) True by simp
      moreover have "\<forall>j<length (x # xs).
          angularDiff n ((x # xs) ! Suc i) \<le> angularDiff n ((x # xs) ! j)"
        using i(3,4) by (auto simp: nth_Cons split: nat.splits)
      moreover have "\<forall>j<Suc i. angularDiff n ((x # xs) ! Suc i) < angularDiff n ((x # xs) ! j)"
        using i(3,5) by (auto simp: nth_Cons split: nat.splits)
      ultimately show ?thesis by blast
    qed
  next
    case False
    have step: "snapLoop n (x # xs) (Some m) (Some b) = snapLoop n xs (Some m) (Some b)"
      using False by (simp add: lt_minDiff_def)
    from Cons.IH [of m b] show ?thesis
    proof
      assume h: "snapLoop n xs (Some m) (Some b) = Some b
                   \<and> (\<forall>j<length xs. m \<le> angularDiff n (xs ! j))"
      have "\<forall>j<length (x # xs). m \<le> angularDiff n ((x # xs) ! j)"
        using h False by (auto simp: nth_Cons split: nat.splits)
      then show ?thesis using h step by simp
    next
      assume "\<exists>i<length xs. snapLoop n xs (Some m) (Some b) = Some (xs ! i)
          \<and> angularDiff n (xs ! i) < m
          \<and> (\<forall>j<length xs. angularDiff n (xs ! i) \<le> angularDiff n (xs ! j))
          \<and> (\<forall>j<i. angularDiff n (xs ! i) < angularDiff n (xs ! j))"
      then obtain i where i: "i < length xs"
          "snapLoop n xs (Some m) (Some b) = Some (xs ! i)"
          "angularDiff n (xs ! i) < m"
          "\<forall>j<length xs. angularDiff n (xs ! i) \<le> angularDiff n (xs ! j)"
          "\<forall>j<i. angularDiff n (xs ! i) < angularDiff n (xs ! j)" by blast
      have "Suc i < length (x # xs)" using i(1) by simp
      moreover have "snapLoop n (x # xs) (Some m) (Some b) = Some ((x # xs) ! Suc i)"
        using step i(2) by simp
      moreover have "angularDiff n ((x # xs) ! Suc i) < m" using i(3) by simp
      moreover have "\<forall>j<length (x # xs).
          angularDiff n ((x # xs) ! Suc i) \<le> angularDiff n ((x # xs) ! j)"
        using i(3,4) False by (auto simp: nth_Cons split: nat.splits)
      moreover have "\<forall>j<Suc i. angularDiff n ((x # xs) ! Suc i) < angularDiff n ((x # xs) ! j)"
        using i(3,5) False by (auto simp: nth_Cons split: nat.splits)
      ultimately show ?thesis by blast
    qed
  qed
qed

lemma snapToNearest_first_min:
  assumes "xs \<noteq> []"
  shows "\<exists>i<length xs. snapToNearest a xs = Some (xs ! i)
          \<and> (\<forall>j<length xs. angularDiff (normalizeAlpha a) (xs ! i)
                              \<le> angularDiff (normalizeAlpha a) (xs ! j))
          \<and> (\<forall>j<i. angularDiff (normalizeAlpha a) (xs ! i)
                       < angularDiff (normalizeAlpha a) (xs ! j))"
proof -
  obtain x rest where xs: "xs = x # rest" using assms by (cases xs) auto
  let ?n = "normalizeAlpha a"
  let ?d = "angularDiff ?n x"
  have start: "snapToNearest a xs = snapLoop ?n rest (Some ?d) (Some x)"
    by (simp add: snapToNearest_def xs lt_minDiff_def)
  from snapLoop_acc [of ?n rest ?d x] show ?thesis
  proof
    assume h: "snapLoop ?n rest (Some ?d) (Some x) = Some x
                 \<and> (\<forall>j<length rest. ?d \<le> angularDiff ?n (rest ! j))"
    have "\<forall>j<length xs. angularDiff ?n (xs ! 0) \<le> angularDiff ?n (xs ! j)"
      using h by (auto simp: xs nth_Cons split: nat.splits)
    moreover have "snapToNearest a xs = Some (xs ! 0)" using h start by (simp add: xs)
    moreover have "0 < length xs" by (simp add: xs)
    ultimately show ?thesis by blast
  next
    assume "\<exists>i<length rest. snapLoop ?n rest (Some ?d) (Some x) = Some (rest ! i)
          \<and> angularDiff ?n (rest ! i) < ?d
          \<and> (\<forall>j<length rest. angularDiff ?n (rest ! i) \<le> angularDiff ?n (rest ! j))
          \<and> (\<forall>j<i. angularDiff ?n (rest ! i) < angularDiff ?n (rest ! j))"
    then obtain i where i: "i < length rest"
          "snapLoop ?n rest (Some ?d) (Some x) = Some (rest ! i)"
          "angularDiff ?n (rest ! i) < ?d"
          "\<forall>j<length rest. angularDiff ?n (rest ! i) \<le> angularDiff ?n (rest ! j)"
          "\<forall>j<i. angularDiff ?n (rest ! i) < angularDiff ?n (rest ! j)" by blast
    have "Suc i < length xs" using i(1) by (simp add: xs)
    moreover have "snapToNearest a xs = Some (xs ! Suc i)" using start i(2) by (simp add: xs)
    moreover have "\<forall>j<length xs. angularDiff ?n (xs ! Suc i) \<le> angularDiff ?n (xs ! j)"
      using i(3,4) by (auto simp: xs nth_Cons split: nat.splits)
    moreover have "\<forall>j<Suc i. angularDiff ?n (xs ! Suc i) < angularDiff ?n (xs ! j)"
      using i(3,5) by (auto simp: xs nth_Cons split: nat.splits)
    ultimately show ?thesis by blast
  qed
qed

lemma circularDistance_zero_iff:
  assumes "0 \<le> x" "x < 2 * pi" "0 \<le> c" "c < 2 * pi"
  shows "0 \<le> circularDistance x c" and "circularDistance x c = 0 \<longleftrightarrow> c = x"
proof -
  have b: "\<bar>x - c\<bar> < 2 * pi" using assms by (simp add: abs_if)
  then show "0 \<le> circularDistance x c" by (simp add: circularDistance_def)
  from b show "circularDistance x c = 0 \<longleftrightarrow> c = x"
    by (auto simp: circularDistance_def min_def)
qed

lemma snapToNearest_exact:
  assumes r: "\<forall>c\<in>set xs. 0 \<le> c \<and> c < 2 * pi" and mem: "a \<in> set xs"
  shows "snapToNearest a xs = Some a"
proof -
  have a: "0 \<le> a" "a < 2 * pi" using r mem by auto
  have n: "normalizeAlpha a = a" using a by (rule normalizeAlpha_id)
  have ne: "xs \<noteq> []" using mem by auto
  obtain k where k: "k < length xs" "xs ! k = a" using mem by (auto simp: in_set_conv_nth)
  from snapToNearest_first_min [OF ne, of a] obtain i where i: "i < length xs"
      "snapToNearest a xs = Some (xs ! i)"
      "\<forall>j<length xs. angularDiff a (xs ! i) \<le> angularDiff a (xs ! j)"
    unfolding n by blast
  have ci: "0 \<le> xs ! i" "xs ! i < 2 * pi" using r i(1) by auto
  have "angularDiff a (xs ! i) \<le> angularDiff a a" using i(3) k by auto
  also have "angularDiff a a = 0" by (simp add: angularDiff_def)
  finally have "circularDistance a (xs ! i) \<le> 0" by (simp add: angularDiff_circular)
  with circularDistance_zero_iff(1) [OF a ci] have "circularDistance a (xs ! i) = 0" by simp
  with circularDistance_zero_iff(2) [OF a ci] have "xs ! i = a" by simp
  with i(2) show ?thesis by simp
qed

text \<open>
  Claim C8, as amended. For every angle and every non-empty candidate list,
  \<open>snapToNearest\<close> returns a member of the list; that member has the least circular distance
  \<open>min(|d|, 2\<pi> - |d|)\<close> to the normalised angle, and it is the first candidate of that
  distance. When every candidate lies in \<open>[0, 2\<pi>)\<close> and the angle is itself a candidate,
  that candidate is returned.
\<close>

theorem snapToNearest_first_nearest:
  "(candidates \<noteq> [] \<longrightarrow>
      (\<exists>i<length candidates.
          snapToNearest angle candidates = Some (candidates ! i)
        \<and> candidates ! i \<in> set candidates
        \<and> (\<forall>j<length candidates.
              circularDistance (normalizeAlpha angle) (candidates ! i)
                \<le> circularDistance (normalizeAlpha angle) (candidates ! j))
        \<and> (\<forall>j<i. circularDistance (normalizeAlpha angle) (candidates ! i)
                     < circularDistance (normalizeAlpha angle) (candidates ! j))))
   \<and> ((\<forall>c\<in>set candidates. 0 \<le> c \<and> c < 2 * pi) \<and> angle \<in> set candidates \<longrightarrow>
        snapToNearest angle candidates = Some angle)"
proof (intro conjI impI)
  assume ne: "candidates \<noteq> []"
  from snapToNearest_first_min [OF ne, of angle] obtain i where i: "i < length candidates"
      "snapToNearest angle candidates = Some (candidates ! i)"
      "\<forall>j<length candidates. angularDiff (normalizeAlpha angle) (candidates ! i)
                              \<le> angularDiff (normalizeAlpha angle) (candidates ! j)"
      "\<forall>j<i. angularDiff (normalizeAlpha angle) (candidates ! i)
                       < angularDiff (normalizeAlpha angle) (candidates ! j)"
    by blast
  have "candidates ! i \<in> set candidates" using i(1) by simp
  with i show "\<exists>i<length candidates.
          snapToNearest angle candidates = Some (candidates ! i)
        \<and> candidates ! i \<in> set candidates
        \<and> (\<forall>j<length candidates.
              circularDistance (normalizeAlpha angle) (candidates ! i)
                \<le> circularDistance (normalizeAlpha angle) (candidates ! j))
        \<and> (\<forall>j<i. circularDistance (normalizeAlpha angle) (candidates ! i)
                     < circularDistance (normalizeAlpha angle) (candidates ! j))"
    unfolding angularDiff_circular by blast
next
  assume "(\<forall>c\<in>set candidates. 0 \<le> c \<and> c < 2 * pi) \<and> angle \<in> set candidates"
  then show "snapToNearest angle candidates = Some angle"
    using snapToNearest_exact by blast
qed

theorem snapToNearest_first_nearest_witness:
  "[0, pi / 2, pi, 3 * pi / 2] \<noteq> [] \<and> pi / 2 \<in> set [0, pi / 2, pi, 3 * pi / 2]
   \<and> snapToNearest (pi / 2) [0, pi / 2, pi, 3 * pi / 2] = Some (pi / 2)"
  using snapToNearest_first_nearest [of "[0, pi / 2, pi, 3 * pi / 2]" "pi / 2"]
  by simp

text \<open>The claim as stated, for every candidate list, fails: the angle 0 is a candidate of
  the list \<open>[0, 100]\<close>, and 100 is returned, its difference \<open>2\<pi> - 100\<close> being negative.\<close>

theorem snapToNearest_exact_counterexample:
  "snapToNearest 0 [0, 100] = Some 100 \<and> snapToNearest 0 [0, 100] \<noteq> Some 0"
  using pi_less_4
  by (simp add: snapToNearest_def normalizeAlpha_def js_rem_def js_trunc_def
      angularDiff_def lt_minDiff_def)

section \<open>The sun-blend factor\<close>

lemma sunPathBlend_cases:
  "sunPathBlend p = (if p < 0.66 then 0 else if p < 0.76 then (p - 0.66) / 0.1 else 1)"
  by (simp add: sunPathBlend_def clamp_def Let_def min_def max_def)

lemma blendFactor_white:
  "map_option blendFactor (blendedTextureWhite (updateSunPathTransition p s))
     = map_option (\<lambda>_. sunPathBlend p) (blendedTextureWhite s)"
  by (simp add: updateSunPathTransition_def Let_def option.map_comp comp_def)

lemma blendFactor_accent:
  "map_option blendFactor (blendedTextureAccent (updateSunPathTransition p s))
     = map_option (\<lambda>_. sunPathBlend p) (blendedTextureAccent s)"
  by (simp add: updateSunPathTransition_def Let_def option.map_comp comp_def)

lemma blendFactor_accent2:
  "map_option blendFactor (blendedTextureAccent2 (updateSunPathTransition p s))
     = map_option (\<lambda>_. sunPathBlend p) (blendedTextureAccent2 s)"
  by (simp add: updateSunPathTransition_def Let_def option.map_comp comp_def)

text \<open>
  Claim C2, as amended. For every scroll progress \<open>p\<close>, the blend factor that
  \<open>updateSunPathTransition\<close> sets on each of the three blended procedural textures (where the
  texture exists) is 0 below the start threshold 0.66, then ramps linearly to 1 over a span
  of 0.1, and is 1 from 0.76 on. Progress 0.60 gives 0, progress 0.68 gives 0.2, progress 1
  gives 1.
\<close>

theorem sunBlend_ramp:
  "sunPathBlend p = (if p < 0.66 then 0 else if p < 0.76 then (p - 0.66) / 0.1 else 1)
   \<and> map_option blendFactor (blendedTextureWhite (updateSunPathTransition p s))
        = map_option (\<lambda>_. sunPathBlend p) (blendedTextureWhite s)
   \<and> map_option blendFactor (blendedTextureAccent (updateSunPathTransition p s))
        = map_option (\<lambda>_. sunPathBlend p) (blendedTextureAccent s)
   \<and> map_option blendFactor (blendedTextureAccent2 (updateSunPathTransition p s))
        = map_option (\<lambda>_. sunPathBlend p) (blendedTextureAccent2 s)
   \<and> sunPathBlend 0.60 = 0 \<and> sunPathBlend 0.68 = 0.2 \<and> sunPathBlend 1 = 1"
  using sunPathBlend_cases [of p] blendFactor_white [of p s] blendFactor_accent [of p s]
    blendFactor_accent2 [of p s]
  by (simp add: sunPathBlend_cases)

theorem sunBlend_ramp_witness:
  "map_option blendFactor
     (blendedTextureAccent (updateSunPathTransition 0.70 (createScene (initialState 0))))
     = Some 0.4"
proof -
  from sunBlend_ramp [of "0.70" "createScene (initialState 0)"]
  have "map_option blendFactor
          (blendedTextureAccent (updateSunPathTransition 0.70 (createScene (initialState 0))))
        = map_option (\<lambda>_. sunPathBlend 0.70) (blendedTextureAccent (createScene (initialState 0)))"
    by (rule conjunct1 [OF conjunct2 [OF conjunct2]])
  then show ?thesis by (simp add: createScene_def sunPathBlend_cases)
qed

text \<open>The claim as stated gives the factor 0.4 at progress 0.68 (a span of 0.05); the
  textures created by \<open>createScene\<close> get 0.2 there.\<close>

theorem sunBlend_ramp_counterexample:
  "map_option blendFactor
     (blendedTextureWhite (updateSunPathTransition 0.68 (createScene (initialState 0))))
     = Some 0.2
   \<and> sunPathBlend 0.68 \<noteq> 0.4
   \<and> spec_sunBlend 0.68 = 0.4"
  by (simp add: blendFactor_white createScene_def sunPathBlend_cases spec_sunBlend_def)

section \<open>The scroll progress\<close>

lemma scrollProgress_nonzero:
  "wh \<noteq> vh \<Longrightarrow> scrollProgress rt wh vh = Finite (clamp (- rt / (wh - vh)) 0 1)"
  by (simp add: scrollProgress_def js_div_def clamp_js_def clamp_def Let_def)

lemma scrollProgress_zero_distance:
  "rt < 0 \<Longrightarrow> scrollProgress rt h h = Finite 1"
  "0 < rt \<Longrightarrow> scrollProgress rt h h = Finite 0"
  by (simp_all add: scrollProgress_def js_div_def clamp_js_def Let_def)

lemma scrollProgress_negative_distance:
  assumes "wh < vh"
  shows "rt \<le> 0 \<Longrightarrow> scrollProgress rt wh vh = Finite 0"
    and "0 < rt \<Longrightarrow> \<exists>q. scrollProgress rt wh vh = Finite q \<and> 0 < q \<and> q \<le> 1"
proof -
  have ne: "wh \<noteq> vh" and d: "wh - vh < 0" using assms by simp_all
  {
    assume "rt \<le> 0"
    then have "0 \<le> - rt" by simp
    then have "- rt / (wh - vh) \<le> 0" using d by (rule divide_nonneg_neg)
    then have "clamp (- rt / (wh - vh)) 0 1 = 0" by (simp add: clamp_def)
    then show "scrollProgress rt wh vh = Finite 0" by (simp add: scrollProgress_nonzero [OF ne])
  }
  {
    assume "0 < rt"
    then have "- rt < 0" by simp
    then have "0 < - rt / (wh - vh)" using d by (rule divide_neg_neg)
    then have "0 < clamp (- rt / (wh - vh)) 0 1 \<and> clamp (- rt / (wh - vh)) 0 1 \<le> 1"
      by (simp add: clamp_def)
    then show "\<exists>q. scrollProgress rt wh vh = Finite q \<and> 0 < q \<and> q \<le> 1"
      by (simp add: scrollProgress_nonzero [OF ne])
  }
qed

text \<open>
  Claim C3, as amended. The division by the scrollable distance (wrapper height minus
  viewport height) is not guarded: the progress is the quotient of the scrolled amount
  \<open>- rect.top\<close> by the scrollable distance, clamped to \<open>[0, 1]\<close>. With a scrollable distance
  below 0 the progress is 0 when the scrolled amount is at least 0 and lies in \<open>(0, 1]\<close>
  when the scrolled amount is below 0. With a scrollable distance of 0 the infinite quotient
  of a positive scrolled amount clamps to 1 and that of a negative one to 0.
\<close>

theorem scrollProgress_unguarded:
  "(wrapperHeight \<noteq> viewportHeight \<longrightarrow>
      scrollProgress rectTop wrapperHeight viewportHeight
        = Finite (clamp (- rectTop / (wrapperHeight - viewportHeight)) 0 1))
   \<and> (wrapperHeight < viewportHeight \<and> rectTop \<le> 0 \<longrightarrow>
        scrollProgress rectTop wrapperHeight viewportHeight = Finite 0)
   \<and> (wrapperHeight < viewportHeight \<and> 0 < rectTop \<longrightarrow>
        (\<exists>q. scrollProgress rectTop wrapperHeight viewportHeight = Finite q \<and> 0 < q \<and> q \<le> 1))
   \<and> (wrapperHeight = viewportHeight \<and> rectTop < 0 \<longrightarrow>
        scrollProgress rectTop wrapperHeight viewportHeight = Finite 1)
   \<and> (wrapperHeight = viewportHeight \<and> 0 < rectTop \<longrightarrow>
        scrollProgress rectTop wrapperHeight viewportHeight = Finite 0)"
  using scrollProgress_nonzero [of wrapperHeight viewportHeight rectTop]
    scrollProgress_negative_distance [of wrapperHeight viewportHeight rectTop]
    scrollProgress_zero_distance [of rectTop viewportHeight]
  by blast

theorem scrollProgress_unguarded_witness:
  "(400::real) < 600 \<and> (0::real) < 30 \<and> scrollProgress 30 400 600 = Finite 0.15
   \<and> (-30::real) \<le> 0 \<and> scrollProgress (-30) 400 600 = Finite 0
   \<and> (-10::real) < 0 \<and> scrollProgress (-10) 600 600 = Finite 1
   \<and> (0::real) < 10 \<and> scrollProgress 10 600 600 = Finite 0"
  using scrollProgress_unguarded [of 400 600 30] scrollProgress_unguarded [of 400 600 "-30"]
    scrollProgress_unguarded [of 600 600 "-10"] scrollProgress_unguarded [of 600 600 10]
  by (simp add: clamp_def)

text \<open>The claim as stated fails for a wrapper of height 500 in a viewport of height 600,
  50 below the top of the viewport: the scrollable distance is \<open>-100\<close> and the progress is
  one half.\<close>

theorem scrollProgress_guard_counterexample:
  "(500::real) - 600 \<le> 0 \<and> scrollProgress 50 500 600 = Finite 0.5
   \<and> scrollProgress 50 500 600 \<noteq> Finite 0"
  by (simp add: scrollProgress_def js_div_def clamp_js_def)

section \<open>The time-of-day label\<close>

lemma js_round_bounds:
  assumes "of_int lo \<le> x" "x \<le> of_int hi"
  shows "lo \<le> js_round x \<and> js_round x \<le> hi"
proof -
  have "of_int lo \<le> x + 1 / 2" using assms(1) by simp
  then have a: "lo \<le> \<lfloor>x + 1 / 2\<rfloor>" by (simp add: le_floor_iff)
  have "x + 1 / 2 < of_int (hi + 1)" using assms(2) by simp
  then have "\<lfloor>x + 1 / 2\<rfloor> < hi + 1" by (simp only: floor_less_iff)
  with a show ?thesis by (simp add: js_round_def)
qed

lemma slider_hour_range:
  assumes "1 \<le> v" "v \<le> 40"
  shows "6 \<le> js_round (6 + (of_int v - 1) * (15 / 39))
       \<and> js_round (6 + (of_int v - 1) * (15 / 39)) \<le> 21"
proof -
  have v: "(1::real) \<le> of_int v" "of_int v \<le> (40::real)" using assms by simp_all
  have lo: "of_int 6 \<le> 6 + (of_int v - 1) * (15 / 39 :: real)" using v(1) by simp
  have "(of_int v - 1) * (15 / 39 :: real) \<le> 39 * (15 / 39)" using v(2) by simp
  then have hi: "6 + (of_int v - 1) * (15 / 39 :: real) \<le> of_int 21" by simp
  from js_round_bounds [OF lo hi] show ?thesis .
qed

lemma clock_formats_agree:
  assumes "6 \<le> h" "h \<le> 21"
  shows "numberToString (if h > 12 then h - 12 else if h = 0 then 12 else h)
           @ (if h \<ge> 12 then ''PM'' else ''AM'') = twelveHour h"
proof -
  have m24: "h mod 24 = h" using assms by (simp add: mod_pos_pos_trivial)
  consider "h \<le> 11" | "h = 12" | "13 \<le> h" by linarith
  then show ?thesis
  proof cases
    case 1
    then have "h mod 12 = h" using assms by (simp add: mod_pos_pos_trivial)
    with 1 assms m24 show ?thesis by (simp add: twelveHour_def)
  next
    case 2
    then show ?thesis by (simp add: twelveHour_def)
  next
    case 3
    define k where "k = h - 12"
    have k: "h = k + 12" "1 \<le> k" "k \<le> 9" using 3 assms by (simp_all add: k_def)
    have "k mod 12 = k" using k by (simp add: mod_pos_pos_trivial)
    then have "h mod 12 = k" by (simp add: k(1))
    with 3 m24 show ?thesis by (simp add: twelveHour_def k_def)
  qed
qed
lemma title_refines_label:
  assumes "1 \<le> v" "v \<le> 40"
  shows "updateSunPathTitle (Some old) v = Some (spec_label (v - 1))"
proof -
  define h where "h = js_round (6 + (of_int v - 1) * (15 / 39))"
  from slider_hour_range [OF assms] have r: "6 \<le> h" "h \<le> 21" by (simp_all add: h_def)
  have "updateSunPathTitle (Some old) v
      = Some (''Sun path - '' @ numberToString (if h > 12 then h - 12 else if h = 0 then 12 else h)
               @ (if h \<ge> 12 then ''PM'' else ''AM''))"
    unfolding h_def by (simp only: updateSunPathTitle_def Let_def option.case)
  also have "\<dots> = Some (''Sun path - '' @ twelveHour h)"
    by (simp only: clock_formats_agree [OF r])
  also have "\<dots> = Some (spec_label (v - 1))"
    unfolding h_def by (simp only: spec_label_def spec_hour_def of_int_diff of_int_1)
  finally show ?thesis .
qed

lemma title_examples:
  "updateSunPathTitle (Some old) 1 = Some ''Sun path - 6AM''"
  "updateSunPathTitle (Some old) 14 = Some ''Sun path - 11AM''"
  "updateSunPathTitle (Some old) 40 = Some ''Sun path - 9PM''"
  by (simp_all add: updateSunPathTitle_def js_round_def numberToString_def digitChar_def
      decimalDigits.simps [of 6] decimalDigits.simps [of 11] decimalDigits.simps [of "Suc 0"]
      decimalDigits.simps [of 9])

text \<open>
  Claim C9, as amended. For every slider value in 1..40 the label is \<open>Sun path - \<close>
  followed by the hour \<open>6 + (value - 1) * (15 / 39)\<close>, rounded to the nearest whole hour and
  written as 12-hour time with AM or PM: the specification's label of the index
  \<open>value - 1\<close>. The values 1, 14 and 40 give 6AM, 11AM and 9PM.
\<close>

theorem sunPathTitle_label:
  "(1 \<le> v \<and> v \<le> 40 \<longrightarrow> updateSunPathTitle (Some old) v = Some (spec_label (v - 1)))
   \<and> updateSunPathTitle (Some old) 1 = Some ''Sun path - 6AM''
   \<and> updateSunPathTitle (Some old) 14 = Some ''Sun path - 11AM''
   \<and> updateSunPathTitle (Some old) 40 = Some ''Sun path - 9PM''"
  using title_refines_label title_examples by blast

theorem sunPathTitle_label_witness:
  "(1::int) \<le> 27 \<and> (27::int) \<le> 40
   \<and> updateSunPathTitle (Some ''Sun path - 11AM'') 27 = Some (spec_label 26)
   \<and> spec_label 26 = ''Sun path - 4PM''"
proof -
  have "spec_label 26 = ''Sun path - 4PM''"
    by (simp add: spec_label_def spec_hour_def twelveHour_def js_round_def numberToString_def
        digitChar_def decimalDigits.simps [of 4])
  then show ?thesis
    using sunPathTitle_label [of 27 "''Sun path - 11AM''"] by simp
qed

text \<open>The claim as stated puts the slider value itself into the formula; for the value 2
  that gives the hour 7, and the code writes 6AM.\<close>

theorem sunPathTitle_label_counterexample:
  "updateSunPathTitle (Some ''Sun path - 11AM'') 2 = Some ''Sun path - 6AM''
   \<and> spec_label 2 = ''Sun path - 7AM''"
  by (simp add: updateSunPathTitle_def spec_label_def spec_hour_def twelveHour_def js_round_def
      numberToString_def digitChar_def decimalDigits.simps [of 6] decimalDigits.simps [of 7])

section \<open>What each step changes\<close>

lemma fold_setWallsEnabled:
  "fold (\<lambda>dir. setWallsEnabled dir (f dir)) wall_directions s
     = s\<lparr>wallMeshes := (\<lambda>d. map (\<lambda>m. m\<lparr>enabled := f d\<rparr>) (wallMeshes s d))\<rparr>"
proof -
  have "(\<lambda>d. map (\<lambda>m. m\<lparr>enabled := f d\<rparr>) (wallMeshes s d))
      = (wallMeshes s)
          (North := map (\<lambda>m. m\<lparr>enabled := f North\<rparr>) (wallMeshes s North),
           South := map (\<lambda>m. m\<lparr>enabled := f South\<rparr>) (wallMeshes s South),
           East := map (\<lambda>m. m\<lparr>enabled := f East\<rparr>) (wallMeshes s East),
           West := map (\<lambda>m. m\<lparr>enabled := f West\<rparr>) (wallMeshes s West))"
  proof (rule ext)
    fix d show "map (\<lambda>m. m\<lparr>enabled := f d\<rparr>) (wallMeshes s d)
      = ((wallMeshes s)
          (North := map (\<lambda>m. m\<lparr>enabled := f North\<rparr>) (wallMeshes s North),
           South := map (\<lambda>m. m\<lparr>enabled := f South\<rparr>) (wallMeshes s South),
           East := map (\<lambda>m. m\<lparr>enabled := f East\<rparr>) (wallMeshes s East),
           West := map (\<lambda>m. m\<lparr>enabled := f West\<rparr>) (wallMeshes s West))) d"
      by (cases d) simp_all
  qed
  then show ?thesis
    by (simp add: wall_directions_def setWallsEnabled_def)
qed

lemma hideAllWalls_eq:
  "hideAllWalls s = s\<lparr>wallMeshes := (\<lambda>d. map (\<lambda>m. m\<lparr>enabled := False\<rparr>) (wallMeshes s d))\<rparr>"
  unfolding hideAllWalls_def by (rule fold_setWallsEnabled)

lemma showAllWalls_eq:
  "showAllWalls s = s\<lparr>wallMeshes := (\<lambda>d. map (\<lambda>m. m\<lparr>enabled := True\<rparr>) (wallMeshes s d))\<rparr>"
  unfolding showAllWalls_def by (rule fold_setWallsEnabled)

lemma updateMeshVisibility_eq:
  "updateMeshVisibility q s
     = s\<lparr>wallMeshes := (\<lambda>d. map (\<lambda>m. m\<lparr>enabled := \<not> List.member (hideMap q) d\<rparr>) (wallMeshes s d))\<rparr>"
  unfolding updateMeshVisibility_def Let_def by (rule fold_setWallsEnabled)

lemma fold_furniture:
  "fold (\<lambda>key s'. s'\<lparr>furnitureSets := (furnitureSets s')(key := map (g key) (furnitureSets s' key))\<rparr>)
      furniture_keys s
     = s\<lparr>furnitureSets := (\<lambda>k. map (g k) (furnitureSets s k))\<rparr>"
proof -
  have "(\<lambda>k. map (g k) (furnitureSets s k))
      = (furnitureSets s)
          (Furniture1 := map (g Furniture1) (furnitureSets s Furniture1),
           Furniture2 := map (g Furniture2) (furnitureSets s Furniture2),
           Furniture3 := map (g Furniture3) (furnitureSets s Furniture3))"
  proof (rule ext)
    fix k show "map (g k) (furnitureSets s k)
      = ((furnitureSets s)
          (Furniture1 := map (g Furniture1) (furnitureSets s Furniture1),
           Furniture2 := map (g Furniture2) (furnitureSets s Furniture2),
           Furniture3 := map (g Furniture3) (furnitureSets s Furniture3))) k"
      by (cases k) simp_all
  qed
  then show ?thesis by (simp add: furniture_keys_def)
qed

lemma hideAllFurniture_eq:
  "hideAllFurniture s
     = s\<lparr>furnitureSets := (\<lambda>k. map (\<lambda>m. m\<lparr>enabled := False, visibility := 0\<rparr>) (furnitureSets s k))\<rparr>"
  unfolding hideAllFurniture_def by (rule fold_furniture)

lemma updateFurnitureVisibility_eq:
  "updateFurnitureVisibility s
     = (if \<not> isToggleMode s then hideAllFurniture s
        else s\<lparr>furnitureSets :=
                 (\<lambda>k. map (showFurnitureMesh (Some k = currentOption s)) (furnitureSets s k))\<rparr>)"
  unfolding updateFurnitureVisibility_def Let_def
  by (simp add: fold_furniture [where g = "\<lambda>k. showFurnitureMesh (Some k = currentOption s)"])


lemma updateFurnitureVisibility_fields [simp]:
  "camera (updateFurnitureVisibility s) = camera s"
  "isOrthoView (updateFurnitureVisibility s) = isOrthoView s"
  "isToggleMode (updateFurnitureVisibility s) = isToggleMode s"
  "wallMeshes (updateFurnitureVisibility s) = wallMeshes s"
  "currentFurnitureIndex (updateFurnitureVisibility s) = currentFurnitureIndex s"
  "transitionTargetAlpha (updateFurnitureVisibility s) = transitionTargetAlpha s"
  "lastTransitionProgress (updateFurnitureVisibility s) = lastTransitionProgress s"
  "lastInteractionTime (updateFurnitureVisibility s) = lastInteractionTime s"
  by (simp_all add: updateFurnitureVisibility_eq hideAllFurniture_eq)

lemma currentOption_updateFurnitureVisibility [simp]:
  "currentOption (updateFurnitureVisibility s) = currentOption s"
  by (simp add: currentOption_def)

lemma updateAccentEmission_fields [simp]:
  "camera (updateAccentEmission b s) = camera s"
  "isOrthoView (updateAccentEmission b s) = isOrthoView s"
  "isToggleMode (updateAccentEmission b s) = isToggleMode s"
  "wallMeshes (updateAccentEmission b s) = wallMeshes s"
  "furnitureSets (updateAccentEmission b s) = furnitureSets s"
  "currentFurnitureIndex (updateAccentEmission b s) = currentFurnitureIndex s"
  "transitionTargetAlpha (updateAccentEmission b s) = transitionTargetAlpha s"
  "lastTransitionProgress (updateAccentEmission b s) = lastTransitionProgress s"
  "lastInteractionTime (updateAccentEmission b s) = lastInteractionTime s"
  by (simp_all add: updateAccentEmission_def Let_def split: option.splits)

lemma updateSunPathTransition_fields [simp]:
  "camera (updateSunPathTransition p s) = camera s"
  "isOrthoView (updateSunPathTransition p s) = isOrthoView s"
  "isToggleMode (updateSunPathTransition p s) = isToggleMode s"
  "wallMeshes (updateSunPathTransition p s) = wallMeshes s"
  "furnitureSets (updateSunPathTransition p s) = furnitureSets s"
  "currentFurnitureIndex (updateSunPathTransition p s) = currentFurnitureIndex s"
  "transitionTargetAlpha (updateSunPathTransition p s) = transitionTargetAlpha s"
  "lastTransitionProgress (updateSunPathTransition p s) = lastTransitionProgress s"
  "lastInteractionTime (updateSunPathTransition p s) = lastInteractionTime s"
  by (simp_all add: updateSunPathTransition_def Let_def)

lemma updateFurnitureFade_fields [simp]:
  "camera (updateFurnitureFade p s) = camera s"
  "isOrthoView (updateFurnitureFade p s) = isOrthoView s"
  "isToggleMode (updateFurnitureFade p s) = isToggleMode s"
  "wallMeshes (updateFurnitureFade p s) = wallMeshes s"
  "currentFurnitureIndex (updateFurnitureFade p s) = currentFurnitureIndex s"
  "transitionTargetAlpha (updateFurnitureFade p s) = transitionTargetAlpha s"
  "lastTransitionProgress (updateFurnitureFade p s) = lastTransitionProgress s"
  "lastInteractionTime (updateFurnitureFade p s) = lastInteractionTime s"
  by (simp_all add: updateFurnitureFade_def Let_def split: option.splits)

lemma updateWallVisibilityForMode_fields:
  assumes "updateWallVisibilityForMode s = Inr s'"
  shows "camera s' = camera s" "isOrthoView s' = isOrthoView s"
    "isToggleMode s' = isToggleMode s" "furnitureSets s' = furnitureSets s"
    "currentFurnitureIndex s' = currentFurnitureIndex s"
    "transitionTargetAlpha s' = transitionTargetAlpha s"
    "lastTransitionProgress s' = lastTransitionProgress s"
    "lastInteractionTime s' = lastInteractionTime s"
  using assms
  by (auto simp: updateWallVisibilityForMode_def hideAllWalls_eq showAllWalls_eq
      updateMeshVisibility_eq split: if_splits option.splits)

lemma updateWallVisibilityForMode_succeeds:
  assumes "isOrthoView s \<or> \<not> isToggleMode s \<or> camera s \<noteq> None"
  shows "\<exists>s'. updateWallVisibilityForMode s = Inr s'"
  using assms by (auto simp: updateWallVisibilityForMode_def split: option.splits)

lemma toggleMode_unfold:
  assumes "toggleMode s = Inr s'"
  obtains s3 where
    "updateWallVisibilityForMode
       (updateAccentEmission (\<not> isToggleMode s) (s\<lparr>isToggleMode := \<not> isToggleMode s\<rparr>)) = Inr s3"
    "s' = updateFurnitureVisibility s3"
  using assms by (auto simp: toggleMode_def Let_def split: sum.splits)

lemma toggleMode_fields:
  assumes "toggleMode s = Inr s'"
  shows "camera s' = camera s" "isOrthoView s' = isOrthoView s"
    "isToggleMode s' = (\<not> isToggleMode s)"
    "currentFurnitureIndex s' = currentFurnitureIndex s"
    "transitionTargetAlpha s' = transitionTargetAlpha s"
    "lastTransitionProgress s' = lastTransitionProgress s"
    "lastInteractionTime s' = lastInteractionTime s"
proof -
  from assms obtain s3 where s3:
    "updateWallVisibilityForMode
       (updateAccentEmission (\<not> isToggleMode s) (s\<lparr>isToggleMode := \<not> isToggleMode s\<rparr>)) = Inr s3"
    and s': "s' = updateFurnitureVisibility s3"
    by (rule toggleMode_unfold)
  note f = updateWallVisibilityForMode_fields [OF s3]
  show "camera s' = camera s" by (simp add: s' f)
  show "isOrthoView s' = isOrthoView s" by (simp add: s' f)
  show "isToggleMode s' = (\<not> isToggleMode s)" by (simp add: s' f)
  show "currentFurnitureIndex s' = currentFurnitureIndex s" by (simp add: s' f)
  show "transitionTargetAlpha s' = transitionTargetAlpha s" by (simp add: s' f)
  show "lastTransitionProgress s' = lastTransitionProgress s" by (simp add: s' f)
  show "lastInteractionTime s' = lastInteractionTime s" by (simp add: s' f)
qed

lemma toggleMode_succeeds:
  assumes "isOrthoView s \<or> camera s \<noteq> None"
  shows "\<exists>s'. toggleMode s = Inr s'"
proof -
  let ?s2 = "updateAccentEmission (\<not> isToggleMode s) (s\<lparr>isToggleMode := \<not> isToggleMode s\<rparr>)"
  have "isOrthoView ?s2 \<or> \<not> isToggleMode ?s2 \<or> camera ?s2 \<noteq> None" using assms by auto
  from updateWallVisibilityForMode_succeeds [OF this] obtain s3
    where "updateWallVisibilityForMode ?s2 = Inr s3" ..
  then show ?thesis by (simp add: toggleMode_def Let_def)
qed

lemma getQuadrant_range: "getQuadrant a \<in> {1, 2, 3, 4}"
  by (simp add: getQuadrant_def Let_def)

lemma hideMap_spec: "set (hideMap q) = spec_hidden q"
  by (auto simp: hideMap_def)

lemma updateMeshVisibility_enabled:
  "map enabled (wallMeshes (updateMeshVisibility q s) d)
     = replicate (length (wallMeshes s d)) (d \<notin> spec_hidden q)"
  by (simp add: updateMeshVisibility_eq hideMap_spec comp_def map_replicate_const del: spec_hidden.simps)

lemma hideAllWalls_enabled:
  "map enabled (wallMeshes (hideAllWalls s) d) = replicate (length (wallMeshes s d)) False"
  by (simp add: hideAllWalls_eq comp_def map_replicate_const)

lemma showAllWalls_enabled:
  "map enabled (wallMeshes (showAllWalls s) d) = replicate (length (wallMeshes s d)) True"
  by (simp add: showAllWalls_eq comp_def map_replicate_const)

lemma wall_visibility_refines:
  assumes "isOrthoView s \<or> \<not> isToggleMode s \<or> camera s = Some c"
  shows "\<exists>s'. updateWallVisibilityForMode s = Inr s'
           \<and> (\<forall>d. map enabled (wallMeshes s' d)
                  = replicate (length (wallMeshes s d))
                      (spec_wallVisible (isOrthoView s) (isToggleMode s) (getQuadrant (alpha c)) d))"
proof (cases "isOrthoView s")
  case True
  then show ?thesis
    by (simp add: updateWallVisibilityForMode_def spec_wallVisible_def hideAllWalls_enabled)
next
  case False
  show ?thesis
  proof (cases "isToggleMode s")
    case False
    with \<open>\<not> isOrthoView s\<close> show ?thesis
      by (simp add: updateWallVisibilityForMode_def spec_wallVisible_def showAllWalls_enabled)
  next
    case True
    with \<open>\<not> isOrthoView s\<close> assms have "camera s = Some c" by simp
    with True \<open>\<not> isOrthoView s\<close> show ?thesis
      by (simp add: updateWallVisibilityForMode_def spec_wallVisible_def
          updateMeshVisibility_enabled del: spec_hidden.simps)
  qed
qed

lemma direction_sets:
  "{d. d \<noteq> West \<and> d \<noteq> South} = {North, East}"
  "{d. d \<noteq> South \<and> d \<noteq> East} = {North, West}"
  "{d. d \<noteq> East \<and> d \<noteq> North} = {West, South}"
  "{d. d \<noteq> North \<and> d \<noteq> West} = {South, East}"
proof -
  have u: "\<And>d. d = North \<or> d = South \<or> d = East \<or> d = West"
    by (rule direction.exhaust) auto
  show "{d. d \<noteq> West \<and> d \<noteq> South} = {North, East}" using u by auto
  show "{d. d \<noteq> South \<and> d \<noteq> East} = {North, West}" using u by auto
  show "{d. d \<noteq> East \<and> d \<noteq> North} = {West, South}" using u by auto
  show "{d. d \<noteq> North \<and> d \<noteq> West} = {South, East}" using u by auto
qed

lemma enabled_showFurnitureMesh [simp]: "enabled (showFurnitureMesh b m) = b"
  by (simp add: showFurnitureMesh_def Let_def split: option.splits)

lemma updateFurnitureVisibility_inv: "furnitureInv (updateFurnitureVisibility s)"
  by (auto simp: furnitureInv_def updateFurnitureVisibility_eq hideAllFurniture_eq currentOption_def)

lemma cycleFurniture_fields [simp]:
  "camera (cycleFurniture s) = camera s"
  "isOrthoView (cycleFurniture s) = isOrthoView s"
  "isToggleMode (cycleFurniture s) = isToggleMode s"
  "currentFurnitureIndex (cycleFurniture s) = (currentFurnitureIndex s + 1) mod 4"
  by (simp_all add: cycleFurniture_def FURNITURE_OPTIONS_def)

lemma cycleFurniture_inv: "furnitureInv (cycleFurniture s)"
  unfolding cycleFurniture_def by (rule updateFurnitureVisibility_inv)

lemma toggleMode_inv:
  assumes "toggleMode s = Inr s'"
  shows "furnitureInv s'"
proof -
  from assms obtain s3 where "s' = updateFurnitureVisibility s3" by (rule toggleMode_unfold)
  then show ?thesis by (simp add: updateFurnitureVisibility_inv)
qed

lemma runActions_inv:
  assumes "furnitureInv s" "isOrthoView s \<or> camera s \<noteq> None"
  shows "\<exists>s'. runActions acts s = Inr s' \<and> furnitureInv s'
           \<and> camera s' = camera s \<and> isOrthoView s' = isOrthoView s
           \<and> (acts = [] \<longrightarrow> s' = s)
           \<and> (CycleFurniture \<in> set acts \<longrightarrow>
                 currentFurnitureIndex s' = (currentFurnitureIndex s + cycles acts) mod 4)
           \<and> (CycleFurniture \<notin> set acts \<longrightarrow> currentFurnitureIndex s' = currentFurnitureIndex s)
           \<and> isToggleMode s' = (if even (length (filter (\<lambda>a. a = ToggleMode) acts))
                                 then isToggleMode s else \<not> isToggleMode s)"
  using assms
proof (induction acts arbitrary: s)
  case Nil
  then show ?case by simp
next
  case (Cons a acts)
  show ?case
  proof (cases a)
    case CycleFurniture
    let ?s1 = "cycleFurniture s"
    have "furnitureInv ?s1" by (rule cycleFurniture_inv)
    moreover have "isOrthoView ?s1 \<or> camera ?s1 \<noteq> None" using Cons.prems(2) by simp
    ultimately obtain s' where s': "runActions acts ?s1 = Inr s'" "furnitureInv s'"
        "camera s' = camera ?s1" "isOrthoView s' = isOrthoView ?s1"
        "CycleFurniture \<in> set acts \<longrightarrow>
                 currentFurnitureIndex s' = (currentFurnitureIndex ?s1 + cycles acts) mod 4"
        "CycleFurniture \<notin> set acts \<longrightarrow> currentFurnitureIndex s' = currentFurnitureIndex ?s1"
        "isToggleMode s' = (if even (length (filter (\<lambda>a. a = ToggleMode) acts))
                                 then isToggleMode ?s1 else \<not> isToggleMode ?s1)"
      using Cons.IH [of ?s1] by blast
    have idx: "currentFurnitureIndex s' = (currentFurnitureIndex s + Suc (cycles acts)) mod 4"
    proof (cases "CycleFurniture \<in> set acts")
      case True
      with s'(5) have "currentFurnitureIndex s' = ((currentFurnitureIndex s + 1) mod 4 + cycles acts) mod 4"
        by simp
      then show ?thesis by (simp add: mod_add_left_eq)
    next
      case False
      then have "cycles acts = 0" by (induction acts rule: cycles.induct) auto
      with False s'(6) show ?thesis by simp
    qed
    show ?thesis using s'(1-4,7) idx by (simp add: CycleFurniture)
  next
    case ToggleMode
    from toggleMode_succeeds [OF Cons.prems(2)] obtain s1 where s1: "toggleMode s = Inr s1" ..
    note f = toggleMode_fields [OF s1]
    have "furnitureInv s1" using s1 by (rule toggleMode_inv)
    moreover have "isOrthoView s1 \<or> camera s1 \<noteq> None" using Cons.prems(2) by (simp add: f)
    ultimately obtain s' where s': "runActions acts s1 = Inr s'" "furnitureInv s'"
        "camera s' = camera s1" "isOrthoView s' = isOrthoView s1"
        "CycleFurniture \<in> set acts \<longrightarrow>
                 currentFurnitureIndex s' = (currentFurnitureIndex s1 + cycles acts) mod 4"
        "CycleFurniture \<notin> set acts \<longrightarrow> currentFurnitureIndex s' = currentFurnitureIndex s1"
        "isToggleMode s' = (if even (length (filter (\<lambda>a. a = ToggleMode) acts))
                                 then isToggleMode s1 else \<not> isToggleMode s1)"
      using Cons.IH [of s1] by blast
    show ?thesis using s' s1 by (simp add: ToggleMode f)
  qed
qed

lemma snapToNearest_member:
  assumes "xs \<noteq> []"
  shows "\<exists>t. snapToNearest a xs = Some t \<and> t \<in> set xs"
proof -
  from snapToNearest_first_min [OF assms, of a] obtain i
    where "i < length xs" "snapToNearest a xs = Some (xs ! i)" by blast
  then show ?thesis by auto
qed

lemma snap_straight: "\<exists>t. snapToNearest a STRAIGHT_ANGLES = Some t \<and> t \<in> set STRAIGHT_ANGLES"
  by (rule snapToNearest_member) (simp add: STRAIGHT_ANGLES_def)

lemma snap_center: "\<exists>t. snapToNearest a QUADRANT_CENTERS = Some t \<and> t \<in> set QUADRANT_CENTERS"
  by (rule snapToNearest_member) (simp add: QUADRANT_CENTERS_def)

lemma alphaStep_ortho:
  assumes "tp < 0.1" "snapToNearest a STRAIGHT_ANGLES = Some t"
  shows "alphaStep tp lp target a = Inr (lerp a t 0.08, None)"
  using assms by (simp add: alphaStep_def ORTHO_THRESHOLD_def)

lemma alphaStep_capture:
  assumes "0.1 \<le> tp" "tp < 1" "js_lt lp (Finite 0.1)" "target = None"
    "snapToNearest a STRAIGHT_ANGLES = Some straight"
    "snapToNearest straight QUADRANT_CENTERS = Some center"
  shows "alphaStep tp lp target a = Inr (lerp a center 0.08, Some center)"
  using assms by (simp add: alphaStep_def ORTHO_THRESHOLD_def TRANSITION_THRESHOLD_def)

lemma alphaStep_keep:
  assumes "0.1 \<le> tp" "tp < 1" "\<not> js_lt lp (Finite 0.1) \<or> target \<noteq> None"
  shows "alphaStep tp lp target a
           = (case target of None \<Rightarrow> Inr (a, None) | Some t \<Rightarrow> Inr (lerp a t 0.08, Some t))"
  using assms
  by (auto simp: alphaStep_def ORTHO_THRESHOLD_def TRANSITION_THRESHOLD_def split: option.splits)

lemma alphaStep_perspective:
  assumes "1 \<le> tp"
  shows "alphaStep tp lp target a = Inr (a, None)"
  using assms by (simp add: alphaStep_def ORTHO_THRESHOLD_def TRANSITION_THRESHOLD_def)

lemma alphaStep_succeeds: "\<exists>a' tgt. alphaStep tp lp target a = Inr (a', tgt)"
proof -
  obtain straight where s: "snapToNearest a STRAIGHT_ANGLES = Some straight"
    using snap_straight by blast
  obtain center where c: "snapToNearest straight QUADRANT_CENTERS = Some center"
    using snap_center by blast
  consider "tp < 0.1" | "0.1 \<le> tp" "tp < 1" "js_lt lp (Finite 0.1) \<and> target = None"
    | "0.1 \<le> tp" "tp < 1" "\<not> js_lt lp (Finite 0.1) \<or> target \<noteq> None" | "1 \<le> tp"
    by fastforce
  then show ?thesis
  proof cases
    case 1
    then show ?thesis using alphaStep_ortho [OF _ s] by blast
  next
    case 2
    then show ?thesis using alphaStep_capture [OF _ _ _ _ s c] by blast
  next
    case 3
    then show ?thesis using alphaStep_keep [of tp lp target a] by (cases target) auto
  next
    case 4
    then show ?thesis using alphaStep_perspective by blast
  qed
qed

lemma alphaStep_target_ortho:
  assumes "alphaStep tp lp target a = Inr (a', tgt)" "tp < 0.1"
  shows "tgt = None"
  using assms by (auto simp: alphaStep_def ORTHO_THRESHOLD_def split: option.splits)

lemma idleRotation_result:
  assumes "camera s = Some c"
  shows "idleRotation p now s
    = Inr (s\<lparr>isIdleRotating := (p \<ge> 0.33 \<and> now - lastInteractionTime s > IDLE_TIMEOUT),
             camera := Some (c\<lparr>alpha := (if p \<ge> 0.33 \<and> now - lastInteractionTime s > IDLE_TIMEOUT
                                         then alpha c + IDLE_ROTATION_SPEED else alpha c)\<rparr>)\<rparr>)"
proof -
  have "s\<lparr>isIdleRotating := False\<rparr> = s\<lparr>isIdleRotating := False, camera := Some (c\<lparr>alpha := alpha c\<rparr>)\<rparr>"
    using assms by simp
  then show ?thesis using assms by (simp add: idleRotation_def Let_def)
qed

text \<open>A progress that fails the tests \<open>progress >= 0.66\<close> and \<open>progress >= 0.33\<close> gives
  what the progress 0 gives: these steps read the progress nowhere else.\<close>

lemma section4_below:
  "p < 0.66 \<Longrightarrow> updateSunPathTransition p s = updateSunPathTransition 0 s"
  "p < 0.66 \<Longrightarrow> updateFurnitureFade p s = updateFurnitureFade 0 s"
  "p < 0.33 \<Longrightarrow> idleRotation p now s = idleRotation 0 now s"
  by (simp_all add: updateSunPathTransition_def sunPathBlend_def updateFurnitureFade_def
      idleRotation_def Let_def)

lemma js_add_NaN [simp]: "js_add x NaN = NaN"
  by (cases x) simp_all

lemma js_mul_NaN [simp]: "js_mul x NaN = NaN"
  by (cases x) simp_all

lemma js_quot_NaN [simp]: "js_quot x NaN = NaN"
  by (cases x) simp_all

lemma js_lt_NaN [simp]: "\<not> js_lt x NaN"
  by (cases x) simp_all

lemma js_lerp_Finite [simp]: "js_lerp (Finite a) (Finite b) (Finite t) = Finite (lerp a b t)"
  by (simp add: js_lerp_def js_sub_def lerp_def)

lemma js_lerp_NaN [simp]:
  "js_lerp NaN b t = NaN" "js_lerp a NaN t = NaN" "js_lerp a b NaN = NaN"
  by (simp_all add: js_lerp_def js_sub_def)

lemma js_tan_NaN [simp]: "js_tan NaN = NaN"
  by (simp add: js_tan_def)

lemma smoothed_NaN [simp]:
  "smoothedFov NaN c = NaN" "smoothedBeta NaN c = NaN"
  "fov c = NaN \<Longrightarrow> smoothedFov tp c = NaN"
  "beta c = NaN \<Longrightarrow> smoothedBeta tp c = NaN"
  by (simp_all add: smoothedFov_def smoothedBeta_def Let_def)

lemma framePose_fields [simp]:
  "fov (framePose tp a c) = smoothedFov tp c"
  "radius (framePose tp a c)
     = js_quot (Finite APPARENT_SIZE_CONSTANT) (js_tan (js_quot (smoothedFov tp c) (Finite 2)))"
  "lowerRadiusLimit (framePose tp a c) = radius (framePose tp a c)"
  "upperRadiusLimit (framePose tp a c) = radius (framePose tp a c)"
  "beta (framePose tp a c) = smoothedBeta tp c"
  "lowerBetaLimit (framePose tp a c) = smoothedBeta tp c"
  "upperBetaLimit (framePose tp a c) = smoothedBeta tp c"
  "alpha (framePose tp a c) = a"
  by (simp_all add: framePose_def Let_def)

lemma frameState_result:
  "\<exists>s2. frameState tp a tgt c s = Inr s2
       \<and> camera s2 = Some (framePose tp a c) \<and> isOrthoView s2 = js_lt tp (Finite 0.1)
       \<and> isToggleMode s2 = isToggleMode s
       \<and> transitionTargetAlpha s2 = tgt \<and> lastTransitionProgress s2 = tp
       \<and> lastInteractionTime s2 = lastInteractionTime s
       \<and> currentFurnitureIndex s2 = currentFurnitureIndex s"
proof -
  define s1 where "s1 = s\<lparr>camera := Some (framePose tp a c), transitionTargetAlpha := tgt,
                               lastTransitionProgress := tp,
                               isOrthoView := js_lt tp (Finite 0.1)\<rparr>"
  have w: "frameState tp a tgt c s
      = (if isOrthoView s1 \<noteq> isOrthoView s then updateWallVisibilityForMode s1 else Inr s1)"
    by (simp add: frameState_def Let_def s1_def)
  show ?thesis
  proof (cases "isOrthoView s1 \<noteq> isOrthoView s")
    case True
    have "camera s1 \<noteq> None" by (simp add: s1_def)
    then obtain s2 where s2: "updateWallVisibilityForMode s1 = Inr s2"
      using updateWallVisibilityForMode_succeeds [of s1] by blast
    from updateWallVisibilityForMode_fields [OF s2] True s2 show ?thesis
      unfolding w by (simp add: s1_def)
  next
    case False
    then show ?thesis unfolding w by (simp add: s1_def)
  qed
qed

lemma cameraFrame_result:
  assumes a: "alphaStep (transitionProgressOf p) (lastTransitionProgress s)
              (transitionTargetAlpha s) (alpha c) = Inr (a1, tgt)"
  shows "\<exists>s' c'. cameraFrame p now c s = Inr s' \<and> camera s' = Some c'
      \<and> fov c' = smoothedFov (Finite (transitionProgressOf p)) c
      \<and> beta c' = smoothedBeta (Finite (transitionProgressOf p)) c
      \<and> radius c' = js_quot (Finite APPARENT_SIZE_CONSTANT) (js_tan (js_quot (fov c') (Finite 2)))
      \<and> lowerRadiusLimit c' = radius c' \<and> upperRadiusLimit c' = radius c'
      \<and> lowerBetaLimit c' = beta c' \<and> upperBetaLimit c' = beta c'
      \<and> alpha c' = (if idleNow p now s then a1 + IDLE_ROTATION_SPEED else a1)
      \<and> isIdleRotating s' = idleNow p now s
      \<and> transitionTargetAlpha s' = tgt
      \<and> lastTransitionProgress s' = Finite (transitionProgressOf p)
      \<and> isOrthoView s' = (transitionProgressOf p < 0.1)
      \<and> isToggleMode s' = isToggleMode s
      \<and> lastInteractionTime s' = lastInteractionTime s
      \<and> currentFurnitureIndex s' = currentFurnitureIndex s"
proof -
  define tp where "tp = transitionProgressOf p"
  define c1 where "c1 = framePose (Finite tp) a1 c"
  from frameState_result [of "Finite tp" a1 tgt c s] obtain s2 where s2:
    "frameState (Finite tp) a1 tgt c s = Inr s2"
    "camera s2 = Some c1" "isOrthoView s2 = (tp < 0.1)" "isToggleMode s2 = isToggleMode s"
    "transitionTargetAlpha s2 = tgt" "lastTransitionProgress s2 = Finite tp"
    "lastInteractionTime s2 = lastInteractionTime s"
    "currentFurnitureIndex s2 = currentFurnitureIndex s"
    unfolding c1_def by auto
  define s3 where "s3 = updateFurnitureFade p (updateSunPathTransition p s2)"
  have s3: "camera s3 = Some c1" "isOrthoView s3 = (tp < 0.1)" "isToggleMode s3 = isToggleMode s"
    "transitionTargetAlpha s3 = tgt" "lastTransitionProgress s3 = Finite tp"
    "lastInteractionTime s3 = lastInteractionTime s"
    "currentFurnitureIndex s3 = currentFurnitureIndex s"
    by (simp_all add: s3_def s2)
  have "cameraFrame p now c s = idleRotation p now s3"
    unfolding cameraFrame_def Let_def s3_def
    using a s2(1) by (simp add: tp_def)
  also note idleRotation_result [OF s3(1), of p now]
  finally have "cameraFrame p now c s =
     Inr (s3\<lparr>isIdleRotating := (p \<ge> 0.33 \<and> now - lastInteractionTime s3 > IDLE_TIMEOUT),
             camera := Some (c1\<lparr>alpha := (if p \<ge> 0.33 \<and> now - lastInteractionTime s3 > IDLE_TIMEOUT
                                         then alpha c1 + IDLE_ROTATION_SPEED else alpha c1)\<rparr>)\<rparr>)" .
  then show ?thesis
    by (simp add: s3 c1_def idleNow_def tp_def)
qed

lemma cameraFrameNaN_result:
  "\<exists>s' c'. cameraFrameNaN now c s = Inr s' \<and> camera s' = Some c'
      \<and> fov c' = NaN \<and> beta c' = NaN \<and> radius c' = NaN
      \<and> lowerRadiusLimit c' = NaN \<and> upperRadiusLimit c' = NaN
      \<and> lowerBetaLimit c' = NaN \<and> upperBetaLimit c' = NaN
      \<and> alpha c' = alpha c
      \<and> \<not> isIdleRotating s'
      \<and> transitionTargetAlpha s' = None
      \<and> lastTransitionProgress s' = NaN
      \<and> \<not> isOrthoView s'
      \<and> isToggleMode s' = isToggleMode s
      \<and> lastInteractionTime s' = lastInteractionTime s
      \<and> currentFurnitureIndex s' = currentFurnitureIndex s"
proof -
  define c1 where "c1 = framePose NaN (alpha c) c"
  from frameState_result [of NaN "alpha c" None c s] obtain s2 where s2:
    "frameState NaN (alpha c) None c s = Inr s2"
    "camera s2 = Some c1" "\<not> isOrthoView s2" "isToggleMode s2 = isToggleMode s"
    "transitionTargetAlpha s2 = None" "lastTransitionProgress s2 = NaN"
    "lastInteractionTime s2 = lastInteractionTime s"
    "currentFurnitureIndex s2 = currentFurnitureIndex s"
    unfolding c1_def by auto
  define s3 where "s3 = updateFurnitureFade 0 (updateSunPathTransition 0 s2)"
  have s3: "camera s3 = Some c1" "\<not> isOrthoView s3" "isToggleMode s3 = isToggleMode s"
    "transitionTargetAlpha s3 = None" "lastTransitionProgress s3 = NaN"
    "lastInteractionTime s3 = lastInteractionTime s"
    "currentFurnitureIndex s3 = currentFurnitureIndex s"
    by (simp_all add: s3_def s2)
  have "cameraFrameNaN now c s = idleRotation 0 now s3"
    unfolding cameraFrameNaN_def s3_def by (simp add: s2(1))
  also note idleRotation_result [OF s3(1), of 0 now]
  finally have "cameraFrameNaN now c s =
     Inr (s3\<lparr>isIdleRotating := ((0::real) \<ge> 0.33 \<and> now - lastInteractionTime s3 > IDLE_TIMEOUT),
             camera := Some (c1\<lparr>alpha := (if (0::real) \<ge> 0.33 \<and> now - lastInteractionTime s3 > IDLE_TIMEOUT
                                         then alpha c1 + IDLE_ROTATION_SPEED else alpha c1)\<rparr>)\<rparr>)" .
  then show ?thesis
    by (simp add: s3 c1_def)
qed

lemma cameraFrame_Inr:
  assumes "cameraFrame p now c s = Inr s'"
  obtains a1 tgt c' where
    "alphaStep (transitionProgressOf p) (lastTransitionProgress s)
              (transitionTargetAlpha s) (alpha c) = Inr (a1, tgt)"
    "camera s' = Some c'"
    "fov c' = smoothedFov (Finite (transitionProgressOf p)) c"
    "transitionTargetAlpha s' = tgt"
    "lastTransitionProgress s' = Finite (transitionProgressOf p)"
    "isOrthoView s' = (transitionProgressOf p < 0.1)"
proof -
  obtain a1 tgt where a: "alphaStep (transitionProgressOf p) (lastTransitionProgress s)
              (transitionTargetAlpha s) (alpha c) = Inr (a1, tgt)"
    using alphaStep_succeeds by blast
  from cameraFrame_result [OF a, of now] assms that [OF a] show thesis by auto
qed

lemma cameraFrameNaN_Inr:
  assumes "cameraFrameNaN now c s = Inr s'"
  obtains c' where "camera s' = Some c'" "fov c' = NaN"
    "transitionTargetAlpha s' = None" "lastTransitionProgress s' = NaN" "\<not> isOrthoView s'"
  using cameraFrameNaN_result [of now c s] assms that by auto

lemma transitionProgressOf_range: "0 \<le> transitionProgressOf p \<and> transitionProgressOf p \<le> 1"
  by (simp add: transitionProgressOf_def clamp_def Let_def)

lemma smoothedFov_weighted:
  assumes "fov c = Finite f"
  shows "smoothedFov (Finite tp) c = Finite (f + (0.05 + 0.29 * tp - f) * 0.08)"
  using assms
  by (simp add: smoothedFov_def lerp_def FOV_ORTHO_def FOV_PERSPECTIVE_def Let_def)

lemma smoothedFov_range:
  assumes "fov c = Finite f" "FOV_ORTHO \<le> f" "f \<le> FOV_PERSPECTIVE" "0 \<le> tp" "tp \<le> 1"
  shows "\<exists>g. smoothedFov (Finite tp) c = Finite g \<and> FOV_ORTHO \<le> g \<and> g \<le> FOV_PERSPECTIVE"
proof -
  have "0.05 \<le> f" "f \<le> 0.34"
    using assms by (simp_all add: FOV_ORTHO_def FOV_PERSPECTIVE_def)
  with assms(4,5)
  have "0.05 \<le> f + (0.05 + 0.29 * tp - f) * 0.08
      \<and> f + (0.05 + 0.29 * tp - f) * 0.08 \<le> 0.34"
    by (simp add: algebra_simps)
  then show ?thesis
    by (simp only: smoothedFov_weighted [OF assms(1)] FOV_ORTHO_def FOV_PERSPECTIVE_def) simp
qed

lemma smoothedFov_open:
  assumes "fov c = Finite f" "0 < f" "f < pi" "0 \<le> tp" "tp \<le> 1"
  shows "\<exists>g. smoothedFov (Finite tp) c = Finite g \<and> 0 < g \<and> g < pi"
proof -
  have "2 \<le> pi" by (rule pi_ge_two)
  with assms
  have "0 < f + (0.05 + 0.29 * tp - f) * 0.08
      \<and> f + (0.05 + 0.29 * tp - f) * 0.08 < pi"
    by (simp add: algebra_simps)
  then show ?thesis
    by (simp only: smoothedFov_weighted [OF assms(1)]) simp
qed

lemma tan_half_pos:
  assumes "0 < x" "x < pi"
  shows "0 < tan (x / 2)"
  using assms by (intro tan_gt_zero) simp_all

lemma cos_half_pos:
  assumes "0 < x" "x < pi"
  shows "0 < cos (x / 2)"
  using assms by (intro cos_gt_zero_pi) simp_all

lemma load_fields [simp]:
  "camera (modelLoaded w a a2 wh s) = camera s"
  "isOrthoView (modelLoaded w a a2 wh s) = isOrthoView s"
  "transitionTargetAlpha (modelLoaded w a a2 wh s) = transitionTargetAlpha s"
  "lastTransitionProgress (modelLoaded w a a2 wh s) = lastTransitionProgress s"
  "camera (furnitureLoaded k ms s) = camera s"
  "isOrthoView (furnitureLoaded k ms s) = isOrthoView s"
  "transitionTargetAlpha (furnitureLoaded k ms s) = transitionTargetAlpha s"
  "lastTransitionProgress (furnitureLoaded k ms s) = lastTransitionProgress s"
  by (simp_all add: modelLoaded_def furnitureLoaded_def hideAllWalls_eq)

lemma event_fields [simp]:
  "camera (resetIdleTimer now s) = camera s"
  "isOrthoView (resetIdleTimer now s) = isOrthoView s"
  "transitionTargetAlpha (resetIdleTimer now s) = transitionTargetAlpha s"
  "lastTransitionProgress (resetIdleTimer now s) = lastTransitionProgress s"
  "lastInteractionTime (resetIdleTimer now s) = now"
  "camera (userRotate a s) = map_option (\<lambda>c. c\<lparr>alpha := a\<rparr>) (camera s)"
  "isOrthoView (userRotate a s) = isOrthoView s"
  "transitionTargetAlpha (userRotate a s) = transitionTargetAlpha s"
  "lastTransitionProgress (userRotate a s) = lastTransitionProgress s"
  "transitionTargetAlpha (cycleFurniture s) = transitionTargetAlpha s"
  "lastTransitionProgress (cycleFurniture s) = lastTransitionProgress s"
  by (simp_all add: resetIdleTimer_def userRotate_def cycleFurniture_def)

lemma onAfterCheckInputs_fields [simp]:
  "camera (onAfterCheckInputs s) = camera s"
  "isOrthoView (onAfterCheckInputs s) = isOrthoView s"
  "transitionTargetAlpha (onAfterCheckInputs s) = transitionTargetAlpha s"
  "lastTransitionProgress (onAfterCheckInputs s) = lastTransitionProgress s"
  by (cases "camera s"; simp add: onAfterCheckInputs_def Let_def updateMeshVisibility_eq)+

lemma createScene_fields [simp]:
  "isOrthoView (createScene s) = isOrthoView s"
  "transitionTargetAlpha (createScene s) = transitionTargetAlpha s"
  "lastTransitionProgress (createScene s) = lastTransitionProgress s"
  "camera (createScene s) = Some initialCamera"
  by (simp_all add: createScene_def)

lemma clamp_js_cases:
  "clamp_js x 0 1 = NaN \<or> (\<exists>p. clamp_js x 0 1 = Finite p \<and> 0 \<le> p \<and> p \<le> 1)"
  by (cases x) (simp_all add: clamp_js_def)

lemma scrollProgress_cases:
  obtains "scrollProgress rt wh vh = NaN"
  | p where "scrollProgress rt wh vh = Finite p" "0 \<le> p" "p \<le> 1"
  using clamp_js_cases [of "js_div (- rt) (wh - vh)"]
  by (auto simp: scrollProgress_def Let_def)

lemma updateCameraFromScroll_cases:
  assumes "updateCameraFromScroll pg now s = Inr s'"
  obtains "s' = s" | c p where "camera s = Some c" "cameraFrame p now c s = Inr s'"
  | c where "camera s = Some c" "cameraFrameNaN now c s = Inr s'"
proof (cases "camera s")
  case None
  then have "s' = s" using assms by (simp add: updateCameraFromScroll_def)
  then show thesis by (rule that(1))
next
  case c: (Some c)
  show thesis
  proof (cases "wrapper pg")
    case None
    then have "s' = s" using assms c by (simp add: updateCameraFromScroll_def)
    then show thesis by (rule that(1))
  next
    case w: (Some w)
    show thesis
    proof (cases "scrollProgress (rect_top w) (offsetHeight w) (innerHeight pg)")
      case (Finite p)
      then have "cameraFrame p now c s = Inr s'"
        using assms c w by (simp add: updateCameraFromScroll_def)
      with c show thesis by (rule that(2))
    next
      case NaN
      then have "cameraFrameNaN now c s = Inr s'"
        using assms c w by (simp add: updateCameraFromScroll_def)
      with c show thesis by (rule that(3))
    qed (use assms c w in \<open>simp_all add: updateCameraFromScroll_def\<close>)
  qed
qed

text \<open>Every frame ends in a state: no branch of the frame raises.\<close>

lemma updateCameraFromScroll_total: "\<exists>s'. updateCameraFromScroll pg now s = Inr s'"
proof (cases "camera s")
  case None
  then show ?thesis by (simp add: updateCameraFromScroll_def)
next
  case c: (Some c)
  show ?thesis
  proof (cases "wrapper pg")
    case None
    then show ?thesis using c by (simp add: updateCameraFromScroll_def)
  next
    case w: (Some w)
    show ?thesis
    proof (cases rule: scrollProgress_cases [of "rect_top w" "offsetHeight w" "innerHeight pg"])
      case 1
      then have "updateCameraFromScroll pg now s = cameraFrameNaN now c s"
        using c w by (simp add: updateCameraFromScroll_def)
      with cameraFrameNaN_result [of now c s] show ?thesis by auto
    next
      case (2 p)
      then have u: "updateCameraFromScroll pg now s = cameraFrame p now c s"
        using c w by (simp add: updateCameraFromScroll_def)
      obtain a1 tgt where a: "alphaStep (transitionProgressOf p) (lastTransitionProgress s)
              (transitionTargetAlpha s) (alpha c) = Inr (a1, tgt)"
        using alphaStep_succeeds by blast
      from cameraFrame_result [OF a, of now] u show ?thesis by auto
    qed
  qed
qed

lemma reachable_invariants:
  assumes "reachable s"
  shows "(camera s = None \<longrightarrow> isOrthoView s)
       \<and> (js_lt (lastTransitionProgress s) (Finite 0.1) \<longrightarrow> transitionTargetAlpha s = None)
       \<and> (\<forall>c. camera s = Some c \<longrightarrow>
             fov c = NaN \<or> (\<exists>f. fov c = Finite f \<and> FOV_ORTHO \<le> f \<and> f \<le> FOV_PERSPECTIVE))"
  using assms
proof (induction rule: reachable.induct)
  case (start loadTime)
  show ?case by (simp add: initialState_def)
next
  case (scene s)
  have "fov initialCamera = Finite FOV_ORTHO \<and> FOV_ORTHO \<le> FOV_ORTHO
      \<and> FOV_ORTHO \<le> FOV_PERSPECTIVE"
    by (simp add: initialCamera_def FOV_ORTHO_def FOV_PERSPECTIVE_def)
  then have "\<exists>f. fov initialCamera = Finite f \<and> FOV_ORTHO \<le> f \<and> f \<le> FOV_PERSPECTIVE"
    by (rule exI)
  with scene show ?case by simp
next
  case (model s walls accent accent2 white)
  then show ?case by simp
next
  case (furniture s key meshes)
  then show ?case by simp
next
  case (frame s pg now s')
  from frame.hyps(2) show ?case
  proof (cases rule: updateCameraFromScroll_cases)
    case 1
    with frame.IH show ?thesis by simp
  next
    case (2 c p)
    from 2(2) obtain a1 tgt c' where f:
      "alphaStep (transitionProgressOf p) (lastTransitionProgress s)
              (transitionTargetAlpha s) (alpha c) = Inr (a1, tgt)"
      "camera s' = Some c'" "fov c' = smoothedFov (Finite (transitionProgressOf p)) c"
      "transitionTargetAlpha s' = tgt"
      "lastTransitionProgress s' = Finite (transitionProgressOf p)"
      by (rule cameraFrame_Inr)
    have "transitionProgressOf p < 0.1 \<longrightarrow> tgt = None"
      using alphaStep_target_ortho [OF f(1)] by blast
    moreover have "fov c' = NaN \<or> (\<exists>g. fov c' = Finite g \<and> FOV_ORTHO \<le> g \<and> g \<le> FOV_PERSPECTIVE)"
    proof -
      from frame.IH 2(1)
      have "fov c = NaN \<or> (\<exists>f. fov c = Finite f \<and> FOV_ORTHO \<le> f \<and> f \<le> FOV_PERSPECTIVE)"
        by simp
      then show ?thesis
      proof
        assume "fov c = NaN"
        then show ?thesis by (simp add: f(3))
      next
        assume "\<exists>f. fov c = Finite f \<and> FOV_ORTHO \<le> f \<and> f \<le> FOV_PERSPECTIVE"
        then obtain g where "fov c = Finite g" "FOV_ORTHO \<le> g" "g \<le> FOV_PERSPECTIVE" by blast
        from smoothedFov_range [OF this, of "transitionProgressOf p"]
          transitionProgressOf_range [of p]
        show ?thesis by (simp add: f(3))
      qed
    qed
    ultimately show ?thesis using f by simp
  next
    case (3 c)
    from 3(2) obtain c' where "camera s' = Some c'" "fov c' = NaN"
      "transitionTargetAlpha s' = None" "lastTransitionProgress s' = NaN" "\<not> isOrthoView s'"
      by (rule cameraFrameNaN_Inr)
    then show ?thesis by simp
  qed
next
  case (pick s s')
  from toggleMode_fields [OF pick.hyps(2)] pick.IH show ?case by simp
next
  case (cycle s)
  then show ?case by simp
next
  case (interaction s now)
  then show ?case by simp
next
  case (rotate s a)
  then show ?case by (cases "camera s") auto
next
  case (inputs s)
  then show ?case by simp
qed

lemma transitionProgressOf_below_one: "transitionProgressOf p < 1 \<Longrightarrow> p < 0.33"
  by (simp add: transitionProgressOf_def clamp_def Let_def min_def max_def split: if_splits)

lemma transitionProgressOf_one: "0.33 \<le> p \<Longrightarrow> transitionProgressOf p = 1"
  by (simp add: transitionProgressOf_def clamp_def Let_def min_def max_def)

lemma transitionProgressOf_unfold: "transitionProgressOf p = min (max (p / 0.33) 0) 1"
  by (simp add: transitionProgressOf_def clamp_def Let_def)

lemma straight_cases:
  assumes "t \<in> set STRAIGHT_ANGLES"
  obtains "t = 0" | "t = pi / 2" | "t = pi" | "t = 3 * pi / 2"
  using assms by (auto simp: STRAIGHT_ANGLES_def)

lemma normalize_straight:
  assumes "t \<in> set STRAIGHT_ANGLES"
  shows "normalizeAlpha t = t"
  using assms
proof (cases rule: straight_cases)
  case 1
  show ?thesis unfolding 1 by (simp add: normalizeAlpha_id)
next
  case 2
  show ?thesis unfolding 2 by (simp add: normalizeAlpha_id)
next
  case 3
  show ?thesis unfolding 3 by (simp add: normalizeAlpha_id)
next
  case 4
  show ?thesis unfolding 4 by (simp add: normalizeAlpha_id)
qed

lemma center_of_straight:
  "snapToNearest 0 QUADRANT_CENTERS = Some (pi / 4)"
  "snapToNearest (pi / 2) QUADRANT_CENTERS = Some (pi / 4)"
  "snapToNearest pi QUADRANT_CENTERS = Some (3 * pi / 4)"
  "snapToNearest (3 * pi / 2) QUADRANT_CENTERS = Some (5 * pi / 4)"
proof -
  have n: "normalizeAlpha 0 = 0" "normalizeAlpha (pi / 2) = pi / 2" "normalizeAlpha pi = pi"
    "normalizeAlpha (3 * pi / 2) = 3 * pi / 2"
    by (simp_all add: normalizeAlpha_id)
  show "snapToNearest 0 QUADRANT_CENTERS = Some (pi / 4)"
    by (simp add: snapToNearest_def n QUADRANT_CENTERS_def angularDiff_def lt_minDiff_def Let_def)
  show "snapToNearest (pi / 2) QUADRANT_CENTERS = Some (pi / 4)"
    by (simp add: snapToNearest_def n QUADRANT_CENTERS_def angularDiff_def lt_minDiff_def Let_def)
  show "snapToNearest pi QUADRANT_CENTERS = Some (3 * pi / 4)"
    by (simp add: snapToNearest_def n QUADRANT_CENTERS_def angularDiff_def lt_minDiff_def Let_def)
  show "snapToNearest (3 * pi / 2) QUADRANT_CENTERS = Some (5 * pi / 4)"
    by (simp add: snapToNearest_def n QUADRANT_CENTERS_def angularDiff_def lt_minDiff_def Let_def)
qed


lemma center_table:
  assumes "t \<in> set STRAIGHT_ANGLES"
  shows "snapToNearest t QUADRANT_CENTERS
    = Some (if t = 0 \<or> t = pi / 2 then pi / 4 else if t = pi then 3 * pi / 4 else 5 * pi / 4)"
  using assms
proof (cases rule: straight_cases)
  case 1
  show ?thesis unfolding 1 by (simp add: center_of_straight)
next
  case 2
  show ?thesis unfolding 2 by (simp add: center_of_straight)
next
  case 3
  show ?thesis unfolding 3 by (simp add: center_of_straight)
next
  case 4
  show ?thesis unfolding 4 by (simp add: center_of_straight)
qed

lemma normalizeAlpha_spec:
  "0 \<le> normalizeAlpha a \<and> normalizeAlpha a < 2 * pi
   \<and> (\<exists>k::int. normalizeAlpha a = a - 2 * pi * of_int k)"
proof -
  define y where "y = 2 * pi"
  define z where "z = a / y"
  have y: "0 < y" by (simp add: y_def)
  have a: "a = y * z" using y by (simp add: z_def)
  show ?thesis
  proof (cases "0 \<le> z")
    case True
    define t where "t = z - of_int \<lfloor>z\<rfloor>"
    have t: "0 \<le> t" "t < 1" unfolding t_def by linarith+
    have r: "js_rem a y = y * t"
      using True by (simp add: js_rem_def js_trunc_def z_def [symmetric] a t_def algebra_simps)
    have "0 \<le> y * t" using y t(1) by simp
    moreover have "y * t < y" using y t(2) by simp
    moreover have "y * t = a - y * of_int \<lfloor>z\<rfloor>" by (simp add: a t_def algebra_simps)
    ultimately have "0 \<le> normalizeAlpha a \<and> normalizeAlpha a < y
        \<and> normalizeAlpha a = a - y * of_int \<lfloor>z\<rfloor>"
      using r by (simp add: normalizeAlpha_def Let_def y_def [symmetric])
    then show ?thesis unfolding y_def by blast
  next
    case False
    define t where "t = z - of_int \<lceil>z\<rceil>"
    have t: "- 1 < t" "t \<le> 0" unfolding t_def by linarith+
    have r: "js_rem a y = y * t"
      using False by (simp add: js_rem_def js_trunc_def z_def [symmetric] a t_def algebra_simps)
    show ?thesis
    proof (cases "t < 0")
      case True
      then have neg: "y * t < 0" using y by (simp add: mult_less_0_iff)
      have "- y < y * t" using y t(1) by (metis mult.right_neutral mult_minus_right
            mult_less_cancel_left_pos)
      then have "0 \<le> y * t + y" by simp
      moreover have "y * t + y < y" using neg by simp
      moreover have "y * t + y = a - y * of_int (\<lceil>z\<rceil> - 1)"
        by (simp add: a t_def algebra_simps)
      ultimately have "0 \<le> normalizeAlpha a \<and> normalizeAlpha a < y
          \<and> normalizeAlpha a = a - y * of_int (\<lceil>z\<rceil> - 1)"
        using r neg by (simp add: normalizeAlpha_def Let_def y_def [symmetric])
      then show ?thesis unfolding y_def by blast
    next
      case False
      with t(2) have t0: "t = 0" by simp
      have "(0::real) = a - y * of_int \<lceil>z\<rceil>" using t0 by (simp add: a t_def algebra_simps)
      then have "0 \<le> normalizeAlpha a \<and> normalizeAlpha a < y
          \<and> normalizeAlpha a = a - y * of_int \<lceil>z\<rceil>"
        using r t0 y by (simp add: normalizeAlpha_def Let_def y_def [symmetric])
      then show ?thesis unfolding y_def by blast
    qed
  qed
qed

lemma reachable_frame:
  obtains s' c' a1 tgt where
    "cameraFrame p now c s = Inr s'" "camera s' = Some c'"
    "alphaStep (transitionProgressOf p) (lastTransitionProgress s)
        (transitionTargetAlpha s) (alpha c) = Inr (a1, tgt)"
    "alpha c' = (if idleNow p now s then a1 + IDLE_ROTATION_SPEED else a1)"
    "isIdleRotating s' = idleNow p now s"
    "transitionTargetAlpha s' = tgt"
    "lastTransitionProgress s' = Finite (transitionProgressOf p)"
    "isOrthoView s' = (transitionProgressOf p < 0.1)"
proof -
  obtain a1 tgt where a: "alphaStep (transitionProgressOf p) (lastTransitionProgress s)
        (transitionTargetAlpha s) (alpha c) = Inr (a1, tgt)"
    using alphaStep_succeeds by blast
  from cameraFrame_result [OF a, of now] that [OF _ _ a] show thesis by blast
qed

lemma frame_transition_target:
  assumes r: "reachable s" and c: "camera s = Some c"
  shows "\<exists>s' c' straight center.
      cameraFrame p now c s = Inr s' \<and> camera s' = Some c'
    \<and> lastTransitionProgress s' = Finite (transitionProgressOf p)
    \<and> snapToNearest (alpha c) STRAIGHT_ANGLES = Some straight
    \<and> straight \<in> set STRAIGHT_ANGLES
    \<and> snapToNearest straight QUADRANT_CENTERS = Some center
    \<and> center \<in> set QUADRANT_CENTERS
    \<and> center = (if straight = 0 \<or> straight = pi / 2 then pi / 4
                 else if straight = pi then 3 * pi / 4 else 5 * pi / 4)
    \<and> (transitionProgressOf p < 0.1 \<or> transitionProgressOf p = 1
          \<longrightarrow> transitionTargetAlpha s' = None)
    \<and> (js_lt (lastTransitionProgress s) (Finite 0.1)
          \<and> 0.1 \<le> transitionProgressOf p \<and> transitionProgressOf p < 1
          \<longrightarrow> transitionTargetAlpha s' = Some center
              \<and> alpha c' = lerp (alpha c) center 0.08)
    \<and> (\<not> js_lt (lastTransitionProgress s) (Finite 0.1)
          \<and> 0.1 \<le> transitionProgressOf p \<and> transitionProgressOf p < 1
          \<longrightarrow> transitionTargetAlpha s' = transitionTargetAlpha s
              \<and> (\<forall>t. transitionTargetAlpha s = Some t \<longrightarrow> alpha c' = lerp (alpha c) t 0.08)
              \<and> (transitionTargetAlpha s = None \<longrightarrow> alpha c' = alpha c))"
proof -
  define tp where "tp = transitionProgressOf p"
  obtain straight where st: "snapToNearest (alpha c) STRAIGHT_ANGLES = Some straight"
      "straight \<in> set STRAIGHT_ANGLES" using snap_straight by blast
  obtain center where ce: "snapToNearest straight QUADRANT_CENTERS = Some center"
      "center \<in> set QUADRANT_CENTERS" using snap_center by blast
  have tab: "center = (if straight = 0 \<or> straight = pi / 2 then pi / 4
                 else if straight = pi then 3 * pi / 4 else 5 * pi / 4)"
    using center_table [OF st(2)] ce(1) by simp
  obtain s' c' a1 tgt where f:
    "cameraFrame p now c s = Inr s'" "camera s' = Some c'"
    "alphaStep tp (lastTransitionProgress s) (transitionTargetAlpha s) (alpha c) = Inr (a1, tgt)"
    "alpha c' = (if idleNow p now s then a1 + IDLE_ROTATION_SPEED else a1)"
    "transitionTargetAlpha s' = tgt"
    "lastTransitionProgress s' = Finite tp"
    unfolding tp_def by (rule reachable_frame)
  have inv: "js_lt (lastTransitionProgress s) (Finite 0.1) \<longrightarrow> transitionTargetAlpha s = None"
    using reachable_invariants [OF r] by simp
  have noidle: "tp < 1 \<Longrightarrow> \<not> idleNow p now s"
    using transitionProgressOf_below_one [of p] by (simp add: tp_def idleNow_def)
  have range: "tp \<le> 1" using transitionProgressOf_range [of p] by (simp add: tp_def)
  have 1: "tp < 0.1 \<or> tp = 1 \<longrightarrow> transitionTargetAlpha s' = None"
  proof
    assume "tp < 0.1 \<or> tp = 1"
    then show "transitionTargetAlpha s' = None"
    proof
      assume "tp < 0.1"
      from alphaStep_target_ortho [OF f(3) this] show ?thesis by (simp add: f(5))
    next
      assume "tp = 1"
      then have "alphaStep tp (lastTransitionProgress s) (transitionTargetAlpha s) (alpha c)
          = Inr (alpha c, None)" by (simp add: alphaStep_perspective)
      with f(3) show ?thesis by (simp add: f(5))
    qed
  qed
  have 2: "js_lt (lastTransitionProgress s) (Finite 0.1) \<and> 0.1 \<le> tp \<and> tp < 1
          \<longrightarrow> transitionTargetAlpha s' = Some center \<and> alpha c' = lerp (alpha c) center 0.08"
  proof
    assume h: "js_lt (lastTransitionProgress s) (Finite 0.1) \<and> 0.1 \<le> tp \<and> tp < 1"
    then have "transitionTargetAlpha s = None" using inv by simp
    with h have "alphaStep tp (lastTransitionProgress s) (transitionTargetAlpha s) (alpha c)
          = Inr (lerp (alpha c) center 0.08, Some center)"
      using alphaStep_capture [OF _ _ _ _ st(1) ce(1)] by simp
    with f(3) have "a1 = lerp (alpha c) center 0.08" "tgt = Some center" by simp_all
    with f(4,5) noidle h
    show "transitionTargetAlpha s' = Some center \<and> alpha c' = lerp (alpha c) center 0.08"
      by simp
  qed
  have 3: "\<not> js_lt (lastTransitionProgress s) (Finite 0.1) \<and> 0.1 \<le> tp \<and> tp < 1
          \<longrightarrow> transitionTargetAlpha s' = transitionTargetAlpha s
              \<and> (\<forall>t. transitionTargetAlpha s = Some t \<longrightarrow> alpha c' = lerp (alpha c) t 0.08)
              \<and> (transitionTargetAlpha s = None \<longrightarrow> alpha c' = alpha c)"
  proof
    assume h: "\<not> js_lt (lastTransitionProgress s) (Finite 0.1) \<and> 0.1 \<le> tp \<and> tp < 1"
    then have k: "alphaStep tp (lastTransitionProgress s) (transitionTargetAlpha s) (alpha c)
          = (case transitionTargetAlpha s of None \<Rightarrow> Inr (alpha c, None)
             | Some t \<Rightarrow> Inr (lerp (alpha c) t 0.08, Some t))"
      using alphaStep_keep [of tp "lastTransitionProgress s"] by simp
    show "transitionTargetAlpha s' = transitionTargetAlpha s
              \<and> (\<forall>t. transitionTargetAlpha s = Some t \<longrightarrow> alpha c' = lerp (alpha c) t 0.08)
              \<and> (transitionTargetAlpha s = None \<longrightarrow> alpha c' = alpha c)"
    proof (cases "transitionTargetAlpha s")
      case None
      with k f(3) have "tgt = None" "a1 = alpha c" by simp_all
      with None f(4,5) noidle h show ?thesis by simp
    next
      case (Some t)
      with k f(3) have "a1 = lerp (alpha c) t 0.08" "tgt = Some t" by simp_all
      with Some f(4,5) noidle h show ?thesis by simp
    qed
  qed
  from f(1,2,6) st ce tab 1 2 3
  have "cameraFrame p now c s = Inr s' \<and> camera s' = Some c'
    \<and> lastTransitionProgress s' = Finite tp
    \<and> snapToNearest (alpha c) STRAIGHT_ANGLES = Some straight
    \<and> straight \<in> set STRAIGHT_ANGLES
    \<and> snapToNearest straight QUADRANT_CENTERS = Some center
    \<and> center \<in> set QUADRANT_CENTERS
    \<and> center = (if straight = 0 \<or> straight = pi / 2 then pi / 4
                 else if straight = pi then 3 * pi / 4 else 5 * pi / 4)
    \<and> (tp < 0.1 \<or> tp = 1 \<longrightarrow> transitionTargetAlpha s' = None)
    \<and> (js_lt (lastTransitionProgress s) (Finite 0.1) \<and> 0.1 \<le> tp \<and> tp < 1
          \<longrightarrow> transitionTargetAlpha s' = Some center
              \<and> alpha c' = lerp (alpha c) center 0.08)
    \<and> (\<not> js_lt (lastTransitionProgress s) (Finite 0.1) \<and> 0.1 \<le> tp \<and> tp < 1
          \<longrightarrow> transitionTargetAlpha s' = transitionTargetAlpha s
              \<and> (\<forall>t. transitionTargetAlpha s = Some t \<longrightarrow> alpha c' = lerp (alpha c) t 0.08)
              \<and> (transitionTargetAlpha s = None \<longrightarrow> alpha c' = alpha c))"
    by (intro conjI)
  then show ?thesis unfolding tp_def by (intro exI)
qed

section \<open>Furniture, walls and the load phase\<close>

lemma loadedScene_reachable: "reachable loadedScene"
  unfolding loadedScene_def
  by (intro reachable.furniture reachable.model reachable.scene reachable.start)
     (simp_all add: initialState_def)

lemma loadedScene_fields:
  "camera loadedScene = Some initialCamera"
  "isOrthoView loadedScene"
  "\<not> isToggleMode loadedScene"
  "lastTransitionProgress loadedScene = Finite 0"
  "transitionTargetAlpha loadedScene = None"
  "lastInteractionTime loadedScene = 0"
  "currentFurnitureIndex loadedScene = 0"
  by (simp_all add: loadedScene_def furnitureLoaded_def modelLoaded_def hideAllWalls_eq
      createScene_def initialState_def)

lemma loadedScene_walls:
  "wallMeshes loadedScene d = [sampleMesh\<lparr>enabled := False\<rparr>]"
  by (simp add: loadedScene_def furnitureLoaded_def modelLoaded_def hideAllWalls_eq
      createScene_def initialState_def)

lemma loadedScene_furniture:
  "\<not> furnitureSetEnabled loadedScene k"
  by (cases k) (simp_all add: furnitureSetEnabled_def loadedScene_def furnitureLoaded_def
      modelLoaded_def hideAllWalls_eq createScene_def initialState_def)

lemma pageAt_frame:
  assumes "camera s = Some c" "0 \<le> p" "p \<le> 1"
  shows "updateCameraFromScroll (pageAt p) now s = cameraFrame p now c s"
  using assms
  by (simp add: updateCameraFromScroll_def pageAt_def scrollProgress_def js_div_def
      clamp_js_def Let_def)

lemma getQuadrant_initial: "getQuadrant (pi / 2) = 2"
proof -
  have e: "js_rem (pi / 2) (2 * pi) = pi / 2" by (rule js_rem_small) simp_all
  show ?thesis unfolding getQuadrant_def Let_def e by simp
qed

lemma cycles_zero: "cycles acts = 0 \<longleftrightarrow> CycleFurniture \<notin> set acts"
  by (induction acts rule: cycles.induct) auto

lemma furnitureInv_exclusive:
  assumes "furnitureInv s"
  shows "(\<forall>k k'. furnitureSetEnabled s k \<and> furnitureSetEnabled s k' \<longrightarrow> k = k')
       \<and> (\<forall>k. furnitureSetEnabled s k \<longrightarrow> isToggleMode s \<and> currentOption s = Some k)
       \<and> (\<not> isToggleMode s \<longrightarrow> (\<forall>k. \<not> furnitureSetEnabled s k))"
proof -
  have a: "\<And>k. furnitureSetEnabled s k \<Longrightarrow> isToggleMode s \<and> currentOption s = Some k"
    using assms by (auto simp: furnitureInv_def furnitureSetEnabled_def)
  then have "\<And>k k'. furnitureSetEnabled s k \<Longrightarrow> furnitureSetEnabled s k' \<Longrightarrow> k = k'"
    by (metis option.inject)
  with a show ?thesis by blast
qed

lemma currentOption_cycle:
  "currentOption (cycleFurniture s) = FURNITURE_OPTIONS ! ((currentFurnitureIndex s + 1) mod 4)"
  by (simp add: currentOption_def FURNITURE_OPTIONS_def)

text \<open>
  Claim C7. From a load state (toggle mode off, every furniture mesh disabled), after any
  sequence of cycle-furniture and toggle-mode actions, a furniture mesh is enabled exactly
  when toggle mode is on and its set is the selected one; so at most one of the three
  furniture sets has an enabled mesh, and with toggle mode off no set is enabled. Each cycle
  action advances the selection by one through the four options (three sets and none),
  wrapping around.
\<close>

theorem furniture_mutual_exclusion:
  "(\<not> isToggleMode s0 \<and> (\<forall>k. \<not> furnitureSetEnabled s0 k) \<and> (isOrthoView s0 \<or> camera s0 \<noteq> None)
      \<longrightarrow> (\<exists>s. runActions acts s0 = Inr s
            \<and> furnitureInv s
            \<and> (\<forall>k k'. furnitureSetEnabled s k \<and> furnitureSetEnabled s k' \<longrightarrow> k = k')
            \<and> (\<forall>k. furnitureSetEnabled s k \<longrightarrow> isToggleMode s \<and> currentOption s = Some k)
            \<and> (\<not> isToggleMode s \<longrightarrow> (\<forall>k. \<not> furnitureSetEnabled s k))
            \<and> currentFurnitureIndex s
                = (if cycles acts = 0 then currentFurnitureIndex s0
                   else (currentFurnitureIndex s0 + cycles acts) mod 4)))
   \<and> currentFurnitureIndex (cycleFurniture s) = (currentFurnitureIndex s + 1) mod 4
   \<and> currentOption (cycleFurniture s) = FURNITURE_OPTIONS ! ((currentFurnitureIndex s + 1) mod 4)
   \<and> FURNITURE_OPTIONS = [Some Furniture1, Some Furniture2, Some Furniture3, None]"
proof (intro conjI impI)
  assume h: "\<not> isToggleMode s0 \<and> (\<forall>k. \<not> furnitureSetEnabled s0 k)
               \<and> (isOrthoView s0 \<or> camera s0 \<noteq> None)"
  then have inv: "furnitureInv s0" by (auto simp: furnitureInv_def furnitureSetEnabled_def)
  from h have c: "isOrthoView s0 \<or> camera s0 \<noteq> None" by simp
  from runActions_inv [OF inv c, of acts] obtain s where s: "runActions acts s0 = Inr s"
      "furnitureInv s"
      "CycleFurniture \<in> set acts \<longrightarrow>
                 currentFurnitureIndex s = (currentFurnitureIndex s0 + cycles acts) mod 4"
      "CycleFurniture \<notin> set acts \<longrightarrow> currentFurnitureIndex s = currentFurnitureIndex s0"
    by blast
  have "currentFurnitureIndex s
                = (if cycles acts = 0 then currentFurnitureIndex s0
                   else (currentFurnitureIndex s0 + cycles acts) mod 4)"
    using s(3,4) by (simp add: cycles_zero)
  with s(1,2) furnitureInv_exclusive [OF s(2)]
  show "\<exists>s. runActions acts s0 = Inr s
            \<and> furnitureInv s
            \<and> (\<forall>k k'. furnitureSetEnabled s k \<and> furnitureSetEnabled s k' \<longrightarrow> k = k')
            \<and> (\<forall>k. furnitureSetEnabled s k \<longrightarrow> isToggleMode s \<and> currentOption s = Some k)
            \<and> (\<not> isToggleMode s \<longrightarrow> (\<forall>k. \<not> furnitureSetEnabled s k))
            \<and> currentFurnitureIndex s
                = (if cycles acts = 0 then currentFurnitureIndex s0
                   else (currentFurnitureIndex s0 + cycles acts) mod 4)"
    by blast
qed (simp_all add: currentOption_cycle FURNITURE_OPTIONS_def)

theorem furniture_mutual_exclusion_witness:
  "\<not> isToggleMode loadedScene \<and> (\<forall>k. \<not> furnitureSetEnabled loadedScene k)
   \<and> camera loadedScene \<noteq> None
   \<and> (\<exists>s. runActions [ToggleMode, CycleFurniture] loadedScene = Inr s
          \<and> currentFurnitureIndex s = 1
          \<and> \<not> furnitureSetEnabled s Furniture1 \<and> \<not> furnitureSetEnabled s Furniture3)"
proof -
  have h: "\<not> isToggleMode loadedScene \<and> (\<forall>k. \<not> furnitureSetEnabled loadedScene k)
   \<and> (isOrthoView loadedScene \<or> camera loadedScene \<noteq> None)"
    by (simp add: loadedScene_fields loadedScene_furniture)
  note t = furniture_mutual_exclusion [of loadedScene "[ToggleMode, CycleFurniture]" loadedScene,
      THEN conjunct1, THEN mp, OF h]
  then obtain s where s: "runActions [ToggleMode, CycleFurniture] loadedScene = Inr s"
    "\<forall>k. furnitureSetEnabled s k \<longrightarrow> isToggleMode s \<and> currentOption s = Some k"
    "currentFurnitureIndex s
       = (if cycles [ToggleMode, CycleFurniture] = 0 then currentFurnitureIndex loadedScene
          else (currentFurnitureIndex loadedScene + cycles [ToggleMode, CycleFurniture]) mod 4)"
    by blast
  have i: "currentFurnitureIndex s = 1" using s(3) by (simp add: loadedScene_fields)
  have "currentOption s = Some Furniture2"
    by (simp add: currentOption_def i FURNITURE_OPTIONS_def)
  with s(2) have "\<not> furnitureSetEnabled s Furniture1 \<and> \<not> furnitureSetEnabled s Furniture3"
    by auto
  with s(1) i have "\<exists>s. runActions [ToggleMode, CycleFurniture] loadedScene = Inr s
          \<and> currentFurnitureIndex s = 1
          \<and> \<not> furnitureSetEnabled s Furniture1 \<and> \<not> furnitureSetEnabled s Furniture3"
    by blast
  with h show ?thesis by (simp add: loadedScene_fields)
qed

text \<open>
  Claim C5. The enabled flags that \<open>updateWallVisibilityForMode\<close> leaves on the four wall
  groups are the specification's function of the view mode, the toggle mode and the quadrant
  of the azimuth: in ortho view all four groups are disabled; in perspective view with the
  toggle off all four are enabled; in perspective view with the toggle on quadrant 1 hides
  west and south (north and east stay visible), quadrant 2 hides south and east, quadrant 3
  hides east and north (west and south stay visible), quadrant 4 hides north and west.
\<close>

theorem wall_visibility_table:
  "(isOrthoView s \<or> \<not> isToggleMode s \<or> camera s = Some c \<longrightarrow>
      (\<exists>s'. updateWallVisibilityForMode s = Inr s'
           \<and> (\<forall>d. map enabled (wallMeshes s' d)
                  = replicate (length (wallMeshes s d))
                      (spec_wallVisible (isOrthoView s) (isToggleMode s) (getQuadrant (alpha c)) d))))
   \<and> (\<forall>d. map enabled (wallMeshes (updateMeshVisibility q s) d)
             = replicate (length (wallMeshes s d)) (spec_wallVisible False True q d))
   \<and> getQuadrant a \<in> {1, 2, 3, 4}
   \<and> {d. spec_wallVisible True toggle q d} = {}
   \<and> {d. spec_wallVisible False False q d} = UNIV
   \<and> {d. \<not> spec_wallVisible False True 1 d} = {West, South}
   \<and> {d. spec_wallVisible False True 1 d} = {North, East}
   \<and> {d. \<not> spec_wallVisible False True 2 d} = {South, East}
   \<and> {d. \<not> spec_wallVisible False True 3 d} = {East, North}
   \<and> {d. spec_wallVisible False True 3 d} = {West, South}
   \<and> {d. \<not> spec_wallVisible False True 4 d} = {North, West}"
proof -
  have t: "{d. \<not> spec_wallVisible False True 1 d} = {West, South}"
    "{d. spec_wallVisible False True 1 d} = {North, East}"
    "{d. \<not> spec_wallVisible False True 2 d} = {South, East}"
    "{d. \<not> spec_wallVisible False True 3 d} = {East, North}"
    "{d. spec_wallVisible False True 3 d} = {West, South}"
    "{d. \<not> spec_wallVisible False True 4 d} = {North, West}"
    by (auto simp: spec_wallVisible_def direction_sets)
  have o: "{d. spec_wallVisible True toggle q d} = {}" "{d. spec_wallVisible False False q d} = UNIV"
    by (simp_all add: spec_wallVisible_def)
  have m: "\<forall>d. map enabled (wallMeshes (updateMeshVisibility q s) d)
             = replicate (length (wallMeshes s d)) (spec_wallVisible False True q d)"
    by (simp add: updateMeshVisibility_enabled spec_wallVisible_def del: spec_hidden.simps)
  show ?thesis
    using wall_visibility_refines [of s c] getQuadrant_range [of a] t o m by blast
qed


theorem wall_visibility_table_witness:
  "\<not> isOrthoView (loadedScene\<lparr>isOrthoView := False, isToggleMode := True\<rparr>)
   \<and> isToggleMode (loadedScene\<lparr>isOrthoView := False, isToggleMode := True\<rparr>)
   \<and> camera (loadedScene\<lparr>isOrthoView := False, isToggleMode := True\<rparr>) = Some initialCamera
   \<and> getQuadrant (alpha initialCamera) = 2
   \<and> (\<exists>s'. updateWallVisibilityForMode (loadedScene\<lparr>isOrthoView := False, isToggleMode := True\<rparr>)
               = Inr s'
          \<and> map enabled (wallMeshes s' North) = [True]
          \<and> map enabled (wallMeshes s' South) = [False]
          \<and> map enabled (wallMeshes s' East) = [False]
          \<and> map enabled (wallMeshes s' West) = [True])"
proof -
  let ?s = "loadedScene\<lparr>isOrthoView := False, isToggleMode := True\<rparr>"
  have c: "camera ?s = Some initialCamera" by (simp add: loadedScene_fields)
  have q: "getQuadrant (alpha initialCamera) = 2"
    by (simp add: initialCamera_def getQuadrant_initial)
  have h: "isOrthoView ?s \<or> \<not> isToggleMode ?s \<or> camera ?s = Some initialCamera"
    using c by simp
  note t = wall_visibility_table [of ?s initialCamera, THEN conjunct1, THEN mp, OF h]
  then obtain s' where s': "updateWallVisibilityForMode ?s = Inr s'"
    "\<forall>d. map enabled (wallMeshes s' d)
                  = replicate (length (wallMeshes ?s d))
                      (spec_wallVisible (isOrthoView ?s) (isToggleMode ?s)
                         (getQuadrant (alpha initialCamera)) d)"
    by blast
  have "map enabled (wallMeshes s' North) = [True]" "map enabled (wallMeshes s' South) = [False]"
    "map enabled (wallMeshes s' East) = [False]" "map enabled (wallMeshes s' West) = [True]"
    by (simp_all add: s'(2) q loadedScene_walls spec_wallVisible_def)
  with s'(1) have "updateWallVisibilityForMode ?s = Inr s'
          \<and> map enabled (wallMeshes s' North) = [True]
          \<and> map enabled (wallMeshes s' South) = [False]
          \<and> map enabled (wallMeshes s' East) = [False]
          \<and> map enabled (wallMeshes s' West) = [True]" by simp
  then have "\<exists>s'. updateWallVisibilityForMode ?s = Inr s'
          \<and> map enabled (wallMeshes s' North) = [True]
          \<and> map enabled (wallMeshes s' South) = [False]
          \<and> map enabled (wallMeshes s' East) = [False]
          \<and> map enabled (wallMeshes s' West) = [True]" by (rule exI)
  with c q show ?thesis by simp
qed

lemma toggleMode_ortho:
  assumes "isOrthoView s"
  shows "toggleMode s = Inr (updateFurnitureVisibility (hideAllWalls
           (updateAccentEmission (\<not> isToggleMode s) (s\<lparr>isToggleMode := \<not> isToggleMode s\<rparr>))))"
  using assms by (simp add: toggleMode_def updateWallVisibilityForMode_def Let_def)

lemma hideAllWalls_disabled: "m \<in> set (wallMeshes (hideAllWalls s) d) \<Longrightarrow> \<not> enabled m"
  by (auto simp: hideAllWalls_eq)

text \<open>
  Claim C10. In every reachable state, a null camera implies the ortho view: the frame
  update returns early and leaves the state alone, and \<open>toggleMode\<close> takes the branch that
  hides all walls, never the branch that reads \<open>camera.alpha\<close>. In no reachable state does
  \<open>toggleMode\<close> read a property of a null camera.
\<close>

theorem camera_null_implies_ortho:
  "reachable s \<longrightarrow>
     (camera s = None \<longrightarrow>
        isOrthoView s
      \<and> updateCameraFromScroll pg now s = Inr s
      \<and> toggleMode s = Inr (updateFurnitureVisibility (hideAllWalls
           (updateAccentEmission (\<not> isToggleMode s) (s\<lparr>isToggleMode := \<not> isToggleMode s\<rparr>))))
      \<and> (\<exists>s'. toggleMode s = Inr s' \<and> camera s' = None \<and> isOrthoView s'
             \<and> (\<forall>d. \<forall>m\<in>set (wallMeshes s' d). \<not> enabled m)))
     \<and> toggleMode s \<noteq> Inl TypeError"
proof
  assume r: "reachable s"
  note inv = reachable_invariants [OF r]
  have ok: "isOrthoView s \<or> camera s \<noteq> None" using inv by blast
  from toggleMode_succeeds [OF ok] have 2: "toggleMode s \<noteq> Inl TypeError" by auto
  have 1: "camera s = None \<longrightarrow>
        isOrthoView s
      \<and> updateCameraFromScroll pg now s = Inr s
      \<and> toggleMode s = Inr (updateFurnitureVisibility (hideAllWalls
           (updateAccentEmission (\<not> isToggleMode s) (s\<lparr>isToggleMode := \<not> isToggleMode s\<rparr>))))
      \<and> (\<exists>s'. toggleMode s = Inr s' \<and> camera s' = None \<and> isOrthoView s'
             \<and> (\<forall>d. \<forall>m\<in>set (wallMeshes s' d). \<not> enabled m))"
  proof
    assume n: "camera s = None"
    then have o: "isOrthoView s" using inv by blast
    let ?s' = "updateFurnitureVisibility (hideAllWalls
           (updateAccentEmission (\<not> isToggleMode s) (s\<lparr>isToggleMode := \<not> isToggleMode s\<rparr>)))"
    have t: "toggleMode s = Inr ?s'" using o by (rule toggleMode_ortho)
    have f: "camera ?s' = None" "isOrthoView ?s'"
      using toggleMode_fields(1,2) [OF t] n o by simp_all
    have w: "\<forall>d. \<forall>m\<in>set (wallMeshes ?s' d). \<not> enabled m"
      by (auto dest: hideAllWalls_disabled)
    have u: "updateCameraFromScroll pg now s = Inr s"
      using n by (simp add: updateCameraFromScroll_def)
    have "toggleMode s = Inr ?s' \<and> camera ?s' = None \<and> isOrthoView ?s'
             \<and> (\<forall>d. \<forall>m\<in>set (wallMeshes ?s' d). \<not> enabled m)"
      using t f w by simp
    then have e: "\<exists>s'. toggleMode s = Inr s' \<and> camera s' = None \<and> isOrthoView s'
             \<and> (\<forall>d. \<forall>m\<in>set (wallMeshes s' d). \<not> enabled m)" by (rule exI)
    show "isOrthoView s
      \<and> updateCameraFromScroll pg now s = Inr s
      \<and> toggleMode s = Inr ?s'
      \<and> (\<exists>s'. toggleMode s = Inr s' \<and> camera s' = None \<and> isOrthoView s'
             \<and> (\<forall>d. \<forall>m\<in>set (wallMeshes s' d). \<not> enabled m))"
      using o u t e by (intro conjI)
  qed
  from 1 2 show "(camera s = None \<longrightarrow>
        isOrthoView s
      \<and> updateCameraFromScroll pg now s = Inr s
      \<and> toggleMode s = Inr (updateFurnitureVisibility (hideAllWalls
           (updateAccentEmission (\<not> isToggleMode s) (s\<lparr>isToggleMode := \<not> isToggleMode s\<rparr>))))
      \<and> (\<exists>s'. toggleMode s = Inr s' \<and> camera s' = None \<and> isOrthoView s'
             \<and> (\<forall>d. \<forall>m\<in>set (wallMeshes s' d). \<not> enabled m)))
     \<and> toggleMode s \<noteq> Inl TypeError" by (rule conjI)
qed

theorem camera_null_implies_ortho_witness:
  "reachable (initialState 0) \<and> camera (initialState 0) = None
   \<and> isOrthoView (initialState 0)
   \<and> (\<exists>s'. toggleMode (initialState 0) = Inr s' \<and> camera s' = None \<and> isOrthoView s')
   \<and> toggleMode (initialState 0) \<noteq> Inl TypeError"
proof -
  have r: "reachable (initialState 0)" by (rule reachable.start)
  have n: "camera (initialState 0) = None" by (simp add: initialState_def)
  note t = camera_null_implies_ortho [of "initialState 0", THEN mp, OF r]
  from t have 2: "toggleMode (initialState 0) \<noteq> Inl TypeError" by (rule conjunct2)
  from t n have 1: "isOrthoView (initialState 0)
      \<and> updateCameraFromScroll pg now (initialState 0) = Inr (initialState 0)
      \<and> toggleMode (initialState 0) = Inr (updateFurnitureVisibility (hideAllWalls
           (updateAccentEmission (\<not> isToggleMode (initialState 0))
              ((initialState 0)\<lparr>isToggleMode := \<not> isToggleMode (initialState 0)\<rparr>))))
      \<and> (\<exists>s'. toggleMode (initialState 0) = Inr s' \<and> camera s' = None \<and> isOrthoView s'
             \<and> (\<forall>d. \<forall>m\<in>set (wallMeshes s' d). \<not> enabled m))"
    by (rule mp [OF conjunct1])
  then obtain s' where "toggleMode (initialState 0) = Inr s'" "camera s' = None" "isOrthoView s'"
    by (elim conjE exE)
  then have "toggleMode (initialState 0) = Inr s' \<and> camera s' = None \<and> isOrthoView s'" by simp
  then have "\<exists>s'. toggleMode (initialState 0) = Inr s' \<and> camera s' = None \<and> isOrthoView s'"
    by (rule exI)
  with 1 2 r n show ?thesis by simp
qed

section \<open>Radius, idle rotation and transition target\<close>

lemma apparentSize_finite:
  assumes "fov c = Finite g" "0 < g" "g < pi"
    "radius c = js_quot (Finite APPARENT_SIZE_CONSTANT) (js_tan (js_quot (fov c) (Finite 2)))"
  shows "radius c = Finite (APPARENT_SIZE_CONSTANT / tan (g / 2))"
    "apparentSize c = Finite APPARENT_SIZE_CONSTANT"
proof -
  have t: "0 < tan (g / 2)" using assms(2,3) by (rule tan_half_pos)
  have k: "0 < cos (g / 2)" using assms(2,3) by (rule cos_half_pos)
  have h: "js_tan (js_quot (fov c) (Finite 2)) = Finite (tan (g / 2))"
    using k by (simp add: assms(1) js_div_def js_tan_def)
  show r: "radius c = Finite (APPARENT_SIZE_CONSTANT / tan (g / 2))"
    using t by (simp add: assms(4) h js_div_def)
  show "apparentSize c = Finite APPARENT_SIZE_CONSTANT"
    using t by (simp add: apparentSize_def r h)
qed

text \<open>On a finite progress, from a camera whose field of view is a number in \<open>(0, \<pi>)\<close>,
  the frame keeps the product \<open>radius * tan (fov / 2)\<close> at the constant.\<close>

lemma frame_radius:
  assumes f: "fov c = Finite f" "0 < f" "f < pi"
  shows "\<exists>s' c' g. cameraFrame p now c s = Inr s' \<and> camera s' = Some c'
        \<and> g = f + (0.05 + 0.29 * min (max (p / 0.33) 0) 1 - f) * 0.08
        \<and> fov c' = Finite g \<and> 0 < g \<and> g < pi
        \<and> radius c' = Finite (APPARENT_SIZE_CONSTANT / tan (g / 2))
        \<and> apparentSize c' = Finite APPARENT_SIZE_CONSTANT
        \<and> lowerRadiusLimit c' = radius c' \<and> upperRadiusLimit c' = radius c'"
proof -
  define tp where "tp = transitionProgressOf p"
  define g where "g = f + (0.05 + 0.29 * tp - f) * 0.08"
  have tp: "0 \<le> tp" "tp \<le> 1" using transitionProgressOf_range [of p] by (simp_all add: tp_def)
  have sm: "smoothedFov (Finite tp) c = Finite g"
    unfolding g_def using f(1) by (rule smoothedFov_weighted)
  from smoothedFov_open [OF f tp] have o: "0 < g" "g < pi" by (simp_all add: sm)
  obtain a1 tgt where a: "alphaStep (transitionProgressOf p) (lastTransitionProgress s)
        (transitionTargetAlpha s) (alpha c) = Inr (a1, tgt)"
    using alphaStep_succeeds by blast
  from cameraFrame_result [OF a, of now] obtain s' c' where r:
    "cameraFrame p now c s = Inr s'" "camera s' = Some c'"
    "fov c' = smoothedFov (Finite (transitionProgressOf p)) c"
    "radius c' = js_quot (Finite APPARENT_SIZE_CONSTANT) (js_tan (js_quot (fov c') (Finite 2)))"
    "lowerRadiusLimit c' = radius c'" "upperRadiusLimit c' = radius c'"
    by (elim exE conjE)
  have fv: "fov c' = Finite g" using r(3) sm by (simp add: tp_def)
  note as = apparentSize_finite [OF fv o r(4)]
  have ge: "g = f + (0.05 + 0.29 * min (max (p / 0.33) 0) 1 - f) * 0.08"
    unfolding g_def tp_def transitionProgressOf_unfold ..
  from r(1,2) ge fv o as r(5,6)
  have "cameraFrame p now c s = Inr s' \<and> camera s' = Some c'
        \<and> g = f + (0.05 + 0.29 * min (max (p / 0.33) 0) 1 - f) * 0.08
        \<and> fov c' = Finite g \<and> 0 < g \<and> g < pi
        \<and> radius c' = Finite (APPARENT_SIZE_CONSTANT / tan (g / 2))
        \<and> apparentSize c' = Finite APPARENT_SIZE_CONSTANT
        \<and> lowerRadiusLimit c' = radius c' \<and> upperRadiusLimit c' = radius c'"
    by (intro conjI)
  then show ?thesis by (intro exI)
qed

text \<open>Once the field of view is NaN, every later frame on a finite progress leaves it NaN,
  and the radius with it.\<close>

lemma frame_nan_persists:
  assumes "fov c = NaN"
  shows "\<exists>s' c'. cameraFrame p now c s = Inr s' \<and> camera s' = Some c'
        \<and> fov c' = NaN \<and> radius c' = NaN
        \<and> lowerRadiusLimit c' = NaN \<and> upperRadiusLimit c' = NaN \<and> apparentSize c' = NaN"
proof -
  obtain a1 tgt where a: "alphaStep (transitionProgressOf p) (lastTransitionProgress s)
        (transitionTargetAlpha s) (alpha c) = Inr (a1, tgt)"
    using alphaStep_succeeds by blast
  from cameraFrame_result [OF a, of now] obtain s' c' where r:
    "cameraFrame p now c s = Inr s'" "camera s' = Some c'"
    "fov c' = smoothedFov (Finite (transitionProgressOf p)) c"
    "radius c' = js_quot (Finite APPARENT_SIZE_CONSTANT) (js_tan (js_quot (fov c') (Finite 2)))"
    "lowerRadiusLimit c' = radius c'" "upperRadiusLimit c' = radius c'"
    by (elim exE conjE)
  have fv: "fov c' = NaN" using r(3) assms by simp
  have ra: "radius c' = NaN" by (simp add: r(4) fv)
  have "apparentSize c' = NaN" by (simp add: apparentSize_def ra)
  with r(1,2) fv ra r(5,6)
  have "cameraFrame p now c s = Inr s' \<and> camera s' = Some c'
        \<and> fov c' = NaN \<and> radius c' = NaN
        \<and> lowerRadiusLimit c' = NaN \<and> upperRadiusLimit c' = NaN \<and> apparentSize c' = NaN"
    by simp
  then show ?thesis by (intro exI)
qed

lemma flatPage_frame:
  assumes "camera s = Some c"
  shows "updateCameraFromScroll flatPage now s = cameraFrameNaN now c s"
  using assms
  by (simp add: updateCameraFromScroll_def flatPage_def scrollProgress_def js_div_def
      clamp_js_def Let_def)

lemma initialCamera_apparentSize: "apparentSize initialCamera = Finite APPARENT_SIZE_CONSTANT"
proof -
  have f: "fov initialCamera = Finite FOV_ORTHO" "0 < FOV_ORTHO" "FOV_ORTHO < pi"
    using pi_ge_two by (simp_all add: initialCamera_def FOV_ORTHO_def)
  have t: "0 < tan (FOV_ORTHO / 2)" using f(2,3) by (rule tan_half_pos)
  have k: "0 < cos (FOV_ORTHO / 2)" using f(2,3) by (rule cos_half_pos)
  have "js_tan (js_quot (fov initialCamera) (Finite 2)) = Finite (tan (FOV_ORTHO / 2))"
    using k by (simp add: f(1) js_div_def js_tan_def)
  moreover have "radius initialCamera = Finite (APPARENT_SIZE_CONSTANT / tan (FOV_ORTHO / 2))"
    by (simp add: initialCamera_def initialRadius_def)
  ultimately show ?thesis using t by (simp add: apparentSize_def)
qed

text \<open>In every reachable state the radius is the quotient by the tangent of half the field
  of view, and it is locked; so the product is the constant unless the field of view is
  NaN.\<close>

lemma initialCamera_radius:
  "radius initialCamera
     = js_quot (Finite APPARENT_SIZE_CONSTANT) (js_tan (js_quot (fov initialCamera) (Finite 2)))"
proof -
  have f: "0 < FOV_ORTHO" "FOV_ORTHO < pi"
    using pi_ge_two by (simp_all add: FOV_ORTHO_def)
  have t: "0 < tan (FOV_ORTHO / 2)" using f by (rule tan_half_pos)
  have k: "0 < cos (FOV_ORTHO / 2)" using f by (rule cos_half_pos)
  have "js_tan (js_quot (fov initialCamera) (Finite 2)) = Finite (tan (FOV_ORTHO / 2))"
    using k by (simp add: initialCamera_def js_div_def js_tan_def)
  then show ?thesis using t by (simp add: initialCamera_def initialRadius_def js_div_def)
qed

lemma reachable_radius:
  assumes "reachable s"
  shows "\<forall>c. camera s = Some c \<longrightarrow>
           radius c = js_quot (Finite APPARENT_SIZE_CONSTANT) (js_tan (js_quot (fov c) (Finite 2)))
         \<and> lowerRadiusLimit c = radius c \<and> upperRadiusLimit c = radius c"
  using assms
proof (induction rule: reachable.induct)
  case (start loadTime)
  show ?case by (simp add: initialState_def)
next
  case (scene s)
  have "lowerRadiusLimit initialCamera = radius initialCamera"
    "upperRadiusLimit initialCamera = radius initialCamera"
    by (simp_all add: initialCamera_def)
  with initialCamera_radius show ?case by simp
next
  case (model s walls accent accent2 white)
  then show ?case by simp
next
  case (furniture s key meshes)
  then show ?case by simp
next
  case (frame s pg now s')
  from frame.hyps(2) show ?case
  proof (cases rule: updateCameraFromScroll_cases)
    case 1
    with frame.IH show ?thesis by simp
  next
    case (2 c p)
    obtain a1 tgt where a: "alphaStep (transitionProgressOf p) (lastTransitionProgress s)
              (transitionTargetAlpha s) (alpha c) = Inr (a1, tgt)"
      using alphaStep_succeeds by blast
    from cameraFrame_result [OF a, of now] obtain s'' c' where r:
      "cameraFrame p now c s = Inr s''" "camera s'' = Some c'"
      "radius c' = js_quot (Finite APPARENT_SIZE_CONSTANT) (js_tan (js_quot (fov c') (Finite 2)))"
      "lowerRadiusLimit c' = radius c'" "upperRadiusLimit c' = radius c'"
      by (elim exE conjE)
    from r(1) 2(2) have "s'' = s'" by simp
    with r show ?thesis by simp
  next
    case (3 c)
    from cameraFrameNaN_result [of now c s] obtain s'' c' where r:
      "cameraFrameNaN now c s = Inr s''" "camera s'' = Some c'"
      "fov c' = NaN" "radius c' = NaN" "lowerRadiusLimit c' = NaN" "upperRadiusLimit c' = NaN"
      by (elim exE conjE)
    from r(1) 3(2) have "s'' = s'" by simp
    with r show ?thesis by simp
  qed
next
  case (pick s s')
  from toggleMode_fields(1) [OF pick.hyps(2)] pick.IH show ?case by simp
next
  case (cycle s)
  then show ?case by simp
next
  case (interaction s now)
  then show ?case by simp
next
  case (rotate s a)
  then show ?case by (cases "camera s") auto
next
  case (inputs s)
  then show ?case by simp
qed

lemma reachable_apparentSize:
  assumes r: "reachable s" and c: "camera s = Some c"
  shows "fov c = NaN \<or> apparentSize c = Finite APPARENT_SIZE_CONSTANT"
proof -
  from reachable_invariants [OF r] c
  have "fov c = NaN \<or> (\<exists>f. fov c = Finite f \<and> FOV_ORTHO \<le> f \<and> f \<le> FOV_PERSPECTIVE)"
    by simp
  then show ?thesis
  proof
    assume "fov c = NaN"
    then show ?thesis by (rule disjI1)
  next
    assume "\<exists>f. fov c = Finite f \<and> FOV_ORTHO \<le> f \<and> f \<le> FOV_PERSPECTIVE"
    then obtain f where f: "fov c = Finite f" "FOV_ORTHO \<le> f" "f \<le> FOV_PERSPECTIVE"
      by (elim exE conjE)
    have o: "0 < f" "f < pi"
      using f(2,3) pi_ge_two by (simp_all add: FOV_ORTHO_def FOV_PERSPECTIVE_def)
    from reachable_radius [OF r] c
    have "radius c = js_quot (Finite APPARENT_SIZE_CONSTANT) (js_tan (js_quot (fov c) (Finite 2)))"
      by simp
    from apparentSize_finite(2) [OF f(1) o this] show ?thesis by (rule disjI2)
  qed
qed

text \<open>
  Claim C4. The claim fails on a page whose wrapper is exactly as high as the viewport and
  is not scrolled: the scrolled amount and the scrollable distance are both 0, their
  quotient is NaN, and the frame writes NaN to the field of view, the radius and both
  radius limits. The product \<open>radius * tan (fov / 2)\<close>, which is the constant for the camera
  that \<open>createScene\<close> makes, is NaN after that frame, and it is still NaN after a next frame
  on an ordinary page at progress 0.5. In reachable states the product is the constant
  exactly as long as the field of view is a number (\<open>reachable_apparentSize\<close>).
\<close>

theorem apparent_size_nan_frame:
  "scrollProgress 0 600 600 = NaN
   \<and> camera loadedScene = Some initialCamera
   \<and> apparentSize initialCamera = Finite APPARENT_SIZE_CONSTANT
   \<and> (\<exists>s1 c1. updateCameraFromScroll flatPage 0 loadedScene = Inr s1 \<and> camera s1 = Some c1
        \<and> fov c1 = NaN \<and> radius c1 = NaN
        \<and> lowerRadiusLimit c1 = NaN \<and> upperRadiusLimit c1 = NaN
        \<and> apparentSize c1 = NaN \<and> apparentSize c1 \<noteq> Finite APPARENT_SIZE_CONSTANT
        \<and> (\<exists>s2 c2. updateCameraFromScroll (pageAt 0.5) 16 s1 = Inr s2 \<and> camera s2 = Some c2
              \<and> fov c2 = NaN \<and> radius c2 = NaN
              \<and> apparentSize c2 = NaN \<and> apparentSize c2 \<noteq> Finite APPARENT_SIZE_CONSTANT))"
proof -
  have p: "scrollProgress 0 600 600 = NaN"
    by (simp add: scrollProgress_def js_div_def clamp_js_def)
  have c: "camera loadedScene = Some initialCamera" by (simp add: loadedScene_fields)
  from cameraFrameNaN_result [of 0 initialCamera loadedScene] obtain s1 c1 where 1:
    "cameraFrameNaN 0 initialCamera loadedScene = Inr s1" "camera s1 = Some c1"
    "fov c1 = NaN" "radius c1 = NaN" "lowerRadiusLimit c1 = NaN" "upperRadiusLimit c1 = NaN"
    by (elim exE conjE)
  have u1: "updateCameraFromScroll flatPage 0 loadedScene = Inr s1"
    unfolding flatPage_frame [OF c] by (rule 1(1))
  have a1: "apparentSize c1 = NaN" by (simp add: apparentSize_def 1(4))
  from frame_nan_persists [OF 1(3), of "0.5" 16 s1] obtain s2 c2 where 2:
    "cameraFrame 0.5 16 c1 s1 = Inr s2" "camera s2 = Some c2"
    "fov c2 = NaN" "radius c2 = NaN" "apparentSize c2 = NaN"
    by (elim exE conjE)
  have "updateCameraFromScroll (pageAt 0.5) 16 s1 = cameraFrame 0.5 16 c1 s1"
    by (rule pageAt_frame) (simp_all add: 1(2))
  then have u2: "updateCameraFromScroll (pageAt 0.5) 16 s1 = Inr s2" unfolding 2(1) .
  have n2: "apparentSize c2 \<noteq> Finite APPARENT_SIZE_CONSTANT" by (simp add: 2(5))
  from u2 2(2,3,4,5) n2
  have "updateCameraFromScroll (pageAt 0.5) 16 s1 = Inr s2 \<and> camera s2 = Some c2
              \<and> fov c2 = NaN \<and> radius c2 = NaN
              \<and> apparentSize c2 = NaN \<and> apparentSize c2 \<noteq> Finite APPARENT_SIZE_CONSTANT"
    by (intro conjI)
  then have e2: "\<exists>s2 c2. updateCameraFromScroll (pageAt 0.5) 16 s1 = Inr s2 \<and> camera s2 = Some c2
              \<and> fov c2 = NaN \<and> radius c2 = NaN
              \<and> apparentSize c2 = NaN \<and> apparentSize c2 \<noteq> Finite APPARENT_SIZE_CONSTANT"
    by (intro exI)
  have n1: "apparentSize c1 \<noteq> Finite APPARENT_SIZE_CONSTANT" by (simp add: a1)
  from u1 1(2,3,4,5,6) a1 n1 e2
  have "updateCameraFromScroll flatPage 0 loadedScene = Inr s1 \<and> camera s1 = Some c1
        \<and> fov c1 = NaN \<and> radius c1 = NaN
        \<and> lowerRadiusLimit c1 = NaN \<and> upperRadiusLimit c1 = NaN
        \<and> apparentSize c1 = NaN \<and> apparentSize c1 \<noteq> Finite APPARENT_SIZE_CONSTANT
        \<and> (\<exists>s2 c2. updateCameraFromScroll (pageAt 0.5) 16 s1 = Inr s2 \<and> camera s2 = Some c2
              \<and> fov c2 = NaN \<and> radius c2 = NaN
              \<and> apparentSize c2 = NaN \<and> apparentSize c2 \<noteq> Finite APPARENT_SIZE_CONSTANT)"
    by (intro conjI)
  then have "\<exists>s1 c1. updateCameraFromScroll flatPage 0 loadedScene = Inr s1 \<and> camera s1 = Some c1
        \<and> fov c1 = NaN \<and> radius c1 = NaN
        \<and> lowerRadiusLimit c1 = NaN \<and> upperRadiusLimit c1 = NaN
        \<and> apparentSize c1 = NaN \<and> apparentSize c1 \<noteq> Finite APPARENT_SIZE_CONSTANT
        \<and> (\<exists>s2 c2. updateCameraFromScroll (pageAt 0.5) 16 s1 = Inr s2 \<and> camera s2 = Some c2
              \<and> fov c2 = NaN \<and> radius c2 = NaN
              \<and> apparentSize c2 = NaN \<and> apparentSize c2 \<noteq> Finite APPARENT_SIZE_CONSTANT)"
    by (intro exI)
  with p c initialCamera_apparentSize show ?thesis by (intro conjI)
qed

lemma frame_idle:
  assumes r: "reachable s" and c: "camera s = Some c"
  shows "\<exists>s' c'. cameraFrame p now c s = Inr s' \<and> camera s' = Some c'
      \<and> (0.33 \<le> p \<and> now - lastInteractionTime s > IDLE_TIMEOUT
            \<longrightarrow> alpha c' = alpha c + IDLE_ROTATION_SPEED \<and> alpha c < alpha c'
                \<and> isIdleRotating s')
      \<and> (0.33 \<le> p \<and> now - lastInteractionTime s \<le> IDLE_TIMEOUT
            \<longrightarrow> alpha c' = alpha c \<and> \<not> isIdleRotating s')
      \<and> (p < 0.33
            \<longrightarrow> \<not> isIdleRotating s'
                \<and> (\<exists>tgt. alphaStep (transitionProgressOf p) (lastTransitionProgress s)
                             (transitionTargetAlpha s) (alpha c) = Inr (alpha c', tgt)))"
proof -
  obtain s' c' a1 tgt where f:
    "cameraFrame p now c s = Inr s'" "camera s' = Some c'"
    "alphaStep (transitionProgressOf p) (lastTransitionProgress s)
        (transitionTargetAlpha s) (alpha c) = Inr (a1, tgt)"
    "alpha c' = (if idleNow p now s then a1 + IDLE_ROTATION_SPEED else a1)"
    "isIdleRotating s' = idleNow p now s"
    by (rule reachable_frame)
  have persp: "0.33 \<le> p \<Longrightarrow> a1 = alpha c"
  proof -
    assume "0.33 \<le> p"
    then have "transitionProgressOf p = 1" by (rule transitionProgressOf_one)
    then have "alphaStep (transitionProgressOf p) (lastTransitionProgress s)
        (transitionTargetAlpha s) (alpha c) = Inr (alpha c, None)"
      by (simp add: alphaStep_perspective)
    with f(3) show "a1 = alpha c" by simp
  qed
  have 1: "0.33 \<le> p \<and> now - lastInteractionTime s > IDLE_TIMEOUT
            \<longrightarrow> alpha c' = alpha c + IDLE_ROTATION_SPEED \<and> alpha c < alpha c'
                \<and> isIdleRotating s'"
    using persp f(4,5) by (simp add: idleNow_def IDLE_ROTATION_SPEED_def)
  have 2: "0.33 \<le> p \<and> now - lastInteractionTime s \<le> IDLE_TIMEOUT
            \<longrightarrow> alpha c' = alpha c \<and> \<not> isIdleRotating s'"
    using persp f(4,5) by (simp add: idleNow_def)
  have 3: "p < 0.33
            \<longrightarrow> \<not> isIdleRotating s'
                \<and> (\<exists>tgt. alphaStep (transitionProgressOf p) (lastTransitionProgress s)
                             (transitionTargetAlpha s) (alpha c) = Inr (alpha c', tgt))"
  proof
    assume "p < 0.33"
    then have n: "\<not> idleNow p now s" by (simp add: idleNow_def)
    with f(3,4) have "alphaStep (transitionProgressOf p) (lastTransitionProgress s)
                             (transitionTargetAlpha s) (alpha c) = Inr (alpha c', tgt)" by simp
    then have "\<exists>tgt. alphaStep (transitionProgressOf p) (lastTransitionProgress s)
                             (transitionTargetAlpha s) (alpha c) = Inr (alpha c', tgt)" by (rule exI)
    with n f(5) show "\<not> isIdleRotating s'
                \<and> (\<exists>tgt. alphaStep (transitionProgressOf p) (lastTransitionProgress s)
                             (transitionTargetAlpha s) (alpha c) = Inr (alpha c', tgt))" by simp
  qed
  from f(1,2) 1 2 3 have "cameraFrame p now c s = Inr s' \<and> camera s' = Some c'
      \<and> (0.33 \<le> p \<and> now - lastInteractionTime s > IDLE_TIMEOUT
            \<longrightarrow> alpha c' = alpha c + IDLE_ROTATION_SPEED \<and> alpha c < alpha c'
                \<and> isIdleRotating s')
      \<and> (0.33 \<le> p \<and> now - lastInteractionTime s \<le> IDLE_TIMEOUT
            \<longrightarrow> alpha c' = alpha c \<and> \<not> isIdleRotating s')
      \<and> (p < 0.33
            \<longrightarrow> \<not> isIdleRotating s'
                \<and> (\<exists>tgt. alphaStep (transitionProgressOf p) (lastTransitionProgress s)
                             (transitionTargetAlpha s) (alpha c) = Inr (alpha c', tgt)))"
    by (intro conjI)
  then show ?thesis by (intro exI)
qed

text \<open>
  Claim C6, as amended. In a frame with progress at least 0.33 whose clock reading is more
  than 10000 ms past the last interaction, the azimuth grows by 0.0005 and the idle flag is
  set; with at most 10000 ms elapsed the azimuth stays and the flag is cleared. An
  interaction event at time \<open>t\<close> sets the last interaction time to \<open>t\<close>, so a frame that
  runs at most 10000 ms after it applies no idle increment. In a frame with progress below
  0.33 the flag is cleared and the azimuth is the one the view regime gives, with no
  increment.
\<close>

theorem idle_rotation:
  "(reachable s \<and> camera s = Some c \<longrightarrow>
      (\<exists>s' c'. cameraFrame p now c s = Inr s' \<and> camera s' = Some c'
        \<and> (0.33 \<le> p \<and> now - lastInteractionTime s > IDLE_TIMEOUT
              \<longrightarrow> alpha c' = alpha c + IDLE_ROTATION_SPEED \<and> alpha c < alpha c'
                  \<and> isIdleRotating s')
        \<and> (0.33 \<le> p \<and> now - lastInteractionTime s \<le> IDLE_TIMEOUT
              \<longrightarrow> alpha c' = alpha c \<and> \<not> isIdleRotating s')
        \<and> (p < 0.33
              \<longrightarrow> \<not> isIdleRotating s'
                  \<and> (\<exists>tgt. alphaStep (transitionProgressOf p) (lastTransitionProgress s)
                               (transitionTargetAlpha s) (alpha c) = Inr (alpha c', tgt))))
    \<and> (\<exists>s' c'. cameraFrame p now c (resetIdleTimer t s) = Inr s' \<and> camera s' = Some c'
        \<and> (now - t \<le> IDLE_TIMEOUT
              \<longrightarrow> \<not> isIdleRotating s' \<and> (0.33 \<le> p \<longrightarrow> alpha c' = alpha c))))
   \<and> lastInteractionTime (resetIdleTimer t s) = t
   \<and> IDLE_TIMEOUT = 10000 \<and> IDLE_ROTATION_SPEED = 0.0005"
proof (intro conjI impI)
  assume h: "reachable s \<and> camera s = Some c"
  then have r: "reachable s" and c: "camera s = Some c" by simp_all
  from frame_idle [OF r c, of p now]
  show "\<exists>s' c'. cameraFrame p now c s = Inr s' \<and> camera s' = Some c'
        \<and> (0.33 \<le> p \<and> now - lastInteractionTime s > IDLE_TIMEOUT
              \<longrightarrow> alpha c' = alpha c + IDLE_ROTATION_SPEED \<and> alpha c < alpha c'
                  \<and> isIdleRotating s')
        \<and> (0.33 \<le> p \<and> now - lastInteractionTime s \<le> IDLE_TIMEOUT
              \<longrightarrow> alpha c' = alpha c \<and> \<not> isIdleRotating s')
        \<and> (p < 0.33
              \<longrightarrow> \<not> isIdleRotating s'
                  \<and> (\<exists>tgt. alphaStep (transitionProgressOf p) (lastTransitionProgress s)
                               (transitionTargetAlpha s) (alpha c) = Inr (alpha c', tgt)))" .
  have r': "reachable (resetIdleTimer t s)" using r by (rule reachable.interaction)
  have c': "camera (resetIdleTimer t s) = Some c" using c by simp
  from frame_idle [OF r' c', of p now] obtain s' c' where f:
    "cameraFrame p now c (resetIdleTimer t s) = Inr s'" "camera s' = Some c'"
    "0.33 \<le> p \<and> now - lastInteractionTime (resetIdleTimer t s) \<le> IDLE_TIMEOUT
            \<longrightarrow> alpha c' = alpha c \<and> \<not> isIdleRotating s'"
    "p < 0.33 \<longrightarrow> \<not> isIdleRotating s'
                \<and> (\<exists>tgt. alphaStep (transitionProgressOf p)
                             (lastTransitionProgress (resetIdleTimer t s))
                             (transitionTargetAlpha (resetIdleTimer t s)) (alpha c)
                           = Inr (alpha c', tgt))"
    by (elim exE conjE)
  have "now - t \<le> IDLE_TIMEOUT
              \<longrightarrow> \<not> isIdleRotating s' \<and> (0.33 \<le> p \<longrightarrow> alpha c' = alpha c)"
    using f(3,4) by (cases "0.33 \<le> p") auto
  with f(1,2) have "cameraFrame p now c (resetIdleTimer t s) = Inr s' \<and> camera s' = Some c'
        \<and> (now - t \<le> IDLE_TIMEOUT
              \<longrightarrow> \<not> isIdleRotating s' \<and> (0.33 \<le> p \<longrightarrow> alpha c' = alpha c))"
    by (intro conjI)
  then show "\<exists>s' c'. cameraFrame p now c (resetIdleTimer t s) = Inr s' \<and> camera s' = Some c'
        \<and> (now - t \<le> IDLE_TIMEOUT
              \<longrightarrow> \<not> isIdleRotating s' \<and> (0.33 \<le> p \<longrightarrow> alpha c' = alpha c))"
    by (intro exI)
qed (simp_all add: IDLE_TIMEOUT_def IDLE_ROTATION_SPEED_def)

theorem idle_rotation_witness:
  "reachable loadedScene \<and> camera loadedScene = Some initialCamera
   \<and> (0.33::real) \<le> 0.5 \<and> 20000 - lastInteractionTime loadedScene > IDLE_TIMEOUT
   \<and> (20000::int) - 15000 \<le> IDLE_TIMEOUT
   \<and> (\<exists>s' c'. cameraFrame 0.5 20000 initialCamera loadedScene = Inr s' \<and> camera s' = Some c'
          \<and> alpha c' = pi / 2 + 0.0005 \<and> isIdleRotating s')
   \<and> (\<exists>s' c'. cameraFrame 0.5 20000 initialCamera (resetIdleTimer 15000 loadedScene) = Inr s'
          \<and> camera s' = Some c' \<and> alpha c' = pi / 2 \<and> \<not> isIdleRotating s')"
proof -
  have h: "reachable loadedScene \<and> camera loadedScene = Some initialCamera"
    by (simp add: loadedScene_reachable loadedScene_fields)
  have i: "(0.33::real) \<le> 0.5" "20000 - lastInteractionTime loadedScene > IDLE_TIMEOUT"
    "(20000::int) - 15000 \<le> IDLE_TIMEOUT"
    by (simp_all add: loadedScene_fields IDLE_TIMEOUT_def)
  note t = idle_rotation [of loadedScene initialCamera "0.5" 20000 15000,
      THEN conjunct1, THEN mp, OF h]
  from t obtain s1 c1 where 1: "cameraFrame 0.5 20000 initialCamera loadedScene = Inr s1"
    "camera s1 = Some c1"
    "0.33 \<le> (0.5::real) \<and> 20000 - lastInteractionTime loadedScene > IDLE_TIMEOUT
       \<longrightarrow> alpha c1 = alpha initialCamera + IDLE_ROTATION_SPEED \<and> alpha initialCamera < alpha c1
           \<and> isIdleRotating s1"
    by (elim exE conjE)
  from 1(3) i have "alpha c1 = alpha initialCamera + IDLE_ROTATION_SPEED" "isIdleRotating s1"
    by simp_all
  then have a1: "alpha c1 = pi / 2 + 0.0005" "isIdleRotating s1"
    by (simp_all add: initialCamera_def IDLE_ROTATION_SPEED_def)
  from 1(1,2) a1 have "cameraFrame 0.5 20000 initialCamera loadedScene = Inr s1
      \<and> camera s1 = Some c1 \<and> alpha c1 = pi / 2 + 0.0005 \<and> isIdleRotating s1"
    by (intro conjI)
  then have e1: "\<exists>s' c'. cameraFrame 0.5 20000 initialCamera loadedScene = Inr s'
      \<and> camera s' = Some c' \<and> alpha c' = pi / 2 + 0.0005 \<and> isIdleRotating s'"
    by (intro exI)
  from t obtain s2 c2 where 2:
    "cameraFrame 0.5 20000 initialCamera (resetIdleTimer 15000 loadedScene) = Inr s2"
    "camera s2 = Some c2"
    "20000 - 15000 \<le> IDLE_TIMEOUT
       \<longrightarrow> \<not> isIdleRotating s2 \<and> (0.33 \<le> (0.5::real) \<longrightarrow> alpha c2 = alpha initialCamera)"
    by (elim exE conjE)
  from 2(3) i have "\<not> isIdleRotating s2" "alpha c2 = alpha initialCamera" by simp_all
  then have a2: "alpha c2 = pi / 2" "\<not> isIdleRotating s2" by (simp_all add: initialCamera_def)
  from 2(1,2) a2
  have "cameraFrame 0.5 20000 initialCamera (resetIdleTimer 15000 loadedScene) = Inr s2
      \<and> camera s2 = Some c2 \<and> alpha c2 = pi / 2 \<and> \<not> isIdleRotating s2"
    by (intro conjI)
  then have e2: "\<exists>s' c'. cameraFrame 0.5 20000 initialCamera (resetIdleTimer 15000 loadedScene) = Inr s'
          \<and> camera s' = Some c' \<and> alpha c' = pi / 2 \<and> \<not> isIdleRotating s'"
    by (intro exI)
  from h i e1 e2 show ?thesis by (intro conjI) simp_all
qed

text \<open>The claim as stated, for any next frame, fails: after an interaction event at time 0,
  a frame at time 10001 with progress 0.5 applies the idle increment.\<close>

theorem idle_rotation_counterexample:
  "lastInteractionTime (resetIdleTimer 0 loadedScene) = 0
   \<and> azimuthOf (cameraFrame 0.5 10001 initialCamera (resetIdleTimer 0 loadedScene))
        = Some (alpha initialCamera + IDLE_ROTATION_SPEED)
   \<and> azimuthOf (cameraFrame 0.5 10001 initialCamera (resetIdleTimer 0 loadedScene))
        \<noteq> Some (alpha initialCamera)"
proof -
  let ?s = "resetIdleTimer 0 loadedScene"
  have r: "reachable ?s" using loadedScene_reachable by (rule reachable.interaction)
  have c: "camera ?s = Some initialCamera" by (simp add: loadedScene_fields)
  from frame_idle [OF r c, of "0.5" 10001] obtain s' c' where f:
    "cameraFrame 0.5 10001 initialCamera ?s = Inr s'" "camera s' = Some c'"
    "0.33 \<le> (0.5::real) \<and> 10001 - lastInteractionTime ?s > IDLE_TIMEOUT
       \<longrightarrow> alpha c' = alpha initialCamera + IDLE_ROTATION_SPEED \<and> alpha initialCamera < alpha c'
           \<and> isIdleRotating s'"
    by (elim exE conjE)
  from f(3) have a: "alpha c' = alpha initialCamera + IDLE_ROTATION_SPEED"
    "alpha initialCamera < alpha c'"
    by (simp_all add: IDLE_TIMEOUT_def)
  have z: "azimuthOf (cameraFrame 0.5 10001 initialCamera ?s) = Some (alpha c')"
    unfolding azimuthOf_def f(1) by (simp add: f(2))
  from a(2) have "Some (alpha c') \<noteq> Some (alpha initialCamera)" by simp
  then show ?thesis unfolding z a(1) by simp
qed

lemma snap_nearest_index:
  assumes "xs \<noteq> []" "snapToNearest a xs = Some r"
  shows "\<exists>i<length xs. r = xs ! i
     \<and> (\<forall>j<length xs. circularDistance (normalizeAlpha a) r
                          \<le> circularDistance (normalizeAlpha a) (xs ! j))
     \<and> (\<forall>j<i. circularDistance (normalizeAlpha a) r
                   < circularDistance (normalizeAlpha a) (xs ! j))"
proof -
  from snapToNearest_first_min [OF assms(1), of a] obtain i where i: "i < length xs"
    "snapToNearest a xs = Some (xs ! i)"
    "\<forall>j<length xs. angularDiff (normalizeAlpha a) (xs ! i)
                              \<le> angularDiff (normalizeAlpha a) (xs ! j)"
    "\<forall>j<i. angularDiff (normalizeAlpha a) (xs ! i)
                       < angularDiff (normalizeAlpha a) (xs ! j)"
    by blast
  from i(2) assms(2) have "r = xs ! i" by simp
  with i(1,3,4) show ?thesis unfolding angularDiff_circular by blast
qed

text \<open>
  Claim C1. In a frame from a reachable state, with the transition progress
  \<open>tp = min (max (p / 0.33) 0) 1\<close> of the frame's progress \<open>p\<close>, which the frame keeps for
  the next one. Let \<open>n\<close> be the azimuth brought into \<open>[0, 2\<pi>)\<close> by a multiple of \<open>2\<pi>\<close>,
  \<open>straight\<close> the straight angle of least circular distance to \<open>n\<close>, and \<open>center\<close> the
  quadrant centre of least circular distance to \<open>straight\<close>, the earlier array element
  winning a tie: 0 and 90 degrees give 45 degrees, 180 gives 135, and 270 gives 225. When
  the transition progress of the frame before was below 0.1 and \<open>tp\<close> is in \<open>[0.1, 1)\<close>, the
  transition target becomes \<open>center\<close> and the azimuth moves toward it by 0.08 of the
  difference. When the frame before was already at 0.1 or above and \<open>tp\<close> is in \<open>[0.1, 1)\<close>,
  the target stays what it was, and the azimuth moves toward it by 0.08 of the difference.
  When \<open>tp\<close> is below 0.1 or equal to 1 the target is cleared.
\<close>

theorem transition_target_capture:
  "(reachable s \<and> camera s = Some c \<longrightarrow>
     (\<exists>s' c' straight center n tp. \<exists>k::int.
        cameraFrame p now c s = Inr s' \<and> camera s' = Some c'
      \<and> tp = min (max (p / 0.33) 0) 1
      \<and> lastTransitionProgress s' = Finite tp
      \<and> n = alpha c - 2 * pi * of_int k \<and> 0 \<le> n \<and> n < 2 * pi
      \<and> snapToNearest (alpha c) STRAIGHT_ANGLES = Some straight
      \<and> (\<exists>i<length STRAIGHT_ANGLES. straight = STRAIGHT_ANGLES ! i
           \<and> (\<forall>j<length STRAIGHT_ANGLES.
                 circularDistance n straight \<le> circularDistance n (STRAIGHT_ANGLES ! j))
           \<and> (\<forall>j<i. circularDistance n straight < circularDistance n (STRAIGHT_ANGLES ! j)))
      \<and> snapToNearest straight QUADRANT_CENTERS = Some center
      \<and> (\<exists>i<length QUADRANT_CENTERS. center = QUADRANT_CENTERS ! i
           \<and> (\<forall>j<length QUADRANT_CENTERS.
                 circularDistance straight center \<le> circularDistance straight (QUADRANT_CENTERS ! j))
           \<and> (\<forall>j<i. circularDistance straight center
                        < circularDistance straight (QUADRANT_CENTERS ! j)))
      \<and> center = (if straight = 0 \<or> straight = pi / 2 then pi / 4
                   else if straight = pi then 3 * pi / 4 else 5 * pi / 4)
      \<and> (tp < 0.1 \<or> tp = 1 \<longrightarrow> transitionTargetAlpha s' = None)
      \<and> ((\<exists>l. lastTransitionProgress s = Finite l \<and> l < 0.1) \<and> 0.1 \<le> tp \<and> tp < 1
            \<longrightarrow> transitionTargetAlpha s' = Some center
                \<and> alpha c' = alpha c + (center - alpha c) * 0.08)
      \<and> ((\<exists>l. lastTransitionProgress s = Finite l \<and> 0.1 \<le> l) \<and> 0.1 \<le> tp \<and> tp < 1
            \<longrightarrow> transitionTargetAlpha s' = transitionTargetAlpha s
                \<and> (\<forall>t. transitionTargetAlpha s = Some t
                        \<longrightarrow> alpha c' = alpha c + (t - alpha c) * 0.08))))
   \<and> STRAIGHT_ANGLES = [0, pi / 2, pi, 3 * pi / 2]
   \<and> QUADRANT_CENTERS = [pi / 4, 3 * pi / 4, 5 * pi / 4, 7 * pi / 4]"
proof (intro conjI impI)
  assume "reachable s \<and> camera s = Some c"
  then have r: "reachable s" and c: "camera s = Some c" by simp_all
  define tp where "tp = min (max (p / 0.33) 0) 1"
  have tpe: "transitionProgressOf p = tp" unfolding tp_def by (rule transitionProgressOf_unfold)
  define n where "n = normalizeAlpha (alpha c)"
  from normalizeAlpha_spec [of "alpha c"] obtain k :: int where n:
    "0 \<le> n" "n < 2 * pi" "n = alpha c - 2 * pi * of_int k"
    unfolding n_def by (elim exE conjE)
  from frame_transition_target [OF r c, of p now] obtain s' c' straight center where f:
    "cameraFrame p now c s = Inr s'" "camera s' = Some c'"
    "lastTransitionProgress s' = Finite tp"
    "snapToNearest (alpha c) STRAIGHT_ANGLES = Some straight"
    "straight \<in> set STRAIGHT_ANGLES"
    "snapToNearest straight QUADRANT_CENTERS = Some center"
    "center \<in> set QUADRANT_CENTERS"
    "center = (if straight = 0 \<or> straight = pi / 2 then pi / 4
                 else if straight = pi then 3 * pi / 4 else 5 * pi / 4)"
    "tp < 0.1 \<or> tp = 1 \<longrightarrow> transitionTargetAlpha s' = None"
    "js_lt (lastTransitionProgress s) (Finite 0.1) \<and> 0.1 \<le> tp \<and> tp < 1
          \<longrightarrow> transitionTargetAlpha s' = Some center
              \<and> alpha c' = lerp (alpha c) center 0.08"
    "\<not> js_lt (lastTransitionProgress s) (Finite 0.1) \<and> 0.1 \<le> tp \<and> tp < 1
          \<longrightarrow> transitionTargetAlpha s' = transitionTargetAlpha s
              \<and> (\<forall>t. transitionTargetAlpha s = Some t \<longrightarrow> alpha c' = lerp (alpha c) t 0.08)
              \<and> (transitionTargetAlpha s = None \<longrightarrow> alpha c' = alpha c)"
    unfolding tpe by (elim exE conjE)
  have n1: "STRAIGHT_ANGLES \<noteq> []" by (simp add: STRAIGHT_ANGLES_def)
  have n2: "QUADRANT_CENTERS \<noteq> []" by (simp add: QUADRANT_CENTERS_def)
  note a = snap_nearest_index [OF n1 f(4), folded n_def]
  note b = snap_nearest_index [OF n2 f(6), unfolded normalize_straight [OF f(5)]]
  have 2: "(\<exists>l. lastTransitionProgress s = Finite l \<and> l < 0.1) \<and> 0.1 \<le> tp \<and> tp < 1
            \<longrightarrow> transitionTargetAlpha s' = Some center
                \<and> alpha c' = alpha c + (center - alpha c) * 0.08"
  proof
    assume h: "(\<exists>l. lastTransitionProgress s = Finite l \<and> l < 0.1) \<and> 0.1 \<le> tp \<and> tp < 1"
    then have "js_lt (lastTransitionProgress s) (Finite 0.1)" by auto
    with h f(10) have "transitionTargetAlpha s' = Some center"
      "alpha c' = lerp (alpha c) center 0.08" by simp_all
    then show "transitionTargetAlpha s' = Some center
                \<and> alpha c' = alpha c + (center - alpha c) * 0.08"
      unfolding lerp_def by (rule conjI)
  qed
  have 3: "(\<exists>l. lastTransitionProgress s = Finite l \<and> 0.1 \<le> l) \<and> 0.1 \<le> tp \<and> tp < 1
            \<longrightarrow> transitionTargetAlpha s' = transitionTargetAlpha s
                \<and> (\<forall>t. transitionTargetAlpha s = Some t
                        \<longrightarrow> alpha c' = alpha c + (t - alpha c) * 0.08)"
  proof
    assume h: "(\<exists>l. lastTransitionProgress s = Finite l \<and> 0.1 \<le> l) \<and> 0.1 \<le> tp \<and> tp < 1"
    then have "\<not> js_lt (lastTransitionProgress s) (Finite 0.1)" by auto
    with h f(11) have "transitionTargetAlpha s' = transitionTargetAlpha s"
      "\<forall>t. transitionTargetAlpha s = Some t \<longrightarrow> alpha c' = lerp (alpha c) t 0.08" by simp_all
    then show "transitionTargetAlpha s' = transitionTargetAlpha s
                \<and> (\<forall>t. transitionTargetAlpha s = Some t
                        \<longrightarrow> alpha c' = alpha c + (t - alpha c) * 0.08)"
      unfolding lerp_def by (rule conjI)
  qed
  have tpd: "tp = min (max (p / 0.33) 0) 1" by (rule tp_def)
  from f(1,2) tpd f(3) n(3,1,2) f(4) a f(6) b f(8,9) 2 3
  have "cameraFrame p now c s = Inr s' \<and> camera s' = Some c'
      \<and> tp = min (max (p / 0.33) 0) 1
      \<and> lastTransitionProgress s' = Finite tp
      \<and> n = alpha c - 2 * pi * of_int k \<and> 0 \<le> n \<and> n < 2 * pi
      \<and> snapToNearest (alpha c) STRAIGHT_ANGLES = Some straight
      \<and> (\<exists>i<length STRAIGHT_ANGLES. straight = STRAIGHT_ANGLES ! i
           \<and> (\<forall>j<length STRAIGHT_ANGLES.
                 circularDistance n straight \<le> circularDistance n (STRAIGHT_ANGLES ! j))
           \<and> (\<forall>j<i. circularDistance n straight < circularDistance n (STRAIGHT_ANGLES ! j)))
      \<and> snapToNearest straight QUADRANT_CENTERS = Some center
      \<and> (\<exists>i<length QUADRANT_CENTERS. center = QUADRANT_CENTERS ! i
           \<and> (\<forall>j<length QUADRANT_CENTERS.
                 circularDistance straight center \<le> circularDistance straight (QUADRANT_CENTERS ! j))
           \<and> (\<forall>j<i. circularDistance straight center
                        < circularDistance straight (QUADRANT_CENTERS ! j)))
      \<and> center = (if straight = 0 \<or> straight = pi / 2 then pi / 4
                   else if straight = pi then 3 * pi / 4 else 5 * pi / 4)
      \<and> (tp < 0.1 \<or> tp = 1 \<longrightarrow> transitionTargetAlpha s' = None)
      \<and> ((\<exists>l. lastTransitionProgress s = Finite l \<and> l < 0.1) \<and> 0.1 \<le> tp \<and> tp < 1
            \<longrightarrow> transitionTargetAlpha s' = Some center
                \<and> alpha c' = alpha c + (center - alpha c) * 0.08)
      \<and> ((\<exists>l. lastTransitionProgress s = Finite l \<and> 0.1 \<le> l) \<and> 0.1 \<le> tp \<and> tp < 1
            \<longrightarrow> transitionTargetAlpha s' = transitionTargetAlpha s
                \<and> (\<forall>t. transitionTargetAlpha s = Some t
                        \<longrightarrow> alpha c' = alpha c + (t - alpha c) * 0.08))"
    by (intro conjI)
  then show "\<exists>s' c' straight center n tp. \<exists>k::int.
        cameraFrame p now c s = Inr s' \<and> camera s' = Some c'
      \<and> tp = min (max (p / 0.33) 0) 1
      \<and> lastTransitionProgress s' = Finite tp
      \<and> n = alpha c - 2 * pi * of_int k \<and> 0 \<le> n \<and> n < 2 * pi
      \<and> snapToNearest (alpha c) STRAIGHT_ANGLES = Some straight
      \<and> (\<exists>i<length STRAIGHT_ANGLES. straight = STRAIGHT_ANGLES ! i
           \<and> (\<forall>j<length STRAIGHT_ANGLES.
                 circularDistance n straight \<le> circularDistance n (STRAIGHT_ANGLES ! j))
           \<and> (\<forall>j<i. circularDistance n straight < circularDistance n (STRAIGHT_ANGLES ! j)))
      \<and> snapToNearest straight QUADRANT_CENTERS = Some center
      \<and> (\<exists>i<length QUADRANT_CENTERS. center = QUADRANT_CENTERS ! i
           \<and> (\<forall>j<length QUADRANT_CENTERS.
                 circularDistance straight center \<le> circularDistance straight (QUADRANT_CENTERS ! j))
           \<and> (\<forall>j<i. circularDistance straight center
                        < circularDistance straight (QUADRANT_CENTERS ! j)))
      \<and> center = (if straight = 0 \<or> straight = pi / 2 then pi / 4
                   else if straight = pi then 3 * pi / 4 else 5 * pi / 4)
      \<and> (tp < 0.1 \<or> tp = 1 \<longrightarrow> transitionTargetAlpha s' = None)
      \<and> ((\<exists>l. lastTransitionProgress s = Finite l \<and> l < 0.1) \<and> 0.1 \<le> tp \<and> tp < 1
            \<longrightarrow> transitionTargetAlpha s' = Some center
                \<and> alpha c' = alpha c + (center - alpha c) * 0.08)
      \<and> ((\<exists>l. lastTransitionProgress s = Finite l \<and> 0.1 \<le> l) \<and> 0.1 \<le> tp \<and> tp < 1
            \<longrightarrow> transitionTargetAlpha s' = transitionTargetAlpha s
                \<and> (\<forall>t. transitionTargetAlpha s = Some t
                        \<longrightarrow> alpha c' = alpha c + (t - alpha c) * 0.08))"
    by (intro exI)
qed (simp_all add: STRAIGHT_ANGLES_def QUADRANT_CENTERS_def)

theorem transition_target_capture_witness:
  "reachable loadedScene \<and> camera loadedScene = Some initialCamera
   \<and> lastTransitionProgress loadedScene = Finite 0
   \<and> (\<exists>s1 c1 s2 c2.
         cameraFrame 0.1 0 initialCamera loadedScene = Inr s1 \<and> camera s1 = Some c1
       \<and> reachable s1
       \<and> lastTransitionProgress s1 = Finite (10 / 33)
       \<and> transitionTargetAlpha s1 = Some (pi / 4)
       \<and> alpha c1 = pi / 2 + (pi / 4 - pi / 2) * 0.08
       \<and> cameraFrame 0.2 16 c1 s1 = Inr s2 \<and> camera s2 = Some c2
       \<and> transitionTargetAlpha s2 = Some (pi / 4)
       \<and> alpha c2 = alpha c1 + (pi / 4 - alpha c1) * 0.08)"
proof -
  have h: "reachable loadedScene \<and> camera loadedScene = Some initialCamera"
    by (simp add: loadedScene_reachable loadedScene_fields)
  have l0: "lastTransitionProgress loadedScene = Finite 0" by (simp add: loadedScene_fields)
  have st: "snapToNearest (alpha initialCamera) STRAIGHT_ANGLES = Some (pi / 2)"
    unfolding initialCamera_def
    by (simp add: snapToNearest_exact STRAIGHT_ANGLES_def)
  note t1 = transition_target_capture [of loadedScene initialCamera "0.1" 0,
      THEN conjunct1, THEN mp, OF h]
  then obtain s1 c1 straight center tp where f:
    "cameraFrame 0.1 0 initialCamera loadedScene = Inr s1" "camera s1 = Some c1"
    "tp = min (max (0.1 / 0.33) 0) (1::real)"
    "lastTransitionProgress s1 = Finite tp"
    "snapToNearest (alpha initialCamera) STRAIGHT_ANGLES = Some straight"
    "center = (if straight = 0 \<or> straight = pi / 2 then pi / 4
                 else if straight = pi then 3 * pi / 4 else 5 * pi / 4)"
    "(\<exists>l. lastTransitionProgress loadedScene = Finite l \<and> l < 0.1) \<and> 0.1 \<le> tp \<and> tp < 1
          \<longrightarrow> transitionTargetAlpha s1 = Some center
              \<and> alpha c1 = alpha initialCamera + (center - alpha initialCamera) * 0.08"
    by (elim exE conjE)
  have tp: "tp = 10 / 33" unfolding f(3) by simp
  from f(5) st have "straight = pi / 2" by simp
  with f(6) have ce: "center = pi / 4" by simp
  have "lastTransitionProgress loadedScene = Finite 0 \<and> (0::real) < 0.1"
    using l0 by simp
  then have "\<exists>l. lastTransitionProgress loadedScene = Finite l \<and> l < 0.1" by (rule exI)
  with f(7) have "transitionTargetAlpha s1 = Some center"
    "alpha c1 = alpha initialCamera + (center - alpha initialCamera) * 0.08"
    unfolding tp by simp_all
  then have g: "transitionTargetAlpha s1 = Some (pi / 4)"
    "alpha c1 = pi / 2 + (pi / 4 - pi / 2) * 0.08"
    unfolding ce by (simp_all add: initialCamera_def)
  have l1: "lastTransitionProgress s1 = Finite (10 / 33)" unfolding f(4) tp ..
  have "updateCameraFromScroll (pageAt 0.1) 0 loadedScene
          = cameraFrame 0.1 0 initialCamera loadedScene"
    by (rule pageAt_frame) (simp_all add: loadedScene_fields)
  then have "updateCameraFromScroll (pageAt 0.1) 0 loadedScene = Inr s1" unfolding f(1) .
  with loadedScene_reachable have r1: "reachable s1" by (rule reachable.frame)
  from r1 f(2) have h1: "reachable s1 \<and> camera s1 = Some c1" by (rule conjI)
  note t2 = transition_target_capture [of s1 c1 "0.2" 16, THEN conjunct1, THEN mp, OF h1]
  then obtain s2 c2 tp2 where k:
    "cameraFrame 0.2 16 c1 s1 = Inr s2" "camera s2 = Some c2"
    "tp2 = min (max (0.2 / 0.33) 0) (1::real)"
    "(\<exists>l. lastTransitionProgress s1 = Finite l \<and> 0.1 \<le> l) \<and> 0.1 \<le> tp2 \<and> tp2 < 1
          \<longrightarrow> transitionTargetAlpha s2 = transitionTargetAlpha s1
              \<and> (\<forall>t. transitionTargetAlpha s1 = Some t
                      \<longrightarrow> alpha c2 = alpha c1 + (t - alpha c1) * 0.08)"
    by (elim exE conjE)
  have tp2: "tp2 = 20 / 33" unfolding k(3) by simp
  have "lastTransitionProgress s1 = Finite (10 / 33) \<and> (0.1::real) \<le> 10 / 33"
    using l1 by simp
  then have "\<exists>l. lastTransitionProgress s1 = Finite l \<and> 0.1 \<le> l" by (rule exI)
  with k(4) have q: "transitionTargetAlpha s2 = transitionTargetAlpha s1"
    "\<forall>t. transitionTargetAlpha s1 = Some t \<longrightarrow> alpha c2 = alpha c1 + (t - alpha c1) * 0.08"
    unfolding tp2 by simp_all
  have m1: "transitionTargetAlpha s2 = Some (pi / 4)" unfolding q(1) by (rule g(1))
  have m2: "alpha c2 = alpha c1 + (pi / 4 - alpha c1) * 0.08"
    by (rule q(2) [THEN spec, THEN mp, OF g(1)])
  note m = m1 m2
  from f(1,2) r1 l1 g k(1,2) m
  have "cameraFrame 0.1 0 initialCamera loadedScene = Inr s1 \<and> camera s1 = Some c1
       \<and> reachable s1
       \<and> lastTransitionProgress s1 = Finite (10 / 33)
       \<and> transitionTargetAlpha s1 = Some (pi / 4)
       \<and> alpha c1 = pi / 2 + (pi / 4 - pi / 2) * 0.08
       \<and> cameraFrame 0.2 16 c1 s1 = Inr s2 \<and> camera s2 = Some c2
       \<and> transitionTargetAlpha s2 = Some (pi / 4)
       \<and> alpha c2 = alpha c1 + (pi / 4 - alpha c1) * 0.08"
    by (intro conjI)
  then have e: "\<exists>s1 c1 s2 c2.
         cameraFrame 0.1 0 initialCamera loadedScene = Inr s1 \<and> camera s1 = Some c1
       \<and> reachable s1
       \<and> lastTransitionProgress s1 = Finite (10 / 33)
       \<and> transitionTargetAlpha s1 = Some (pi / 4)
       \<and> alpha c1 = pi / 2 + (pi / 4 - pi / 2) * 0.08
       \<and> cameraFrame 0.2 16 c1 s1 = Inr s2 \<and> camera s2 = Some c2
       \<and> transitionTargetAlpha s2 = Some (pi / 4)
       \<and> alpha c2 = alpha c1 + (pi / 4 - alpha c1) * 0.08"
    by (intro exI)
  from h l0 e show ?thesis by (intro conjI) simp_all
qed

end
